theory Spec2Isabelle
  imports Complex_Main
begin

section \<open>Tensors\<close>

text \<open>
  The tensors of \<^verbatim>\<open>seq2seq/training_utils.py\<close> are rectangular arrays of floats. They are
  modelled as nested lists of reals: a batch \<^verbatim>\<open>[batch, time, features]\<close> is a list of
  samples, a sample a list of timesteps, a timestep a list of features. A tensor with a
  leading dimension of size one (the result of \<^verbatim>\<open>unsqueeze(0)\<close>, the decoder's input and
  output) is the matrix below it. Floating-point rounding is not modelled; \<^verbatim>\<open>.to(device)\<close>
  and \<^verbatim>\<open>.float()\<close> are the identity.
\<close>

type_synonym vec = "real list"
type_synonym mat = "vec list"
type_synonym tensor3 = "mat list"

datatype error = SystemExit | IndexError | RuntimeError | ZeroDivisionError

text \<open>\<^verbatim>\<open>x.shape[1]\<close> of a batch.\<close>

definition seq_len :: "tensor3 \<Rightarrow> nat" where
  "seq_len x = (case x of [] \<Rightarrow> 0 | s # _ \<Rightarrow> length s)"

text \<open>The shape \<^verbatim>\<open>[rows, columns]\<close> of a matrix.\<close>

definition cols :: "mat \<Rightarrow> nat" where
  "cols m = (case m of [] \<Rightarrow> 0 | r # _ \<Rightarrow> length r)"

text \<open>\<^verbatim>\<open>x[:, t, :]\<close>: an index past the time dimension raises IndexError.\<close>

definition timestep :: "tensor3 \<Rightarrow> nat \<Rightarrow> error + mat" where
  "timestep x t = (if t < seq_len x then Inr (map (\<lambda>s. s ! t) x) else Inl IndexError)"

text \<open>\<^verbatim>\<open>x.permute(1, 0, 2)\<close>: the batch arranged time-major.\<close>

definition permute102 :: "tensor3 \<Rightarrow> tensor3" where
  "permute102 x = map (\<lambda>t. map (\<lambda>s. s ! t) x) [0..<seq_len x]"

definition ones_like :: "mat \<Rightarrow> mat" where
  "ones_like m = map (map (\<lambda>_. 1)) m"

definition zeros_like :: "mat \<Rightarrow> mat" where
  "zeros_like m = map (map (\<lambda>_. 0)) m"

definition zeros_like3 :: "tensor3 \<Rightarrow> tensor3" where
  "zeros_like3 x = map zeros_like x"

text \<open>
  Broadcasting of one dimension: a dimension of the right size is kept, a dimension of
  size one is repeated, anything else is a RuntimeError.
\<close>

definition expand :: "nat \<Rightarrow> 'a list \<Rightarrow> error + 'a list" where
  "expand n xs =
     (if length xs = n then Inr xs
      else if length xs = 1 then Inr (replicate n (hd xs))
      else Inl RuntimeError)"

definition expand_row :: "nat \<Rightarrow> vec \<Rightarrow> vec" where
  "expand_row n r = (if length r = n then r else replicate n (hd r))"

definition broadcast_to :: "nat \<Rightarrow> nat \<Rightarrow> mat \<Rightarrow> error + mat" where
  "broadcast_to b f m =
     (case expand b m of
        Inl e \<Rightarrow> Inl e
      | Inr rows \<Rightarrow>
          if list_all (\<lambda>r. length r = f \<or> length r = 1) rows
          then Inr (map (expand_row f) rows)
          else Inl RuntimeError)"

text \<open>
  \<^verbatim>\<open>outputs[:, t, :] = output\<close>: the value is broadcast to the slice's shape
  \<^verbatim>\<open>[batch, features]\<close> and written at timestep \<^verbatim>\<open>t\<close> of every sample.
\<close>

definition assign_timestep :: "tensor3 \<Rightarrow> nat \<Rightarrow> mat \<Rightarrow> error + tensor3" where
  "assign_timestep outputs t output =
     (case timestep outputs t of
        Inl e \<Rightarrow> Inl e
      | Inr slice \<Rightarrow>
          (case broadcast_to (length slice) (cols slice) output of
             Inl e \<Rightarrow> Inl e
           | Inr v \<Rightarrow> Inr (map2 (\<lambda>s r. s[t := r]) outputs v)))"

section \<open>Quaternion normalisation\<close>

text \<open>
  \<^verbatim>\<open>output.contiguous().view(-1, 4)\<close> reads the elements in row-major order in groups of
  four; it raises a RuntimeError when their number is zero or not a multiple of four.
  \<^verbatim>\<open>F.normalize(x, p=2, dim=1)\<close> divides each row by \<^verbatim>\<open>max(norm, eps)\<close> with
  \<^verbatim>\<open>eps = 1e-12\<close>. \<^verbatim>\<open>view(original_shape)\<close> cuts the elements into the rows of the
  original again.
\<close>

fun quads :: "'a list \<Rightarrow> 'a list list" where
  "quads (a # b # c # d # xs) = [a, b, c, d] # quads xs"
| "quads _ = []"

fun view_as :: "'b list list \<Rightarrow> 'a list \<Rightarrow> 'a list list" where
  "view_as [] xs = []"
| "view_as (r # rs) xs = take (length r) xs # view_as rs (drop (length r) xs)"

definition l2_norm :: "vec \<Rightarrow> real" where
  "l2_norm v = sqrt (\<Sum>x\<leftarrow>v. x\<^sup>2)"

definition eps :: real where
  "eps = 1 / 10 ^ 12"

definition f_normalize :: "vec \<Rightarrow> vec" where
  "f_normalize v = map (\<lambda>x. x / max (l2_norm v) eps) v"

definition norm_quaternions_of :: "mat \<Rightarrow> error + mat" where
  "norm_quaternions_of output =
     (let flat = concat output
      in if flat = [] \<or> length flat mod 4 \<noteq> 0 then Inl RuntimeError
         else Inr (view_as output (concat (map f_normalize (quads flat)))))"

section \<open>The state of a run\<close>

text \<open>
  A module (encoder or decoder) holds its parameters and its training flag; an optimizer
  holds its internal state. The trace records, in order, the calls the code makes to its
  collaborators: the encoder, the decoder (with its input and output), the logger and
  \<^verbatim>\<open>torch.save\<close>.
\<close>

record module =
  params :: "real list"
  training :: bool

record checkpoint =
  encoder_state_dict :: "real list"
  decoder_state_dict :: "real list"
  optimizerA_state_dict :: "real list"
  optimizerB_state_dict :: "real list"

text \<open>
  Floats as Python and numpy hold them (the value of \<^verbatim>\<open>loss.item()\<close>, \<^verbatim>\<open>math.inf\<close>, the
  means of an epoch): a finite value, an infinity or NaN.
\<close>

datatype npfloat = Finite real | PosInf | NegInf | NaN

text \<open>What \<^verbatim>\<open>loss_batch\<close> returns: one float, or one float for each sample.\<close>

datatype loss = Scalar npfloat | PerSample "npfloat list"

datatype event =
    Encoder_Call
  | Decoder_Call mat mat
  | Log_Warning
  | Log_Epoch nat nat
  | Log_Progress nat nat loss
  | Log_Losses npfloat "npfloat list"
  | Log_Saving
  | Torch_Save checkpoint

record world =
  encoder :: module
  decoder :: module
  encoder_opt :: "real list"
  decoder_opt :: "real list"
  draws :: nat
  trace :: "event list"

text \<open>
  A criterion is called on whole batches \<^verbatim>\<open>[batch, time, features]\<close> and, for the
  per-sample losses, on single samples \<^verbatim>\<open>[time, features]\<close>. Its value is the float that
  \<^verbatim>\<open>.item()\<close> reads, which may be NaN or infinite.
\<close>

record criterion =
  on_batch :: "tensor3 \<Rightarrow> tensor3 \<Rightarrow> npfloat"
  on_sample :: "mat \<Rightarrow> mat \<Rightarrow> npfloat"

text \<open>
  The collaborators the code calls but does not define: the forward pass of the encoder
  (parameters, training flag, time-major input; it returns the encoder outputs and the
  hidden state) and of the decoder (parameters, training flag, input, hidden state, the
  encoder outputs when attention is used), the gradient that \<^verbatim>\<open>loss.backward()\<close>
  leaves for the encoder and for the decoder (a function of the criterion, the parameters,
  the batch and the flags teacher forcing, attention and normalisation of the forward
  pass), an optimizer's step (its state, the parameters and their gradient give the new
  state and parameters), the values that successive calls of \<^verbatim>\<open>random.random()\<close>
  return, and numpy's arithmetic on floats: \<^verbatim>\<open>np.sum\<close> of a list and the quotient of a
  numpy float by a count (neither raises: a division by zero is a warning).
\<close>

record env =
  encoder_forward :: "real list \<Rightarrow> bool \<Rightarrow> tensor3 \<Rightarrow> tensor3 \<times> tensor3"
  decoder_forward :: "real list \<Rightarrow> bool \<Rightarrow> mat \<Rightarrow> tensor3 \<Rightarrow> tensor3 option \<Rightarrow> mat \<times> tensor3"
  autograd :: "criterion \<Rightarrow> real list \<times> real list \<Rightarrow> tensor3 \<times> tensor3 \<Rightarrow>
               bool \<times> bool \<times> bool \<Rightarrow> real list \<times> real list"
  optimizer_step :: "real list \<Rightarrow> real list \<Rightarrow> real list \<Rightarrow> real list \<times> real list"
  random_random :: "nat \<Rightarrow> real"
  np_sum :: "npfloat list \<Rightarrow> npfloat"
  np_divide :: "npfloat \<Rightarrow> nat \<Rightarrow> npfloat"

section \<open>loss\_batch\<close>

text \<open>
  The state of the unrolling loop \<^verbatim>\<open>for t in range(seq_length)\<close>: the next decoder
  input, the hidden state, the outputs written so far, and the decoder calls made so far
  (input and output of each).
\<close>

record loop_state =
  decoder_input :: mat
  decoder_hidden :: tensor3
  outputs :: tensor3
  calls :: "(mat \<times> mat) list"

text \<open>
  \<^verbatim>\<open>torch.all(torch.eq(decoder_output, EOS))\<close>, reached only after the output has been
  written into a slice of the sentinel's shape.
\<close>

definition is_eos :: "mat \<Rightarrow> mat \<Rightarrow> bool" where
  "is_eos decoder_output EOS =
     (case broadcast_to (length EOS) (cols EOS) decoder_output of
        Inl e \<Rightarrow> False
      | Inr v \<Rightarrow> list_all (list_all (\<lambda>x. x = 0)) v)"

text \<open>
  The loop over the timesteps still to run. It returns the error that ended it, if any,
  and the state it reached.
\<close>

fun decode_loop ::
  "(mat \<Rightarrow> tensor3 \<Rightarrow> mat \<times> tensor3) \<Rightarrow> tensor3 \<Rightarrow> mat \<Rightarrow> bool \<Rightarrow> bool \<Rightarrow> nat list \<Rightarrow>
   loop_state \<Rightarrow> error option \<times> loop_state" where
  "decode_loop dec target_batch EOS use_teacher_forcing norm_quaternions [] s = (None, s)"
| "decode_loop dec target_batch EOS use_teacher_forcing norm_quaternions (t # ts) s =
     (let (decoder_output, hidden) = dec (decoder_input s) (decoder_hidden s);
          s1 = s\<lparr>decoder_hidden := hidden,
                 calls := calls s @ [(decoder_input s, decoder_output)]\<rparr>
      in case timestep target_batch t of
           Inl e \<Rightarrow> (Some e, s1)
         | Inr target \<Rightarrow>
             (case (if norm_quaternions then norm_quaternions_of decoder_output
                    else Inr decoder_output) of
                Inl e \<Rightarrow> (Some e, s1)
              | Inr output \<Rightarrow>
                  (case assign_timestep (outputs s1) t output of
                     Inl e \<Rightarrow> (Some e, s1)
                   | Inr outs \<Rightarrow>
                       let s2 = s1\<lparr>outputs := outs\<rparr>
                       in if use_teacher_forcing
                          then decode_loop dec target_batch EOS use_teacher_forcing
                                 norm_quaternions ts (s2\<lparr>decoder_input := target\<rparr>)
                          else if is_eos decoder_output EOS then (None, s2)
                          else decode_loop dec target_batch EOS use_teacher_forcing
                                 norm_quaternions ts (s2\<lparr>decoder_input := output\<rparr>))))"

text \<open>
  The optimizer steps of a training call: \<^verbatim>\<open>loss.backward()\<close>, then step and zero\_grad
  of the encoder's optimizer, then of the decoder's. Every training call ends by zeroing
  the gradients, so they are not carried in the state.
\<close>

definition optimize ::
  "env \<Rightarrow> criterion \<Rightarrow> tensor3 \<times> tensor3 \<Rightarrow> bool \<times> bool \<times> bool \<Rightarrow> world \<Rightarrow> world" where
  "optimize E crit data flags w =
     (let (ge, gd) = autograd E crit (params (encoder w), params (decoder w)) data flags;
          (eo, ep) = optimizer_step E (encoder_opt w) (params (encoder w)) ge;
          (dop, dp) = optimizer_step E (decoder_opt w) (params (decoder w)) gd
      in w\<lparr>encoder := (encoder w)\<lparr>params := ep\<rparr>, encoder_opt := eo,
           decoder := (decoder w)\<lparr>params := dp\<rparr>, decoder_opt := dop\<rparr>)"

text \<open>
  \<^verbatim>\<open>loss_batch(data, models, opts, criterion, device, scaler, teacher_forcing_ratio,
  use_attention, norm_quaternions, average_batch)\<close>. The models and the optimizers live in
  the world; \<open>opts\<close> says whether the optimizers are passed (\<^verbatim>\<open>opts is not None\<close>).
  The result is the exception raised or the loss returned, with the world the call left.
  The module does not import \<^verbatim>\<open>sys\<close> itself; the name is taken to be bound by
  \<^verbatim>\<open>from .seq2seq import *\<close>, so that \<^verbatim>\<open>sys.exit()\<close> raises SystemExit.
\<close>

definition loss_batch ::
  "env \<Rightarrow> tensor3 \<times> tensor3 \<Rightarrow> bool \<Rightarrow> criterion \<Rightarrow> real \<Rightarrow> bool \<Rightarrow> bool \<Rightarrow> bool \<Rightarrow> world \<Rightarrow>
   (error + loss) \<times> world" where
  "loss_batch E data opts crit teacher_forcing_ratio use_attention norm_quaternions
     average_batch w =
     (let (input_batch, target_batch) = data;
          w1 = w\<lparr>encoder := (encoder w)\<lparr>training := opts\<rparr>,
                 decoder := (decoder w)\<lparr>training := opts\<rparr>\<rparr>;
          seq_length = seq_len input_batch;
          (encoder_outputs, encoder_hidden) =
             encoder_forward E (params (encoder w1)) (training (encoder w1))
               (permute102 input_batch);
          w2 = w1\<lparr>trace := trace w1 @ [Encoder_Call]\<rparr>
      in case timestep target_batch 0 of
           Inl e \<Rightarrow> (Inl e, w2)
         | Inr first \<Rightarrow>
             let use_teacher_forcing = (random_random E (draws w2) < teacher_forcing_ratio);
                 w3 = w2\<lparr>draws := Suc (draws w2)\<rparr>
             in if \<not> average_batch \<and> opts
                then (Inl SystemExit, w3\<lparr>trace := trace w3 @ [Log_Warning]\<rparr>)
                else
                  (case decode_loop
                          (\<lambda>i h. decoder_forward E (params (decoder w3)) (training (decoder w3))
                                    i h (if use_attention then Some encoder_outputs else None))
                          target_batch (zeros_like first) use_teacher_forcing norm_quaternions
                          [0..<seq_length]
                          \<lparr>decoder_input = ones_like first, decoder_hidden = encoder_hidden,
                           outputs = zeros_like3 target_batch, calls = []\<rparr> of
                     (Some e, s) \<Rightarrow>
                       (Inl e, w3\<lparr>trace := trace w3 @ map (\<lambda>(i, out). Decoder_Call i out) (calls s)\<rparr>)
                   | (None, s) \<Rightarrow>
                       let w4 = w3\<lparr>trace := trace w3 @
                                     map (\<lambda>(i, out). Decoder_Call i out) (calls s)\<rparr>;
                           l = on_batch crit (outputs s) target_batch;
                           w5 = (if opts
                                 then optimize E crit data
                                        (use_teacher_forcing, use_attention, norm_quaternions) w4
                                 else w4)
                       in if average_batch then (Inr (Scalar l), w5)
                          else (Inr (PerSample
                                  (map (\<lambda>b. on_sample crit (outputs s ! b) (target_batch ! b))
                                     [0..<length (outputs s)])), w5)))"

section \<open>fit\<close>

text \<open>
  \<^verbatim>\<open>np.sum(losses) / len(losses)\<close>: numpy sums whatever floats the list holds and divides
  the sum by the number of entries of the list.
\<close>

definition loss_values :: "loss \<Rightarrow> npfloat list" where
  "loss_values l = (case l of Scalar x \<Rightarrow> [x] | PerSample xs \<Rightarrow> xs)"

definition np_mean :: "env \<Rightarrow> loss list \<Rightarrow> npfloat" where
  "np_mean E ls = np_divide E (np_sum E (concat (map loss_values ls))) (length ls)"

text \<open>\<^verbatim>\<open>a < b\<close> on floats: false whenever NaN is involved.\<close>

fun np_less :: "npfloat \<Rightarrow> npfloat \<Rightarrow> bool" where
  "np_less (Finite a) (Finite b) = (a < b)"
| "np_less (Finite a) PosInf = True"
| "np_less NegInf (Finite b) = True"
| "np_less NegInf PosInf = True"
| "np_less _ _ = False"

text \<open>
  A scheduler's \<^verbatim>\<open>step()\<close> adjusts the optimizers it is bound to; it is given the
  number of steps it has made before.
\<close>

type_synonym scheduler = "nat \<Rightarrow> real list \<times> real list \<Rightarrow> real list \<times> real list"

text \<open>
  The arguments of \<^verbatim>\<open>fit\<close> that stay fixed during the run. The data loaders are the
  lists of batches they yield, in order (line 138 reads the first item of the training
  dataset for a variable that is never used; the model takes the item to exist). The
  models and optimizers are in the world, and the file at \<^verbatim>\<open>model_file_path\<close> holds what the last \<open>Torch_Save\<close> of the trace wrote.
\<close>

record fit_args =
  epochs :: nat
  train_dataloader :: "(tensor3 \<times> tensor3) list"
  val_dataloader :: "(tensor3 \<times> tensor3) list"
  training_criterion :: criterion
  validation_criteria :: "criterion list"
  schedulers :: "scheduler list"
  use_attention :: bool
  norm_quaternions :: bool
  schedule_rate :: real

text \<open>
  The training loop \<^verbatim>\<open>for index, data in enumerate(train_dataloader, 0)\<close>. The call of
  \<^verbatim>\<open>loss_batch\<close> passes the optimizers, \<^verbatim>\<open>use_attention\<close> and \<^verbatim>\<open>norm_quaternions\<close>;
  \<^verbatim>\<open>teacher_forcing_ratio\<close> and \<^verbatim>\<open>average_batch\<close> keep their defaults \<^verbatim>\<open>0.0\<close> and
  \<^verbatim>\<open>True\<close>. The elapsed time of the progress message is not modelled.
\<close>

fun train_loop ::
  "env \<Rightarrow> fit_args \<Rightarrow> (nat \<times> (tensor3 \<times> tensor3)) list \<Rightarrow> loss list \<Rightarrow> world \<Rightarrow>
   (error + loss list) \<times> world" where
  "train_loop E A [] losses w = (Inr losses, w)"
| "train_loop E A ((index, data) # rest) losses w =
     (case loss_batch E data True (training_criterion A) 0 (use_attention A)
             (norm_quaternions A) True w of
        (Inl e, w1) \<Rightarrow> (Inl e, w1)
      | (Inr l, w1) \<Rightarrow>
          if length (train_dataloader A) div 10 = 0 then (Inl ZeroDivisionError, w1)
          else train_loop E A rest (losses @ [l])
                 (if index mod (length (train_dataloader A) div 10) = 0
                  then w1\<lparr>trace := trace w1 @
                            [Log_Progress index (length (train_dataloader A)) l]\<rparr>
                  else w1))"

text \<open>
  One pass over the validation loader for one criterion, without optimizers:
  \<^verbatim>\<open>[loss_batch(data, models, None, validation_criterion, ...) for _, data in ...]\<close>.
\<close>

fun val_loop ::
  "env \<Rightarrow> fit_args \<Rightarrow> criterion \<Rightarrow> (tensor3 \<times> tensor3) list \<Rightarrow> loss list \<Rightarrow> world \<Rightarrow>
   (error + loss list) \<times> world" where
  "val_loop E A vc [] val_losses w = (Inr val_losses, w)"
| "val_loop E A vc (data # rest) val_losses w =
     (case loss_batch E data False vc 0 (use_attention A) (norm_quaternions A) True w of
        (Inl e, w1) \<Rightarrow> (Inl e, w1)
      | (Inr l, w1) \<Rightarrow> val_loop E A vc rest (val_losses @ [l]) w1)"

fun validate ::
  "env \<Rightarrow> fit_args \<Rightarrow> criterion list \<Rightarrow> npfloat list \<Rightarrow> world \<Rightarrow>
   (error + npfloat list) \<times> world" where
  "validate E A [] val_loss w = (Inr val_loss, w)"
| "validate E A (vc # vcs) val_loss w =
     (case val_loop E A vc (val_dataloader A) [] w of
        (Inl e, w1) \<Rightarrow> (Inl e, w1)
      | (Inr val_losses, w1) \<Rightarrow> validate E A vcs (val_loss @ [np_mean E val_losses]) w1)"

definition step_schedulers :: "scheduler list \<Rightarrow> nat \<Rightarrow> world \<Rightarrow> world" where
  "step_schedulers ss epoch w =
     fold (\<lambda>scheduler w.
             let (eo, dop) = scheduler epoch (encoder_opt w, decoder_opt w)
             in w\<lparr>encoder_opt := eo, decoder_opt := dop\<rparr>) ss w"

text \<open>
  The local variables of \<^verbatim>\<open>fit\<close> that live across epochs, with the world.
\<close>

record fit_state =
  world_of :: world
  min_val_loss :: npfloat
  teacher_forcing_ratio :: real

definition save_checkpoint :: "world \<Rightarrow> world" where
  "save_checkpoint w =
     w\<lparr>trace := trace w @
          [Log_Saving,
           Torch_Save \<lparr>encoder_state_dict = params (encoder w),
                       decoder_state_dict = params (decoder w),
                       optimizerA_state_dict = encoder_opt w,
                       optimizerB_state_dict = decoder_opt w\<rparr>]\<rparr>"

text \<open>The body of \<^verbatim>\<open>for epoch in range(epochs)\<close>.\<close>

definition epoch_body :: "env \<Rightarrow> fit_args \<Rightarrow> nat \<Rightarrow> fit_state \<Rightarrow> error option \<times> fit_state" where
  "epoch_body E A epoch st =
     (let w0 = (world_of st)\<lparr>trace := trace (world_of st) @ [Log_Epoch (epoch + 1) (epochs A)]\<rparr>
      in case train_loop E A (enumerate 0 (train_dataloader A)) [] w0 of
           (Inl e, w1) \<Rightarrow> (Some e, st\<lparr>world_of := w1\<rparr>)
         | (Inr losses, w1) \<Rightarrow>
             (case validate E A (validation_criteria A) [] w1 of
                (Inl e, w2) \<Rightarrow> (Some e, st\<lparr>world_of := w2\<rparr>)
              | (Inr val_loss, w2) \<Rightarrow>
                  let w3 = step_schedulers (schedulers A) epoch w2;
                      w4 = w3\<lparr>trace := trace w3 @ [Log_Losses (np_mean E losses) val_loss]\<rparr>;
                      st1 = st\<lparr>world_of := w4,
                               teacher_forcing_ratio :=
                                 teacher_forcing_ratio st * schedule_rate A\<rparr>
                  in (case val_loss of
                        [] \<Rightarrow> (Some IndexError, st1)
                      | v # _ \<Rightarrow>
                          if np_less v (min_val_loss st1)
                          then (None, st1\<lparr>min_val_loss := v, world_of := save_checkpoint w4\<rparr>)
                          else (None, st1))))"

fun fit_loop :: "env \<Rightarrow> fit_args \<Rightarrow> nat list \<Rightarrow> fit_state \<Rightarrow> error option \<times> fit_state" where
  "fit_loop E A [] st = (None, st)"
| "fit_loop E A (epoch # rest) st =
     (case epoch_body E A epoch st of
        (Some e, st1) \<Rightarrow> (Some e, st1)
      | (None, st1) \<Rightarrow> fit_loop E A rest st1)"

text \<open>
  \<^verbatim>\<open>fit\<close> returns nothing; the model returns the exception that ended it, if any, and the
  state it left: the world and the final values of its local variables.
\<close>

definition fit :: "env \<Rightarrow> fit_args \<Rightarrow> real \<Rightarrow> world \<Rightarrow> error option \<times> fit_state" where
  "fit E A teacher_forcing_ratio0 w =
     fit_loop E A [0..<epochs A]
       \<lparr>world_of = w, min_val_loss = PosInf, teacher_forcing_ratio = teacher_forcing_ratio0\<rparr>"

section \<open>Concrete instances\<close>

text \<open>
  Float arithmetic without rounding, for the environments below: finite values add and
  divide as real numbers, and the infinities and NaN follow IEEE 754 (a sum that meets NaN
  or both infinities is NaN; \<^verbatim>\<open>0.0 / 0\<close> is NaN and a nonzero value over zero is an
  infinity of its sign). \<^verbatim>\<open>np.sum\<close> of the empty list is zero.
\<close>

fun np_add :: "npfloat \<Rightarrow> npfloat \<Rightarrow> npfloat" where
  "np_add (Finite a) (Finite b) = Finite (a + b)"
| "np_add NaN y = NaN"
| "np_add x NaN = NaN"
| "np_add PosInf NegInf = NaN"
| "np_add NegInf PosInf = NaN"
| "np_add PosInf y = PosInf"
| "np_add x PosInf = PosInf"
| "np_add NegInf y = NegInf"
| "np_add x NegInf = NegInf"

definition exact_sum :: "npfloat list \<Rightarrow> npfloat" where
  "exact_sum xs = foldl np_add (Finite 0) xs"

fun exact_divide :: "npfloat \<Rightarrow> nat \<Rightarrow> npfloat" where
  "exact_divide (Finite a) n =
     (if n = 0 then (if a = 0 then NaN else if 0 < a then PosInf else NegInf)
      else Finite (a / real n))"
| "exact_divide x n = x"

text \<open>
  A small environment used to run the model: the encoder returns nothing of interest, the
  decoder adds one to every element of its input and keeps the hidden state, the
  optimizers leave state and parameters as they are, every call of
  \<^verbatim>\<open>random.random()\<close> returns one half, and numpy's arithmetic does not round.
\<close>

definition example_env :: env where
  "example_env =
     \<lparr>encoder_forward = (\<lambda>p tr x. ([], [])),
      decoder_forward = (\<lambda>p tr i h eo. (map (map (\<lambda>x. x + 1)) i, h)),
      autograd = (\<lambda>c p d tf. ([], [])),
      optimizer_step = (\<lambda>st p g. (st, p)),
      random_random = (\<lambda>n. 1 / 2),
      np_sum = exact_sum,
      np_divide = exact_divide\<rparr>"

definition example_world :: world where
  "example_world =
     \<lparr>encoder = \<lparr>params = [], training = False\<rparr>,
      decoder = \<lparr>params = [], training = False\<rparr>,
      encoder_opt = [], decoder_opt = [], draws = 0, trace = []\<rparr>"

text \<open>The absolute error summed over all elements (\<^verbatim>\<open>nn.L1Loss(reduction='sum')\<close>).\<close>

definition l1_sum :: criterion where
  "l1_sum =
     \<lparr>on_batch = (\<lambda>out t. Finite (sum_list (map2 (\<lambda>a b. \<bar>a - b\<bar>)
                                (concat (concat out)) (concat (concat t))))),
      on_sample = (\<lambda>out t. Finite (sum_list (map2 (\<lambda>a b. \<bar>a - b\<bar>) (concat out) (concat t))))\<rparr>"

section \<open>Shapes and observations\<close>

text \<open>A batch is well formed when it is rectangular: \<open>b\<close> samples of \<open>t\<close> timesteps of \<open>f\<close> features.\<close>

definition has_shape :: "tensor3 \<Rightarrow> nat \<Rightarrow> nat \<Rightarrow> nat \<Rightarrow> bool" where
  "has_shape x b t f =
     (length x = b \<and> list_all (\<lambda>s. length s = t \<and> list_all (\<lambda>v. length v = f) s) x)"

text \<open>The decoder calls of a trace, in order: the input and the output of each.\<close>

fun decoder_calls :: "event list \<Rightarrow> (mat \<times> mat) list" where
  "decoder_calls [] = []"
| "decoder_calls (Decoder_Call i out # es) = (i, out) # decoder_calls es"
| "decoder_calls (e # es) = decoder_calls es"

text \<open>
  What the loop feeds back without teacher forcing: \<^verbatim>\<open>output.detach()\<close>, the decoder's
  output, normalised when \<^verbatim>\<open>norm_quaternions\<close> is set.
\<close>

definition fed_back :: "bool \<Rightarrow> mat \<Rightarrow> mat \<Rightarrow> bool" where
  "fed_back nq decoder_output next_input =
     (if nq then norm_quaternions_of decoder_output = Inr next_input
      else next_input = decoder_output)"

text \<open>
  A criterion with mean reduction (the default of \<^verbatim>\<open>nn.L1Loss\<close> and \<^verbatim>\<open>nn.MSELoss\<close>): an
  elementwise loss \<open>g\<close> averaged over all elements of what it is called on.
\<close>

definition mean :: "real list \<Rightarrow> real" where
  "mean xs = sum_list xs / real (length xs)"

definition mean_criterion :: "(real \<Rightarrow> real \<Rightarrow> real) \<Rightarrow> criterion" where
  "mean_criterion g =
     \<lparr>on_batch = (\<lambda>out t. Finite (mean (map2 g (concat (concat out)) (concat (concat t))))),
      on_sample = (\<lambda>out t. Finite (mean (map2 g (concat out) (concat t))))\<rparr>"

text \<open>
  What a trace shows of model selection. Every epoch that reaches the end of its
  validation logs its losses (\<open>Log_Losses\<close>, line 179), the first validation loss being
  the selection metric; a checkpoint written afterwards (\<open>Torch_Save\<close>) belongs to the
  epoch whose losses were logged last. Epochs are counted from 1.
\<close>

fun logged_means :: "event list \<Rightarrow> npfloat list" where
  "logged_means [] = []"
| "logged_means (Log_Losses l (v # vs) # es) = v # logged_means es"
| "logged_means (e # es) = logged_means es"

fun save_epochs :: "nat \<Rightarrow> event list \<Rightarrow> nat list" where
  "save_epochs n [] = []"
| "save_epochs n (Log_Losses l vs # es) = save_epochs (Suc n) es"
| "save_epochs n (Torch_Save c # es) = n # save_epochs n es"
| "save_epochs n (e # es) = save_epochs n es"

fun saved_checkpoints :: "event list \<Rightarrow> checkpoint list" where
  "saved_checkpoints [] = []"
| "saved_checkpoints (Torch_Save c # es) = c # saved_checkpoints es"
| "saved_checkpoints (e # es) = saved_checkpoints es"

text \<open>
  Epoch \<open>e\<close> improves on the means \<open>ms\<close> when its mean is strictly lower than
  \<^verbatim>\<open>math.inf\<close> and than the mean of every earlier epoch that is not NaN.
\<close>

definition improving :: "npfloat list \<Rightarrow> nat \<Rightarrow> bool" where
  "improving ms e =
     (np_less (ms ! (e - 1)) PosInf \<and>
      list_all (\<lambda>m. m = NaN \<or> np_less (ms ! (e - 1)) m) (take (e - 1) ms))"

text \<open>
  What a checkpoint should hold: the parameters of the encoder and of the decoder and the
  states of both optimizers, as they are in a world.
\<close>

definition checkpoint_of :: "world \<Rightarrow> checkpoint" where
  "checkpoint_of w =
     \<lparr>encoder_state_dict = params (encoder w), decoder_state_dict = params (decoder w),
      optimizerA_state_dict = encoder_opt w, optimizerB_state_dict = decoder_opt w\<rparr>"

text \<open>
  The state of a run of \<^verbatim>\<open>fit\<close> after its first \<open>e\<close> epochs, and the world in which the
  validation of epoch \<open>e + 1\<close> runs when that epoch starts in the world \<open>w\<close>: the one its
  training loop leaves.
\<close>

definition after_epochs :: "env \<Rightarrow> fit_args \<Rightarrow> real \<Rightarrow> world \<Rightarrow> nat \<Rightarrow> fit_state" where
  "after_epochs E A ratio w e =
     snd (fit_loop E A [0..<e]
            \<lparr>world_of = w, min_val_loss = PosInf, teacher_forcing_ratio = ratio\<rparr>)"

definition trained :: "env \<Rightarrow> fit_args \<Rightarrow> nat \<Rightarrow> world \<Rightarrow> world" where
  "trained E A epoch w =
     snd (train_loop E A (enumerate 0 (train_dataloader A)) []
            (w\<lparr>trace := trace w @ [Log_Epoch (epoch + 1) (epochs A)]\<rparr>))"

text \<open>
  The mean of validation criterion 0 over the validation loader, for the models as they
  are in the world \<open>w\<close>: the losses that \<^verbatim>\<open>loss_batch\<close> returns for the batches of the
  loader in evaluation mode, summed and divided by the number of batches.
\<close>

definition validation_mean :: "env \<Rightarrow> fit_args \<Rightarrow> world \<Rightarrow> npfloat option" where
  "validation_mean E A w =
     (case validation_criteria A of
        [] \<Rightarrow> None
      | vc # vcs \<Rightarrow>
          (case val_loop E A vc (val_dataloader A) [] w of
             (Inl e, w') \<Rightarrow> None
           | (Inr ls, w') \<Rightarrow>
               Some (np_divide E (np_sum E (concat (map loss_values ls)))
                       (length (val_dataloader A)))))"

text \<open>Auxiliary notions for the proofs about traces.\<close>

fun is_selection_event :: "event \<Rightarrow> bool" where
  "is_selection_event (Log_Losses l vs) = True"
| "is_selection_event (Torch_Save c) = True"
| "is_selection_event _ = False"

definition quiet :: "event list \<Rightarrow> bool" where
  "quiet tr = list_all (\<lambda>e. \<not> is_selection_event e) tr"

definition improves_on :: "npfloat \<Rightarrow> npfloat list \<Rightarrow> nat \<Rightarrow> bool" where
  "improves_on best ms e =
     (np_less (ms ! (e - 1)) best \<and>
      list_all (\<lambda>m. m = NaN \<or> np_less (ms ! (e - 1)) m) (take (e - 1) ms))"

fun saves_from :: "nat \<Rightarrow> npfloat \<Rightarrow> npfloat list \<Rightarrow> nat list" where
  "saves_from n best [] = []"
| "saves_from n best (v # ms) =
     (if np_less v best then Suc n # saves_from (Suc n) v ms
      else saves_from (Suc n) best ms)"

text \<open>
  Runs of \<^verbatim>\<open>fit\<close>: one epoch over ten training batches and one validation batch, with
  the summed absolute error as training and validation criterion and no scheduler.
\<close>

definition example_batch :: "tensor3 \<times> tensor3" where
  "example_batch = ([[[0], [0]]], [[[5], [7]]])"

definition example_args :: fit_args where
  "example_args =
     \<lparr>epochs = 1,
      train_dataloader =
        [example_batch, example_batch, example_batch, example_batch, example_batch,
         example_batch, example_batch, example_batch, example_batch, example_batch],
      val_dataloader = [example_batch],
      training_criterion = l1_sum,
      validation_criteria = [l1_sum],
      schedulers = [],
      use_attention = False,
      norm_quaternions = False,
      schedule_rate = 1\<rparr>"

text \<open>
  An environment in which training changes the validation loss: the decoder adds its
  single parameter to every element of its input, and every optimizer step adds one to
  each parameter and to each entry of the optimizer's state.
\<close>

definition learning_env :: env where
  "learning_env =
     \<lparr>encoder_forward = (\<lambda>p tr x. ([], [])),
      decoder_forward = (\<lambda>p tr i h eo. (map (map (\<lambda>x. x + hd p)) i, h)),
      autograd = (\<lambda>c p d tf. ([], [])),
      optimizer_step = (\<lambda>st p g. (map (\<lambda>x. x + 1) st, map (\<lambda>x. x + 1) p)),
      random_random = (\<lambda>n. 1 / 2),
      np_sum = exact_sum,
      np_divide = exact_divide\<rparr>"

definition learning_world :: world where
  "learning_world =
     \<lparr>encoder = \<lparr>params = [100], training = False\<rparr>,
      decoder = \<lparr>params = [- 12], training = False\<rparr>,
      encoder_opt = [0], decoder_opt = [5], draws = 0, trace = []\<rparr>"

definition short_batch :: "tensor3 \<times> tensor3" where
  "short_batch = ([[[0]]], [[[5]]])"

definition far_batch :: "tensor3 \<times> tensor3" where
  "far_batch = ([[[0]]], [[[7]]])"

definition learning_args :: fit_args where
  "learning_args =
     \<lparr>epochs = 3,
      train_dataloader =
        [short_batch, short_batch, short_batch, short_batch, short_batch,
         short_batch, short_batch, short_batch, short_batch, short_batch],
      val_dataloader = [short_batch, far_batch],
      training_criterion = l1_sum,
      validation_criteria = [l1_sum],
      schedulers = [],
      use_attention = False,
      norm_quaternions = False,
      schedule_rate = 1\<rparr>"

text \<open>
  A criterion that is not defined on negative outputs (as one that takes their logarithm
  or square root) and returns NaN there; elsewhere it is the summed absolute error.
\<close>

definition partial_l1 :: criterion where
  "partial_l1 =
     \<lparr>on_batch = (\<lambda>out t. if list_ex (\<lambda>x. x < 0) (concat (concat out)) then NaN
                          else on_batch l1_sum out t),
      on_sample = (\<lambda>out t. if list_ex (\<lambda>x. x < 0) (concat out) then NaN
                           else on_sample l1_sum out t)\<rparr>"

text \<open>
  Rounding to the nearest multiple of \<open>1 / 2 ^ p\<close>. The float32 values between 1 and 2 are
  the multiples of \<open>1 / 2 ^ 23\<close>, those between 1/2 and 1 the multiples of \<open>1 / 2 ^ 24\<close>.
\<close>

definition rounded_to :: "nat \<Rightarrow> real \<Rightarrow> real" where
  "rounded_to p x = of_int (round (x * 2 ^ p)) / 2 ^ p"

text \<open>A criterion with mean reduction that rounds its result to a multiple of \<open>1 / 2 ^ 23\<close>.\<close>

definition rounded_mean_criterion :: "(real \<Rightarrow> real \<Rightarrow> real) \<Rightarrow> criterion" where
  "rounded_mean_criterion g =
     \<lparr>on_batch = (\<lambda>out t. Finite (rounded_to 23 (mean (map2 g (concat (concat out))
                                                  (concat (concat t)))))),
      on_sample = (\<lambda>out t. Finite (rounded_to 23 (mean (map2 g (concat out) (concat t)))))\<rparr>"

text \<open>
  Lines 92 to 96 with the normaliser as a parameter. Torch computes \<^verbatim>\<open>F.normalize\<close> in the
  floating-point type of the tensor, so what a run applies to each group of four is an
  approximation of \<open>f_normalize\<close>; \<open>norm_quaternions_of\<close> is the instance without rounding.
\<close>

definition norm_quaternions_with :: "(vec \<Rightarrow> vec) \<Rightarrow> mat \<Rightarrow> error + mat" where
  "norm_quaternions_with F_normalize output =
     (let flat = concat output
      in if flat = [] \<or> length flat mod 4 \<noteq> 0 then Inl RuntimeError
         else Inr (view_as output (concat (map F_normalize (quads flat)))))"

text \<open>
  A normaliser in the manner of float32. The sum of the squares overflows to infinity from
  \<open>2 ^ 128\<close> on, and every quotient by an infinite norm is zero; otherwise the norm and
  every quotient are rounded to the nearest multiple of \<open>1 / 2 ^ 24\<close>.
\<close>

definition float_normalize :: "vec \<Rightarrow> vec" where
  "float_normalize v =
     (if 2 ^ 128 \<le> (\<Sum>x\<leftarrow>v. x\<^sup>2) then map (\<lambda>x. 0) v
      else map (\<lambda>x. rounded_to 24 (x / max (rounded_to 24 (l2_norm v)) eps)) v)"

section \<open>Evaluation\<close>

lemmas run_simps =
  loss_batch_def example_env_def example_world_def l1_sum_def timestep_def seq_len_def
  permute102_def ones_like_def zeros_like_def zeros_like3_def assign_timestep_def
  broadcast_to_def expand_def expand_row_def cols_def is_eos_def upt_rec optimize_def

section \<open>The configuration error of loss\_batch\<close>

text \<open>
  C2, as stated, fails: with \<^verbatim>\<open>average_batch=False\<close> and optimizers present the call
  ends in \<^verbatim>\<open>sys.exit()\<close>, but only after the encoder's forward pass: the trace of the call
  holds the encoder call before the warning.
\<close>

theorem per_sample_training_runs_encoder_first:
  "loss_batch example_env ([[[0]]], [[[5]]]) True l1_sum 0 False False False example_world =
     (Inl SystemExit,
      example_world\<lparr>encoder := \<lparr>params = [], training = True\<rparr>,
                    decoder := \<lparr>params = [], training = True\<rparr>,
                    draws := 1, trace := [Encoder_Call, Log_Warning]\<rparr>)"
  by (simp add: run_simps)

text \<open>
  C2, amended: for every batch whose target has at least one timestep, a call of
  \<^verbatim>\<open>loss_batch\<close> with \<^verbatim>\<open>average_batch=False\<close> and optimizers present sets both modules to
  training mode, runs the encoder once, makes the teacher-forcing draw, logs the warning
  and ends in SystemExit: the decoder is never called, no optimizer steps, the parameters
  are unchanged and no loss is returned.
\<close>

theorem per_sample_training_exits_before_decoder:
  assumes "0 < seq_len target_batch"
  shows "loss_batch E (input_batch, target_batch) True crit ratio ua nq False w =
     (Inl SystemExit,
      w\<lparr>encoder := (encoder w)\<lparr>training := True\<rparr>,
        decoder := (decoder w)\<lparr>training := True\<rparr>,
        draws := Suc (draws w), trace := trace w @ [Encoder_Call, Log_Warning]\<rparr>)"
  using assms by (simp add: loss_batch_def timestep_def Let_def split: prod.splits)

theorem per_sample_training_exits_before_decoder_witness:
  "0 < seq_len [[[5]]] \<and>
   loss_batch example_env ([[[0]]], [[[5]]]) True l1_sum 0 False False False example_world =
     (Inl SystemExit,
      example_world\<lparr>encoder := (encoder example_world)\<lparr>training := True\<rparr>,
        decoder := (decoder example_world)\<lparr>training := True\<rparr>,
        draws := Suc (draws example_world),
        trace := trace example_world @ [Encoder_Call, Log_Warning]\<rparr>)"
  using per_sample_training_exits_before_decoder
          [of "[[[5]]]" example_env "[[[0]]]" l1_sum 0 False False example_world]
  by (simp add: seq_len_def)

section \<open>Evaluation mode changes no parameter\<close>

text \<open>
  C10: a call of \<^verbatim>\<open>loss_batch\<close> without optimizers (evaluation mode) leaves the
  parameters of the encoder and of the decoder and the internal state of both optimizers
  as they were, whatever the call returns or raises. (Only the training flags, the
  random draw and the trace change; the parameters change in \<open>optimize\<close> alone, which
  runs only when the optimizers are passed.)
\<close>

theorem loss_batch_eval_keeps_parameters:
  "params (encoder (snd (loss_batch E data False crit ratio ua nq ab w))) = params (encoder w) \<and>
   params (decoder (snd (loss_batch E data False crit ratio ua nq ab w))) = params (decoder w) \<and>
   encoder_opt (snd (loss_batch E data False crit ratio ua nq ab w)) = encoder_opt w \<and>
   decoder_opt (snd (loss_batch E data False crit ratio ua nq ab w)) = decoder_opt w"
  by (simp add: loss_batch_def Let_def split: prod.splits sum.splits option.splits)

section \<open>The bound of the unrolling loop\<close>

text \<open>
  C3: the loop runs over \<^verbatim>\<open>range(input_batch.shape[1])\<close>, the input's length, not the
  target's. With an input of two timesteps and a target of one, the second iteration
  calls the decoder and then raises IndexError at \<^verbatim>\<open>target_batch[:, 1, :]\<close>; with an
  input of one timestep and a target of two, the decoder is called once only and
  timestep 1 of the outputs is never produced.
\<close>

theorem loop_runs_over_input_length:
  "fst (loss_batch example_env ([[[0], [0]]], [[[5]]]) False l1_sum 0 False False True
          example_world) = Inl IndexError \<and>
   trace (snd (loss_batch example_env ([[[0]]], [[[5], [7]]]) False l1_sum 0 False False True
          example_world)) = [Encoder_Call, Decoder_Call [[1]] [[2]]]"
  by (simp add: run_simps)

section \<open>Quaternion normalisation without rounding\<close>

lemma length_normalize [simp]: "length (f_normalize v) = length v"
  by (simp add: f_normalize_def)

lemma l2_norm_scale:
  assumes "0 < c"
  shows "l2_norm (map (\<lambda>x. x / c) v) = l2_norm v / c"
proof -
  have "(\<Sum>x\<leftarrow>v. (x / c)\<^sup>2) = (\<Sum>x\<leftarrow>v. x\<^sup>2) / c\<^sup>2"
    by (induction v) (simp_all add: power_divide add_divide_distrib)
  then show ?thesis
    using assms by (simp add: l2_norm_def comp_def real_sqrt_divide)
qed

lemma eps_pos: "0 < eps" and eps_le_one: "eps \<le> 1"
  by (simp_all add: eps_def)

lemma l2_norm_normalize:
  assumes "eps \<le> l2_norm v"
  shows "l2_norm (f_normalize v) = 1"
proof -
  have pos: "0 < l2_norm v" using assms eps_pos by linarith
  have "max (l2_norm v) eps = l2_norm v" using assms by simp
  then have "f_normalize v = map (\<lambda>x. x / l2_norm v) v" by (simp add: f_normalize_def)
  then show ?thesis using pos by (simp add: l2_norm_scale)
qed

lemma normalize_unit:
  assumes "l2_norm v = 1"
  shows "f_normalize v = v"
proof -
  have "max (l2_norm v) eps = 1" using assms eps_le_one by simp
  then show ?thesis by (simp add: f_normalize_def)
qed

lemma normalize_twice:
  "eps \<le> l2_norm v \<Longrightarrow> f_normalize (f_normalize v) = f_normalize v"
  by (rule normalize_unit) (rule l2_norm_normalize)

lemma quads_lengths: "list_all (\<lambda>q. length q = 4) (quads xs)"
  by (induction xs rule: quads.induct) simp_all

lemma concat_quads: "length xs mod 4 = 0 \<Longrightarrow> concat (quads xs) = xs"
  by (induction xs rule: quads.induct) simp_all

lemma length_four:
  assumes "length q = 4"
  obtains a b c d where "q = [a, b, c, d]"
proof -
  from assms have "length q = Suc (Suc (Suc (Suc 0)))" by simp
  then obtain a b c d where "q = [a, b, c, d]"
    by (auto simp: length_Suc_conv)
  then show thesis by (rule that)
qed

lemma quads_concat: "list_all (\<lambda>q. length q = 4) qs \<Longrightarrow> quads (concat qs) = qs"
proof (induction qs)
  case Nil
  then show ?case by simp
next
  case (Cons q qs)
  from Cons.prems have "length q = 4" by simp
  then obtain a b c d where "q = [a, b, c, d]" by (rule length_four)
  with Cons show ?case by simp
qed

lemma length_concat_normalized:
  "length xs mod 4 = 0 \<Longrightarrow> length (concat (map f_normalize (quads xs))) = length xs"
proof -
  assume a: "length xs mod 4 = 0"
  have "length (concat (map f_normalize (quads xs))) = length (concat (quads xs))"
    by (simp add: length_concat comp_def)
  then show ?thesis using a by (simp add: concat_quads)
qed

lemma concat_view_as:
  "length xs = length (concat m) \<Longrightarrow> concat (view_as m xs) = xs"
  by (induction m arbitrary: xs) (simp_all add: append_take_drop_id)

lemma view_as_lengths:
  "length xs = length (concat m) \<Longrightarrow> map length (view_as m xs) = map length m"
  by (induction m arbitrary: xs) simp_all

lemma view_as_cong:
  "map length m = map length m' \<Longrightarrow> view_as m xs = view_as m' xs"
proof (induction m arbitrary: m' xs)
  case Nil
  then show ?case by simp
next
  case (Cons r m)
  then obtain r' m'' where "m' = r' # m''" by (cases m') auto
  with Cons show ?case by auto
qed


lemma map_normalize_twice:
  "list_all (\<lambda>q. eps \<le> l2_norm q) qs \<Longrightarrow> map f_normalize (map f_normalize qs) = map f_normalize qs"
  by (induction qs) (simp_all add: normalize_twice)

lemma map_normalize_unit:
  "list_all (\<lambda>q. eps \<le> l2_norm q) qs \<Longrightarrow> list_all (\<lambda>q. l2_norm q = 1) (map f_normalize qs)"
  by (induction qs) (simp_all add: l2_norm_normalize)

lemma map_normalize_lengths:
  "list_all (\<lambda>q. length q = 4) qs \<Longrightarrow> list_all (\<lambda>q. length q = 4) (map f_normalize qs)"
  by (induction qs) simp_all

lemma norm_quaternions_of_Inr:
  assumes "norm_quaternions_of output = Inr y"
  shows "concat output \<noteq> []" and "length (concat output) mod 4 = 0"
    and "y = view_as output (concat (map f_normalize (quads (concat output))))"
proof -
  have c: "\<not> (concat output = [] \<or> length (concat output) mod 4 \<noteq> 0)"
  proof
    assume "concat output = [] \<or> length (concat output) mod 4 \<noteq> 0"
    then have "norm_quaternions_of output = Inl RuntimeError"
      unfolding norm_quaternions_of_def Let_def by (rule if_P)
    with assms show False by simp
  qed
  then show "concat output \<noteq> []" and "length (concat output) mod 4 = 0" by simp_all
  from c have "norm_quaternions_of output =
      Inr (view_as output (concat (map f_normalize (quads (concat output)))))"
    unfolding norm_quaternions_of_def Let_def by (rule if_not_P)
  with assms show "y = view_as output (concat (map f_normalize (quads (concat output))))"
    by simp
qed

lemma norm_quaternions_of_ok:
  assumes "concat output \<noteq> []" and "length (concat output) mod 4 = 0"
  shows "norm_quaternions_of output =
           Inr (view_as output (concat (map f_normalize (quads (concat output)))))"
proof -
  from assms have "\<not> (concat output = [] \<or> length (concat output) mod 4 \<noteq> 0)" by simp
  then show ?thesis unfolding norm_quaternions_of_def Let_def by (rule if_not_P)
qed

lemma l2_norm_unit_x: "0 \<le> a \<Longrightarrow> l2_norm [a, 0, 0, 0] = a"
  by (simp add: l2_norm_def)

lemma nq_single:
  "norm_quaternions_of [[a, 0, 0, 0]] = Inr [[a / max (l2_norm [a, 0, 0, 0]) eps, 0, 0, 0]]"
  by (simp add: norm_quaternions_of_def f_normalize_def)

section \<open>The unrolling loop\<close>

subsection \<open>Shapes\<close>

lemma has_shape_nth:
  "has_shape x b T f \<Longrightarrow> j < b \<Longrightarrow> length (x ! j) = T"
  by (auto simp: has_shape_def list_all_length)

lemma has_shape_nth_nth:
  "has_shape x b T f \<Longrightarrow> j < b \<Longrightarrow> t < T \<Longrightarrow> length (x ! j ! t) = f"
  by (auto simp: has_shape_def list_all_length)

lemma has_shape_length: "has_shape x b T f \<Longrightarrow> length x = b"
  by (simp add: has_shape_def)

lemma has_shape_seq_len: "has_shape x b T f \<Longrightarrow> 0 < b \<Longrightarrow> seq_len x = T"
  by (cases x) (auto simp: has_shape_def seq_len_def)

lemma seq_len_pos: "t < seq_len x \<Longrightarrow> x \<noteq> []"
  by (auto simp: seq_len_def)

lemma has_shape_zeros_like3: "has_shape x b T f \<Longrightarrow> has_shape (zeros_like3 x) b T f"
  by (auto simp: has_shape_def zeros_like3_def zeros_like_def list_all_length)

lemma zeros_like3_nth:
  "has_shape x b T f \<Longrightarrow> j < b \<Longrightarrow> t < T \<Longrightarrow> zeros_like3 x ! j ! t = replicate f 0"
  by (auto simp: has_shape_def zeros_like3_def zeros_like_def list_all_length map_replicate_const)

lemma timestep_Inr:
  "timestep x t = Inr m \<longleftrightarrow> t < seq_len x \<and> m = map (\<lambda>s. s ! t) x"
  by (auto simp: timestep_def)

lemma slice_zeros:
  assumes "has_shape x b T f" and "t < T"
  shows "zeros_like (map (\<lambda>s. s ! t) x) = replicate b (replicate f 0)"
proof (rule nth_equalityI)
  show "length (zeros_like (map (\<lambda>s. s ! t) x)) = length (replicate b (replicate f (0::real)))"
    using assms by (simp add: zeros_like_def has_shape_def)
next
  fix j assume "j < length (zeros_like (map (\<lambda>s. s ! t) x))"
  then have j: "j < b" using assms by (simp add: zeros_like_def has_shape_def)
  then have "length (x ! j ! t) = f" using assms by (simp add: has_shape_nth_nth)
  then show "zeros_like (map (\<lambda>s. s ! t) x) ! j = replicate b (replicate f 0) ! j"
    using j assms by (simp add: zeros_like_def has_shape_def map_replicate_const)
qed

subsection \<open>Broadcasting and assignment\<close>

lemma broadcast_to_shape:
  assumes "broadcast_to b f m = Inr v"
  shows "length v = b \<and> list_all (\<lambda>r. length r = f) v"
proof -
  from assms obtain rows where e: "expand b m = Inr rows"
    and ok: "list_all (\<lambda>r. length r = f \<or> length r = 1) rows"
    and v: "v = map (expand_row f) rows"
    by (auto simp: broadcast_to_def split: sum.splits if_splits)
  from e have "length rows = b" by (auto simp: expand_def split: if_splits)
  moreover have "list_all (\<lambda>r. length r = f) (map (expand_row f) rows)"
    by (simp add: list_all_length expand_row_def)
  ultimately show ?thesis using v by simp
qed

lemma broadcast_to_zeros:
  "0 < b \<Longrightarrow> broadcast_to b f (replicate b (replicate f 0)) = Inr (replicate b (replicate f 0))"
  by (simp add: broadcast_to_def expand_def expand_row_def list_all_length)

lemma cols_slice:
  assumes "has_shape x b T f" and "0 < b" and "t < T"
  shows "cols (map (\<lambda>s. s ! t) x) = f"
proof -
  from assms obtain s rest where x: "x = s # rest" by (cases x) (auto simp: has_shape_def)
  with assms have "length (s ! t) = f" using has_shape_nth_nth[of x b T f 0 t] by simp
  with x show ?thesis by (simp add: cols_def)
qed

lemma assign_timestep_Inr:
  assumes sh: "has_shape outs b T f" and r: "assign_timestep outs t output = Inr outs'"
  shows "0 < b \<and> t < T \<and> (\<exists>v. broadcast_to b f output = Inr v \<and>
           outs' = map2 (\<lambda>s r. s[t := r]) outs v)"
proof -
  from r obtain slice where sl: "timestep outs t = Inr slice"
    by (auto simp: assign_timestep_def split: sum.splits)
  then have t: "t < seq_len outs" and slice: "slice = map (\<lambda>s. s ! t) outs"
    by (simp_all add: timestep_Inr)
  from t have "outs \<noteq> []" by (rule seq_len_pos)
  with sh have b: "0 < b" by (auto simp: has_shape_def)
  with sh t have tT: "t < T" by (simp add: has_shape_seq_len)
  have ls: "length slice = b" using slice sh by (simp add: has_shape_def)
  have cs: "cols slice = f" unfolding slice using sh b tT by (rule cols_slice)
  from r sl ls cs obtain v where "broadcast_to b f output = Inr v"
    and "outs' = map2 (\<lambda>s r. s[t := r]) outs v"
    by (auto simp: assign_timestep_def split: sum.splits)
  with b tT show ?thesis by blast
qed

lemma assign_timestep_shape:
  assumes sh: "has_shape outs b T f" and r: "assign_timestep outs t output = Inr outs'"
  shows "has_shape outs' b T f"
proof -
  from assign_timestep_Inr[OF sh r] obtain v where tT: "t < T"
    and bc: "broadcast_to b f output = Inr v"
    and o: "outs' = map2 (\<lambda>s r. s[t := r]) outs v" by blast
  from broadcast_to_shape[OF bc] have lv: "length v = b"
    and rows: "list_all (\<lambda>r. length r = f) v" by simp_all
  show ?thesis
    unfolding has_shape_def o using sh lv rows tT
    by (auto simp: has_shape_def list_all_length nth_list_update)
qed

lemma assign_timestep_other:
  assumes sh: "has_shape outs b T f" and r: "assign_timestep outs t output = Inr outs'"
      and "j < b" and "t' \<noteq> t"
  shows "outs' ! j ! t' = outs ! j ! t'"
proof -
  from assign_timestep_Inr[OF sh r] obtain v where
        bc: "broadcast_to b f output = Inr v"
    and o: "outs' = map2 (\<lambda>s r. s[t := r]) outs v" by blast
  from broadcast_to_shape[OF bc] have lv: "length v = b" by simp
  show ?thesis unfolding o using sh lv assms(3,4) by (simp add: has_shape_def)
qed

lemma assign_timestep_zeros:
  assumes sh: "has_shape outs b T f"
      and r: "assign_timestep outs t (replicate b (replicate f 0)) = Inr outs'"
      and "j < b"
  shows "outs' ! j ! t = replicate f 0"
proof -
  from assign_timestep_Inr[OF sh r] obtain v where b: "0 < b" and tT: "t < T"
    and bc: "broadcast_to b f (replicate b (replicate f 0)) = Inr v"
    and o: "outs' = map2 (\<lambda>s r. s[t := r]) outs v" by blast
  from bc b have v: "v = replicate b (replicate f 0)" by (simp add: broadcast_to_zeros)
  show ?thesis unfolding o v using sh assms(3) tT by (simp add: has_shape_def list_all_length)
qed

lemma cols_replicate: "0 < b \<Longrightarrow> cols (replicate b r) = length r"
  by (cases b) (simp_all add: cols_def)

lemma is_eos_zeros:
  "0 < b \<Longrightarrow> is_eos (replicate b (replicate f 0)) (replicate b (replicate f 0))"
  by (simp add: is_eos_def broadcast_to_zeros cols_replicate list_all_length)


subsection \<open>One iteration of the loop\<close>

lemma decode_loop_step:
  assumes run: "decode_loop dec tgt EOS tf nq (t # ts) s = (r, s')"
      and d: "dec (decoder_input s) (decoder_hidden s) = (out, h)"
  obtains
    (error) e where "r = Some e"
      and "s' = s\<lparr>decoder_hidden := h, calls := calls s @ [(decoder_input s, out)]\<rparr>"
  | (eos) target outv outs where "\<not> tf" and "is_eos out EOS" and "r = None"
      and "timestep tgt t = Inr target"
      and "(if nq then norm_quaternions_of out else Inr out) = Inr outv"
      and "assign_timestep (outputs s) t outv = Inr outs"
      and "s' = s\<lparr>decoder_hidden := h, calls := calls s @ [(decoder_input s, out)],
                   outputs := outs\<rparr>"
  | (continue) target outv outs where "tf \<or> \<not> is_eos out EOS"
      and "timestep tgt t = Inr target"
      and "(if nq then norm_quaternions_of out else Inr out) = Inr outv"
      and "assign_timestep (outputs s) t outv = Inr outs"
      and "decode_loop dec tgt EOS tf nq ts
             (s\<lparr>decoder_hidden := h, calls := calls s @ [(decoder_input s, out)],
                outputs := outs, decoder_input := if tf then target else outv\<rparr>) = (r, s')"
proof (cases "timestep tgt t")
  case (Inl e)
  with run d show ?thesis by (intro error[of e]) (simp_all)
next
  case target: (Inr target)
  show ?thesis
  proof (cases "if nq then norm_quaternions_of out else Inr out")
    case (Inl e)
    with run d target show ?thesis by (intro error[of e]) (simp_all)
  next
    case outv: (Inr outv)
    show ?thesis
    proof (cases "assign_timestep (outputs s) t outv")
      case (Inl e)
      with run d target outv show ?thesis by (intro error[of e]) (simp_all)
    next
      case outs: (Inr outs)
      show ?thesis
      proof (cases "tf \<or> \<not> is_eos out EOS")
        case True
        with run d target outv outs show ?thesis
          by (intro continue[of target outv outs]) (auto simp: Let_def)
      next
        case False
        with run d target outv outs show ?thesis
          by (intro eos[of target outv outs]) (auto simp: Let_def)
      qed
    qed
  qed
qed


subsection \<open>The inputs the loop feeds to the decoder\<close>

lemma teacher_forced_inputs:
  "decode_loop dec tgt EOS True nq ts s = (r, s') \<Longrightarrow>
   \<exists>new. calls s' = calls s @ new \<and> length new \<le> length ts \<and>
     map fst new = take (length new) (decoder_input s # map (\<lambda>t. map (\<lambda>x. x ! t) tgt) ts)"
proof (induction ts arbitrary: s)
  case Nil
  then show ?case by simp
next
  case (Cons t ts)
  obtain out h where d: "dec (decoder_input s) (decoder_hidden s) = (out, h)"
    by (cases "dec (decoder_input s) (decoder_hidden s)")
  from Cons.prems d show ?case
  proof (cases rule: decode_loop_step)
    case (error e)
    then show ?thesis by (intro exI[of _ "[(decoder_input s, out)]"]) simp
  next
    case (eos target outv outs)
    then show ?thesis by simp
  next
    case (continue target outv outs)
    from Cons.IH[OF continue(5)] obtain new where
      c: "calls s' = (calls s @ [(decoder_input s, out)]) @ new"
      and l: "length new \<le> length ts"
      and m: "map fst new = take (length new) (target # map (\<lambda>t. map (\<lambda>x. x ! t) tgt) ts)"
      by auto
    from continue(2) have tg: "target = map (\<lambda>x. x ! t) tgt" by (simp add: timestep_Inr)
    show ?thesis
      using c l m tg by (intro exI[of _ "(decoder_input s, out) # new"]) simp
  qed
qed

lemma self_fed_inputs:
  "decode_loop dec tgt EOS False nq ts s = (r, s') \<Longrightarrow>
   \<exists>new. calls s' = calls s @ new \<and> length new \<le> length ts \<and>
     (new \<noteq> [] \<longrightarrow> fst (hd new) = decoder_input s) \<and>
     (\<forall>k. Suc k < length new \<longrightarrow> fed_back nq (snd (new ! k)) (fst (new ! Suc k)))"
proof (induction ts arbitrary: s)
  case Nil
  then show ?case by simp
next
  case (Cons t ts)
  obtain out h where d: "dec (decoder_input s) (decoder_hidden s) = (out, h)"
    by (cases "dec (decoder_input s) (decoder_hidden s)")
  from Cons.prems d show ?case
  proof (cases rule: decode_loop_step)
    case (error e)
    then show ?thesis by (intro exI[of _ "[(decoder_input s, out)]"]) simp
  next
    case (eos target outv outs)
    then show ?thesis by (intro exI[of _ "[(decoder_input s, out)]"]) simp
  next
    case (continue target outv outs)
    from Cons.IH[OF continue(5)] obtain new where
      c: "calls s' = (calls s @ [(decoder_input s, out)]) @ new"
      and l: "length new \<le> length ts"
      and f: "new \<noteq> [] \<longrightarrow> fst (hd new) = outv"
      and m: "\<forall>k. Suc k < length new \<longrightarrow> fed_back nq (snd (new ! k)) (fst (new ! Suc k))"
      by auto
    have fb: "fed_back nq out outv"
      using continue(3) by (auto simp: fed_back_def split: if_splits)
    have "fed_back nq (snd (((decoder_input s, out) # new) ! k))
            (fst (((decoder_input s, out) # new) ! Suc k))"
      if k: "Suc k < length ((decoder_input s, out) # new)" for k
    proof (cases k)
      case 0
      with k have "new \<noteq> []" by auto
      with f have "fst (new ! 0) = outv" by (simp add: hd_conv_nth)
      with 0 fb show ?thesis by simp
    next
      case (Suc k')
      with k m show ?thesis by simp
    qed
    then show ?thesis
      using c l by (intro exI[of _ "(decoder_input s, out) # new"]) simp
  qed
qed

subsection \<open>The outputs the loop writes\<close>

lemma decode_loop_shape:
  "decode_loop dec tgt EOS tf nq ts s = (r, s') \<Longrightarrow> has_shape (outputs s) b T f \<Longrightarrow>
   has_shape (outputs s') b T f"
proof (induction ts arbitrary: s)
  case Nil
  then show ?case by simp
next
  case (Cons t ts)
  obtain out h where d: "dec (decoder_input s) (decoder_hidden s) = (out, h)"
    by (cases "dec (decoder_input s) (decoder_hidden s)")
  from Cons.prems(1) d show ?case
  proof (cases rule: decode_loop_step)
    case (error e)
    with Cons.prems show ?thesis by simp
  next
    case (eos target outv outs)
    with Cons.prems assign_timestep_shape show ?thesis by simp
  next
    case (continue target outv outs)
    have "has_shape outs b T f"
      using Cons.prems(2) continue(4) by (rule assign_timestep_shape)
    with Cons.IH[OF continue(5)] show ?thesis by simp
  qed
qed

lemma decode_loop_untouched:
  "decode_loop dec tgt EOS tf nq ts s = (r, s') \<Longrightarrow> has_shape (outputs s) b T f \<Longrightarrow>
   j < b \<Longrightarrow> t' \<notin> set ts \<Longrightarrow> outputs s' ! j ! t' = outputs s ! j ! t'"
proof (induction ts arbitrary: s)
  case Nil
  then show ?case by simp
next
  case (Cons t ts)
  obtain out h where d: "dec (decoder_input s) (decoder_hidden s) = (out, h)"
    by (cases "dec (decoder_input s) (decoder_hidden s)")
  from Cons.prems(4) have ne: "t' \<noteq> t" and ni: "t' \<notin> set ts" by auto
  from Cons.prems(1) d show ?case
  proof (cases rule: decode_loop_step)
    case (error e)
    then show ?thesis by simp
  next
    case (eos target outv outs)
    with assign_timestep_other[OF Cons.prems(2) eos(6) Cons.prems(3) ne] show ?thesis by simp
  next
    case (continue target outv outs)
    have sh: "has_shape outs b T f"
      using Cons.prems(2) continue(4) by (rule assign_timestep_shape)
    from Cons.IH[OF continue(5) _ Cons.prems(3) ni] sh
    have "outputs s' ! j ! t' = outs ! j ! t'" by simp
    with assign_timestep_other[OF Cons.prems(2) continue(4) Cons.prems(3) ne]
    show ?thesis by simp
  qed
qed

subsection \<open>The end-of-sequence sentinel\<close>

lemma f_normalize_zeros: "list_all (\<lambda>x. x = 0) q \<Longrightarrow> list_all (\<lambda>x. x = 0) (f_normalize q)"
  by (simp add: f_normalize_def list_all_iff)

lemma quads_zeros:
  "list_all (\<lambda>x. x = (0::real)) xs \<Longrightarrow> list_all (list_all (\<lambda>x. x = 0)) (quads xs)"
  by (induction xs rule: quads.induct) simp_all

lemma normalized_zeros:
  "list_all (\<lambda>x. x = 0) xs \<Longrightarrow> list_all (\<lambda>x. x = 0) (concat (map f_normalize (quads xs)))"
proof -
  have "list_all (\<lambda>x. x = 0) (concat (map f_normalize qs))"
    if "list_all (list_all (\<lambda>x. x = 0)) qs" for qs
    using that by (induction qs) (simp_all add: f_normalize_zeros)
  moreover assume "list_all (\<lambda>x. x = 0) xs"
  ultimately show ?thesis by (simp add: quads_zeros)
qed

lemma all_zero_replicate: "list_all (\<lambda>x. x = z) xs \<Longrightarrow> xs = replicate (length xs) z"
  by (induction xs) simp_all

lemma concat_replicate_replicate:
  "concat (replicate b (replicate f z)) = replicate (b * f) z"
  by (induction b) (simp_all add: replicate_add)

lemma view_as_replicate:
  "view_as (replicate b (replicate f z)) (replicate (b * f) y) = replicate b (replicate f y)"
  by (induction b) (simp_all add: min_def)

lemma norm_quaternions_of_zeros:
  assumes "norm_quaternions_of (replicate b (replicate f 0)) = Inr y"
  shows "y = replicate b (replicate f 0)"
proof -
  let ?Z = "replicate b (replicate f (0::real))"
  let ?N = "concat (map f_normalize (quads (concat ?Z)))"
  from norm_quaternions_of_Inr[OF assms]
  have m4: "length (concat ?Z) mod 4 = 0" and y: "y = view_as ?Z ?N" by simp_all
  have "list_all (\<lambda>x. x = 0) (concat ?Z)"
    by (simp add: concat_replicate_replicate list_all_iff)
  then have "list_all (\<lambda>x. x = 0) ?N" by (rule normalized_zeros)
  then have "?N = replicate (length ?N) 0" by (rule all_zero_replicate)
  moreover have "length ?N = b * f"
    using length_concat_normalized[OF m4] by (simp add: concat_replicate_replicate)
  ultimately have "?N = replicate (b * f) 0" by simp
  with y show ?thesis by (simp add: view_as_replicate)
qed

lemma eos_ends_loop:
  assumes "decode_loop dec tgt (replicate b (replicate f 0)) False nq ts s = (r, s')"
      and "has_shape (outputs s) b T f" and "distinct ts"
      and "\<forall>j<b. \<forall>t\<in>set ts. t < T \<longrightarrow> outputs s ! j ! t = replicate f 0"
      and "calls s' = calls s @ new" and "k < length new"
      and "snd (new ! k) = replicate b (replicate f 0)"
  shows "length new = Suc k \<and>
         (\<forall>j<b. \<forall>t\<in>set (drop k ts). t < T \<longrightarrow> outputs s' ! j ! t = replicate f 0)"
  using assms
proof (induction ts arbitrary: s k new)
  case Nil
  then show ?case by simp
next
  case (Cons t ts)
  let ?Z = "replicate b (replicate f (0::real))"
  obtain out h where d: "dec (decoder_input s) (decoder_hidden s) = (out, h)"
    by (cases "dec (decoder_input s) (decoder_hidden s)")
  from Cons.prems(1) d show ?case
  proof (cases rule: decode_loop_step)
    case (error e)
    with Cons.prems(5) have new: "new = [(decoder_input s, out)]" by simp
    with Cons.prems(6) have "k = 0" by simp
    with new error Cons.prems(4) show ?thesis by simp
  next
    case (eos target outv outs)
    with Cons.prems(5) have new: "new = [(decoder_input s, out)]" by simp
    with Cons.prems(6) have k: "k = 0" by simp
    with new Cons.prems(7) have out: "out = ?Z" by simp
    from eos(5) out have outv: "outv = ?Z"
      by (auto split: if_splits dest: norm_quaternions_of_zeros)
    have "outs ! j ! t' = replicate f 0" if j: "j < b" and t': "t' \<in> set (t # ts)" "t' < T"
      for j t'
    proof (cases "t' = t")
      case True
      with assign_timestep_zeros[OF Cons.prems(2) eos(6)[unfolded outv] j] show ?thesis by simp
    next
      case False
      with assign_timestep_other[OF Cons.prems(2) eos(6) j False] Cons.prems(4) j t'
      show ?thesis by simp
    qed
    with new k eos(7) show ?thesis by simp
  next
    case (continue target outv outs)
    from self_fed_inputs[OF continue(5)] obtain new' where
      c: "calls s' = (calls s @ [(decoder_input s, out)]) @ new'" by auto
    with Cons.prems(5) have new: "new = (decoder_input s, out) # new'" by simp
    from assign_timestep_Inr[OF Cons.prems(2) continue(4)] have b: "0 < b" by simp
    show ?thesis
    proof (cases k)
      case 0
      with new Cons.prems(7) have "out = ?Z" by simp
      with is_eos_zeros[OF b] continue(1) show ?thesis by simp
    next
      case (Suc k')
      have sh: "has_shape outs b T f"
        using Cons.prems(2) continue(4) by (rule assign_timestep_shape)
      from Cons.prems(3) have dist: "distinct ts" and nt: "t \<notin> set ts" by simp_all
      have z: "\<forall>j<b. \<forall>t'\<in>set ts. t' < T \<longrightarrow> outs ! j ! t' = replicate f 0"
      proof (intro allI impI ballI)
        fix j t' assume j: "j < b" and t': "t' \<in> set ts" "t' < T"
        with nt have "t' \<noteq> t" by auto
        from assign_timestep_other[OF Cons.prems(2) continue(4) j this] Cons.prems(4) j t'
        show "outs ! j ! t' = replicate f 0" by simp
      qed
      from Suc new Cons.prems(6,7) have k': "k' < length new'"
        and e: "snd (new' ! k') = ?Z" by simp_all
      have "length new' = Suc k' \<and>
            (\<forall>j<b. \<forall>t\<in>set (drop k' ts). t < T \<longrightarrow> outputs s' ! j ! t = replicate f 0)"
        by (rule Cons.IH[OF continue(5) _ dist _ _ k' e]) (use sh z c in simp_all)
      with Suc new show ?thesis by simp
    qed
  qed
qed

text \<open>
  C4: in a run of the unrolling loop without teacher forcing, on a rectangular target and
  from the state \<^verbatim>\<open>loss_batch\<close> starts it in, if the decoder's output at timestep \<open>k\<close> is
  the all-zero sentinel, then the decoder call at \<open>k\<close> is the last one (the loop ends
  there), and the outputs at every timestep from \<open>k\<close> on are zero for every sample.
\<close>

theorem eos_stops_unrolling:
  assumes sh: "has_shape target_batch b T f"
      and first: "timestep target_batch 0 = Inr first"
      and run: "decode_loop dec target_batch (zeros_like first) False nq [0..<n]
                  \<lparr>decoder_input = ones_like first, decoder_hidden = h0,
                   outputs = zeros_like3 target_batch, calls = []\<rparr> = (r, s)"
      and k: "k < length (calls s)"
      and eos: "snd (calls s ! k) = zeros_like first"
  shows "length (calls s) = Suc k \<and>
         (\<forall>j<b. \<forall>t. k \<le> t \<and> t < T \<longrightarrow> outputs s ! j ! t = replicate f 0)"
proof -
  let ?s0 = "\<lparr>decoder_input = ones_like first, decoder_hidden = h0,
               outputs = zeros_like3 target_batch, calls = []\<rparr>"
  from first have t0: "0 < seq_len target_batch" and f: "first = map (\<lambda>x. x ! 0) target_batch"
    by (simp_all add: timestep_Inr)
  from t0 have "target_batch \<noteq> []" by (rule seq_len_pos)
  with sh have b: "0 < b" by (auto simp: has_shape_def)
  with sh t0 have T: "0 < T" by (simp add: has_shape_seq_len)
  have Z: "zeros_like first = replicate b (replicate f 0)"
    unfolding f using sh T by (rule slice_zeros)
  have sh0: "has_shape (outputs ?s0) b T f" using sh by (simp add: has_shape_zeros_like3)
  have z0: "\<forall>j<b. \<forall>t\<in>set [0..<n]. t < T \<longrightarrow> outputs ?s0 ! j ! t = replicate f 0"
    using sh by (simp add: zeros_like3_nth)
  have main: "length (calls s) = Suc k \<and>
        (\<forall>j<b. \<forall>t\<in>set (drop k [0..<n]). t < T \<longrightarrow> outputs s ! j ! t = replicate f 0)"
    by (rule eos_ends_loop[OF run[unfolded Z] sh0 _ z0 _ k eos[unfolded Z]]) simp_all
  have "outputs s ! j ! t = replicate f 0" if j: "j < b" and t: "k \<le> t" "t < T" for j t
  proof (cases "t < n")
    case True
    with t have "t \<in> set (drop k [0..<n])" by (simp add: drop_upt)
    with main j t show ?thesis by blast
  next
    case False
    then have "t \<notin> set [0..<n]" by simp
    from decode_loop_untouched[OF run sh0 j this] sh j t show ?thesis
      by (simp add: zeros_like3_nth)
  qed
  with main show ?thesis by blast
qed

theorem eos_stops_unrolling_witness:
  "has_shape [[[5], [7], [9]]] 1 3 1 \<and>
   timestep [[[5], [7], [9]]] 0 = Inr [[5]] \<and>
   decode_loop (\<lambda>i h. (if i = [[1]] then [[4]] else [[0]], h)) [[[5], [7], [9]]]
     (zeros_like [[5]]) False False [0..<3]
     \<lparr>decoder_input = ones_like [[5]], decoder_hidden = [],
      outputs = zeros_like3 [[[5], [7], [9]]], calls = []\<rparr>
     = (None, \<lparr>decoder_input = [[4]], decoder_hidden = [],
               outputs = [[[4], [0], [0]]], calls = [([[1]], [[4]]), ([[4]], [[0]])]\<rparr>) \<and>
   length [([[1]], [[4]]), ([[4::real]], [[0::real]])] = Suc 1 \<and>
   [[[4::real], [0], [0]]] ! 0 ! 2 = replicate 1 0"
proof -
  let ?s = "\<lparr>decoder_input = [[4]], decoder_hidden = [],
               outputs = [[[4], [0], [0]]], calls = [([[1]], [[4]]), ([[4::real]], [[0::real]])]\<rparr>"
  have h1: "has_shape [[[5], [7], [9]]] 1 3 1" by (simp add: has_shape_def)
  have h2: "timestep [[[5], [7], [9]]] 0 = Inr [[5]]" by (simp add: timestep_def seq_len_def)
  have h3: "decode_loop (\<lambda>i h. (if i = [[1]] then [[4]] else [[0]], h)) [[[5], [7], [9]]]
     (zeros_like [[5]]) False False [0..<3]
     \<lparr>decoder_input = ones_like [[5]], decoder_hidden = [],
      outputs = zeros_like3 [[[5], [7], [9]]], calls = []\<rparr> = (None, ?s)"
    by (simp add: run_simps)
  have h4: "1 < length (calls ?s)" by simp
  have h5: "snd (calls ?s ! 1) = zeros_like [[5]]" by (simp add: zeros_like_def)
  from eos_stops_unrolling[OF h1 h2 h3 h4 h5]
  have "length (calls ?s) = Suc 1 \<and> outputs ?s ! 0 ! 2 = replicate 1 0" by simp
  with h1 h2 h3 show ?thesis by simp
qed

subsection \<open>What a call of loss\_batch does\<close>

lemma decoder_calls_map [simp]:
  "decoder_calls (map (\<lambda>(i, out). Decoder_Call i out) cs) = cs"
  by (induction cs) auto

lemma optimize_frame [simp]:
  "trace (optimize E crit data tf w) = trace w" "draws (optimize E crit data tf w) = draws w"
  by (simp_all add: optimize_def Let_def split: prod.splits)

lemma loss_batch_exit:
  assumes "timestep target_batch 0 = Inr first" and "\<not> ab" and "opts"
      and "loss_batch E (input_batch, target_batch) opts crit ratio ua nq ab w = (res, w')"
  shows "draws w' = Suc (draws w) \<and> trace w' = trace w @ [Encoder_Call, Log_Warning]"
  using assms by (auto simp: loss_batch_def Let_def split: prod.splits)

lemma loss_batch_run:
  assumes first: "timestep target_batch 0 = Inr first" and ok: "ab \<or> \<not> opts"
      and run: "loss_batch E (input_batch, target_batch) opts crit ratio ua nq ab w = (res, w')"
  obtains eo eh r s where
    "encoder_forward E (params (encoder w)) opts (permute102 input_batch) = (eo, eh)"
    and "decode_loop
           (\<lambda>i h. decoder_forward E (params (decoder w)) opts i h (if ua then Some eo else None))
           target_batch (zeros_like first) (random_random E (draws w) < ratio) nq
           [0..<seq_len input_batch]
           \<lparr>decoder_input = ones_like first, decoder_hidden = eh,
            outputs = zeros_like3 target_batch, calls = []\<rparr> = (r, s)"
    and "draws w' = Suc (draws w)"
    and "trace w' = trace w @ Encoder_Call # map (\<lambda>(i, out). Decoder_Call i out) (calls s)"
    and "res = (case r of
                  Some e \<Rightarrow> Inl e
                | None \<Rightarrow>
                    Inr (if ab then Scalar (on_batch crit (outputs s) target_batch)
                         else PerSample
                                (map (\<lambda>b. on_sample crit (outputs s ! b) (target_batch ! b))
                                   [0..<length (outputs s)])))"
proof -
  obtain eo eh where e: "encoder_forward E (params (encoder w)) opts (permute102 input_batch) = (eo, eh)"
    by (cases "encoder_forward E (params (encoder w)) opts (permute102 input_batch)")
  obtain r s where l: "decode_loop
           (\<lambda>i h. decoder_forward E (params (decoder w)) opts i h (if ua then Some eo else None))
           target_batch (zeros_like first) (random_random E (draws w) < ratio) nq
           [0..<seq_len input_batch]
           \<lparr>decoder_input = ones_like first, decoder_hidden = eh,
            outputs = zeros_like3 target_batch, calls = []\<rparr> = (r, s)"
    by (cases "decode_loop
           (\<lambda>i h. decoder_forward E (params (decoder w)) opts i h (if ua then Some eo else None))
           target_batch (zeros_like first) (random_random E (draws w) < ratio) nq
           [0..<seq_len input_batch]
           \<lparr>decoder_input = ones_like first, decoder_hidden = eh,
            outputs = zeros_like3 target_batch, calls = []\<rparr>")
  from run first ok e l have
    "draws w' = Suc (draws w)"
    "trace w' = trace w @ Encoder_Call # map (\<lambda>(i, out). Decoder_Call i out) (calls s)"
    "res = (case r of
                  Some e \<Rightarrow> Inl e
                | None \<Rightarrow>
                    Inr (if ab then Scalar (on_batch crit (outputs s) target_batch)
                         else PerSample
                                (map (\<lambda>b. on_sample crit (outputs s ! b) (target_batch ! b))
                                   [0..<length (outputs s)])))"
    by (auto simp: loss_batch_def Let_def split: option.splits if_splits)
  with e l show thesis by (rule that)
qed

section \<open>The teacher-forcing ratio of fit\<close>

lemmas fit_simps =
  fit_def epoch_body_def example_args_def example_batch_def enumerate_eq_zip
  step_schedulers_def save_checkpoint_def np_mean_def loss_values_def exact_sum_def

text \<open>
  \<^verbatim>\<open>fit\<close> keeps and decays \<^verbatim>\<open>teacher_forcing_ratio\<close>, but no call of \<^verbatim>\<open>loss_batch\<close>
  receives it: the run, but for the final value of the variable itself, is the same for
  every ratio.
\<close>

lemma epoch_body_ignores_ratio:
  assumes "world_of st' = world_of st" and "min_val_loss st' = min_val_loss st"
  shows "fst (epoch_body E A epoch st') = fst (epoch_body E A epoch st) \<and>
         world_of (snd (epoch_body E A epoch st')) = world_of (snd (epoch_body E A epoch st)) \<and>
         min_val_loss (snd (epoch_body E A epoch st')) =
           min_val_loss (snd (epoch_body E A epoch st))"
  using assms
  by (auto simp: epoch_body_def Let_def split: prod.splits sum.splits list.splits)

lemma fit_loop_ignores_ratio:
  "world_of st' = world_of st \<Longrightarrow> min_val_loss st' = min_val_loss st \<Longrightarrow>
   fst (fit_loop E A es st') = fst (fit_loop E A es st) \<and>
   world_of (snd (fit_loop E A es st')) = world_of (snd (fit_loop E A es st)) \<and>
   min_val_loss (snd (fit_loop E A es st')) = min_val_loss (snd (fit_loop E A es st))"
proof (induction es arbitrary: st st')
  case Nil
  then show ?case by simp
next
  case (Cons epoch es)
  obtain x st1 where a: "epoch_body E A epoch st = (x, st1)"
    by (cases "epoch_body E A epoch st")
  obtain x' st1' where b: "epoch_body E A epoch st' = (x', st1')"
    by (cases "epoch_body E A epoch st'")
  from epoch_body_ignores_ratio[OF Cons.prems, of E A epoch] a b
  have eq: "x' = x" "world_of st1' = world_of st1" "min_val_loss st1' = min_val_loss st1"
    by simp_all
  show ?case
  proof (cases x)
    case None
    with a b eq Cons.IH[OF eq(2,3)] show ?thesis by simp
  next
    case (Some e)
    with a b eq show ?thesis by simp
  qed
qed

lemma fit_ignores_teacher_forcing_ratio:
  "fst (fit E A r w) = fst (fit E A r' w) \<and>
   world_of (snd (fit E A r w)) = world_of (snd (fit E A r' w)) \<and>
   min_val_loss (snd (fit E A r w)) = min_val_loss (snd (fit E A r' w))"
  unfolding fit_def by (rule fit_loop_ignores_ratio) simp_all

text \<open>
  C1: with \<^verbatim>\<open>teacher_forcing_ratio = 1.0\<close>, \<^verbatim>\<open>schedule_rate = 1.0\<close> and draws of one half
  (below the ratio at every epoch), every training batch should run with teacher
  forcing, the decoder input at timestep 1 being the target \<open>[[5]]\<close> of timestep 0. In the
  run of \<^verbatim>\<open>fit\<close> every call of \<^verbatim>\<open>loss_batch\<close> uses its default ratio 0.0 instead: the
  decoder input at timestep 1 is the decoder's own output \<open>[[2]]\<close> in all ten training
  batches (and in the validation batch).
\<close>

theorem fit_never_forces_the_teacher:
  "fst (fit example_env example_args 1 example_world) = None \<and>
   random_random example_env 0 < 1 \<and>
   timestep (snd example_batch) 0 = Inr [[5]] \<and>
   map fst (decoder_calls
     (trace (world_of (snd (fit example_env example_args 1 example_world))))) =
     [[[1]], [[2]], [[1]], [[2]], [[1]], [[2]], [[1]], [[2]], [[1]], [[2]], [[1]], [[2]],
      [[1]], [[2]], [[1]], [[2]], [[1]], [[2]], [[1]], [[2]], [[1]], [[2]]]"
  by (simp add: fit_simps run_simps)

section \<open>Training loaders with fewer than ten batches\<close>

text \<open>
  C9, as stated, fails for the loader with no batch at all: the training loop has no
  iteration, so the modulus by zero is never computed, and the epoch runs to its end
  (validation, logging and checkpoint).
\<close>

theorem empty_loader_completes_epoch:
  "length (train_dataloader (example_args\<lparr>train_dataloader := []\<rparr>)) < 10 \<and>
   fst (fit example_env (example_args\<lparr>train_dataloader := []\<rparr>) 0 example_world) = None \<and>
   logged_means (trace (world_of (snd
     (fit example_env (example_args\<lparr>train_dataloader := []\<rparr>) 0 example_world)))) = [Finite 7]"
  by (simp add: fit_simps run_simps)

text \<open>
  C9, amended: for every run of at least one epoch over a training loader with at least
  one and fewer than ten batches, if \<^verbatim>\<open>loss_batch\<close> returns a loss on the first training
  batch of epoch 1, then \<^verbatim>\<open>fit\<close> raises ZeroDivisionError right after that call (the
  modulus by \<^verbatim>\<open>len(train_dataloader) // 10 = 0\<close>): no second batch is trained, no
  validation runs, nothing is logged or saved for the epoch, and the run ends.
\<close>

theorem short_loader_divides_by_zero:
  assumes e: "0 < epochs A"
      and n: "train_dataloader A = data # rest" "length (train_dataloader A) < 10"
      and first: "loss_batch E data True (training_criterion A) 0 (use_attention A)
                    (norm_quaternions A) True
                    (w\<lparr>trace := trace w @ [Log_Epoch 1 (epochs A)]\<rparr>) = (Inr l, w1)"
  shows "fit E A ratio w =
           (Some ZeroDivisionError,
            \<lparr>world_of = w1, min_val_loss = PosInf, teacher_forcing_ratio = ratio\<rparr>)"
proof -
  from e have ep: "[0..<epochs A] = 0 # [1..<epochs A]" by (simp add: upt_conv_Cons)
  from n have en: "enumerate 0 (train_dataloader A) = (0, data) # enumerate 1 rest" by simp
  from n have d: "length (train_dataloader A) div 10 = 0" by simp
  have "train_loop E A (enumerate 0 (train_dataloader A)) []
          (w\<lparr>trace := trace w @ [Log_Epoch 1 (epochs A)]\<rparr>) = (Inl ZeroDivisionError, w1)"
    unfolding en using first d by simp
  then have "epoch_body E A 0 \<lparr>world_of = w, min_val_loss = PosInf,
               teacher_forcing_ratio = ratio\<rparr> =
             (Some ZeroDivisionError,
              \<lparr>world_of = w1, min_val_loss = PosInf, teacher_forcing_ratio = ratio\<rparr>)"
    by (simp add: epoch_body_def)
  then show ?thesis by (simp add: fit_def ep)
qed

theorem short_loader_divides_by_zero_witness:
  "0 < epochs (example_args\<lparr>train_dataloader := [example_batch]\<rparr>) \<and>
   train_dataloader (example_args\<lparr>train_dataloader := [example_batch]\<rparr>) = example_batch # [] \<and>
   length (train_dataloader (example_args\<lparr>train_dataloader := [example_batch]\<rparr>)) < 10 \<and>
   fst (loss_batch example_env example_batch True l1_sum 0 False False True
     (example_world\<lparr>trace := trace example_world @ [Log_Epoch 1 1]\<rparr>)) = Inr (Scalar (Finite 7)) \<and>
   fst (fit example_env (example_args\<lparr>train_dataloader := [example_batch]\<rparr>) 1 example_world) =
     Some ZeroDivisionError \<and>
   logged_means (trace (world_of (snd
     (fit example_env (example_args\<lparr>train_dataloader := [example_batch]\<rparr>) 1 example_world)))) = []"
proof -
  let ?A = "example_args\<lparr>train_dataloader := [example_batch]\<rparr>"
  let ?w1 = "example_world\<lparr>encoder := \<lparr>params = [], training = True\<rparr>,
               decoder := \<lparr>params = [], training = True\<rparr>, draws := 1,
               trace := [Log_Epoch 1 1, Encoder_Call, Decoder_Call [[1]] [[2]],
                         Decoder_Call [[2]] [[3]]]\<rparr>"
  have h1: "0 < epochs ?A" by (simp add: example_args_def)
  have h2: "train_dataloader ?A = example_batch # []" by simp
  have h3: "length (train_dataloader ?A) < 10" by simp
  have h4: "loss_batch example_env example_batch True (training_criterion ?A) 0 (use_attention ?A)
              (norm_quaternions ?A) True
              (example_world\<lparr>trace := trace example_world @ [Log_Epoch 1 (epochs ?A)]\<rparr>) =
            (Inr (Scalar (Finite 7)), ?w1)"
    by (simp add: run_simps example_args_def example_batch_def)
  from short_loader_divides_by_zero[OF h1 h2 h3 h4, of 1]
  have r: "fit example_env ?A 1 example_world =
             (Some ZeroDivisionError,
              \<lparr>world_of = ?w1, min_val_loss = PosInf, teacher_forcing_ratio = 1\<rparr>)" .
  from h4 have h4': "fst (loss_batch example_env example_batch True l1_sum 0 False False True
     (example_world\<lparr>trace := trace example_world @ [Log_Epoch 1 1]\<rparr>)) = Inr (Scalar (Finite 7))"
    by (simp add: example_args_def)
  from h1 h2 h3 h4' r show ?thesis by simp
qed


section \<open>Teacher forcing\<close>

text \<open>
  C7, as stated, fails at timestep 0: with ratio 1.0 the first decoder input is the
  all-ones start vector, not a target timestep, and the input at timestep 1 is the target
  of timestep 0, not of timestep 1.
\<close>

theorem teacher_forcing_starts_from_ones:
  "decoder_calls (trace (snd (loss_batch example_env ([[[0], [0]]], [[[5], [7]]]) False l1_sum 1
      False False True example_world))) = [([[1]], [[2]]), ([[5]], [[6]])] \<and>
   timestep [[[5], [7]]] 0 = Inr [[5]] \<and> [[1]] \<noteq> [[5::real]] \<and>
   timestep [[[5], [7]]] 1 = Inr [[7]] \<and> [[5]] \<noteq> [[7::real]]"
  by (simp add: run_simps)

text \<open>
  C7, amended: for every batch whose target has at least one timestep, a call of
  \<^verbatim>\<open>loss_batch\<close> makes exactly one draw of \<^verbatim>\<open>random.random()\<close> (a value in \<open>[0, 1)\<close>),
  and that draw fixes the mode of the whole sequence, for every ratio. If the draw is
  below the ratio, every decoder call of the batch is teacher-forced: the decoder input
  is the all-ones start vector at timestep 0 and the target of timestep \<open>k - 1\<close> at every
  timestep \<open>k > 0\<close>, whatever the decoder returns. If it is not, every decoder call is
  self-fed: the decoder input is the all-ones start vector at timestep 0 and, at every
  timestep \<open>k + 1\<close>, the output of timestep \<open>k\<close> as the loop fed it back (normalised when
  \<^verbatim>\<open>norm_quaternions\<close> is set), never the target. With ratio exactly 1.0 the batch is
  always teacher-forced, with ratio exactly 0.0 always self-fed.
\<close>

theorem teacher_forcing_one_draw:
  assumes first: "timestep target_batch 0 = Inr first"
      and rnd: "0 \<le> random_random E (draws w)" "random_random E (draws w) < 1"
      and run: "loss_batch E (input_batch, target_batch) opts crit ratio ua nq ab w = (res, w')"
      and cs: "cs = decoder_calls (drop (length (trace w)) (trace w'))"
  shows "draws w' = Suc (draws w) \<and>
         (random_random E (draws w) < ratio \<longrightarrow>
            (\<forall>k<length cs. fst (cs ! k) =
               (if k = 0 then ones_like first else map (\<lambda>x. x ! (k - 1)) target_batch))) \<and>
         (\<not> random_random E (draws w) < ratio \<longrightarrow>
            (cs \<noteq> [] \<longrightarrow> fst (cs ! 0) = ones_like first) \<and>
            (\<forall>k. Suc k < length cs \<longrightarrow> fed_back nq (snd (cs ! k)) (fst (cs ! Suc k)))) \<and>
         (ratio = 1 \<longrightarrow>
            (\<forall>k<length cs. fst (cs ! k) =
               (if k = 0 then ones_like first else map (\<lambda>x. x ! (k - 1)) target_batch))) \<and>
         (ratio = 0 \<longrightarrow>
            (cs \<noteq> [] \<longrightarrow> fst (cs ! 0) = ones_like first) \<and>
            (\<forall>k. Suc k < length cs \<longrightarrow> fed_back nq (snd (cs ! k)) (fst (cs ! Suc k))))"
proof (cases "ab \<or> \<not> opts")
  case False
  with loss_batch_exit[OF first _ _ run] cs show ?thesis by simp
next
  case True
  from first True run obtain eo eh r s where
    loop: "decode_loop
           (\<lambda>i h. decoder_forward E (params (decoder w)) opts i h (if ua then Some eo else None))
           target_batch (zeros_like first) (random_random E (draws w) < ratio) nq
           [0..<seq_len input_batch]
           \<lparr>decoder_input = ones_like first, decoder_hidden = eh,
            outputs = zeros_like3 target_batch, calls = []\<rparr> = (r, s)"
    and dr: "draws w' = Suc (draws w)"
    and tr: "trace w' = trace w @ Encoder_Call # map (\<lambda>(i, out). Decoder_Call i out) (calls s)"
    by (rule loss_batch_run)
  from tr cs have cs': "cs = calls s" by simp
  have forced: "fst (cs ! k) =
      (if k = 0 then ones_like first else map (\<lambda>x. x ! (k - 1)) target_batch)"
    if below: "random_random E (draws w) < ratio" and k: "k < length cs" for k
  proof -
    from below loop have "decode_loop
           (\<lambda>i h. decoder_forward E (params (decoder w)) opts i h (if ua then Some eo else None))
           target_batch (zeros_like first) True nq [0..<seq_len input_batch]
           \<lparr>decoder_input = ones_like first, decoder_hidden = eh,
            outputs = zeros_like3 target_batch, calls = []\<rparr> = (r, s)" by simp
    from teacher_forced_inputs[OF this] cs'
    have len: "length cs \<le> seq_len input_batch"
      and m: "map fst cs = take (length cs)
               (ones_like first # map (\<lambda>t. map (\<lambda>x. x ! t) target_batch) [0..<seq_len input_batch])"
      by simp_all
    from k have "fst (cs ! k) = map fst cs ! k" by simp
    also from k have "\<dots> =
        (ones_like first # map (\<lambda>t. map (\<lambda>x. x ! t) target_batch) [0..<seq_len input_batch]) ! k"
      by (subst m) simp
    also from k len have "\<dots> =
        (if k = 0 then ones_like first else map (\<lambda>x. x ! (k - 1)) target_batch)"
      by (cases k) simp_all
    finally show ?thesis .
  qed
  have self: "(cs \<noteq> [] \<longrightarrow> fst (cs ! 0) = ones_like first) \<and>
            (\<forall>k. Suc k < length cs \<longrightarrow> fed_back nq (snd (cs ! k)) (fst (cs ! Suc k)))"
    if above: "\<not> random_random E (draws w) < ratio"
  proof -
    from above loop have "decode_loop
           (\<lambda>i h. decoder_forward E (params (decoder w)) opts i h (if ua then Some eo else None))
           target_batch (zeros_like first) False nq [0..<seq_len input_batch]
           \<lparr>decoder_input = ones_like first, decoder_hidden = eh,
            outputs = zeros_like3 target_batch, calls = []\<rparr> = (r, s)" by simp
    from self_fed_inputs[OF this] cs' show ?thesis by (simp add: hd_conv_nth)
  qed
  have one: "random_random E (draws w) < ratio" if "ratio = 1"
    using that rnd by simp
  have zero: "\<not> random_random E (draws w) < ratio" if "ratio = 0"
    using that rnd by simp
  from dr forced self one zero show ?thesis by blast
qed

theorem teacher_forcing_one_draw_witness:
  "timestep [[[5], [7]]] 0 = Inr [[5]] \<and>
   0 \<le> random_random example_env (draws example_world) \<and>
   random_random example_env (draws example_world) < 1 \<and>
   random_random example_env (draws example_world) < 3 / 4 \<and>
   \<not> random_random example_env (draws example_world) < 1 / 4 \<and>
   loss_batch example_env ([[[0], [0]]], [[[5], [7]]]) False l1_sum 1 False False True example_world =
     (Inr (Scalar (Finite 4)),
      example_world\<lparr>draws := 1,
        trace := [Encoder_Call, Decoder_Call [[1]] [[2]], Decoder_Call [[5]] [[6]]]\<rparr>) \<and>
   loss_batch example_env ([[[0], [0]]], [[[5], [7]]]) False l1_sum (3 / 4) False False True
     example_world =
     (Inr (Scalar (Finite 4)),
      example_world\<lparr>draws := 1,
        trace := [Encoder_Call, Decoder_Call [[1]] [[2]], Decoder_Call [[5]] [[6]]]\<rparr>) \<and>
   fst ([([[1]], [[2]]), ([[5::real]], [[6::real]])] ! 1) = map (\<lambda>x. x ! (1 - 1)) [[[5], [7]]] \<and>
   loss_batch example_env ([[[0], [0]]], [[[5], [7]]]) False l1_sum 0 False False True example_world =
     (Inr (Scalar (Finite 7)),
      example_world\<lparr>draws := 1,
        trace := [Encoder_Call, Decoder_Call [[1]] [[2]], Decoder_Call [[2]] [[3]]]\<rparr>) \<and>
   loss_batch example_env ([[[0], [0]]], [[[5], [7]]]) False l1_sum (1 / 4) False False True
     example_world =
     (Inr (Scalar (Finite 7)),
      example_world\<lparr>draws := 1,
        trace := [Encoder_Call, Decoder_Call [[1]] [[2]], Decoder_Call [[2]] [[3]]]\<rparr>) \<and>
   fed_back False (snd ([([[1]], [[2]]), ([[2::real]], [[3::real]])] ! 0))
     (fst ([([[1]], [[2]]), ([[2::real]], [[3::real]])] ! Suc 0))"
proof -
  let ?w1 = "example_world\<lparr>draws := 1,
        trace := [Encoder_Call, Decoder_Call [[1]] [[2]], Decoder_Call [[5]] [[6]]]\<rparr>"
  let ?w0 = "example_world\<lparr>draws := 1,
        trace := [Encoder_Call, Decoder_Call [[1]] [[2]], Decoder_Call [[2]] [[3]]]\<rparr>"
  have h1: "timestep [[[5], [7]]] 0 = Inr [[5]]" by (simp add: timestep_def seq_len_def)
  have h2: "0 \<le> random_random example_env (draws example_world)"
    and h3: "random_random example_env (draws example_world) < 1"
    and below: "random_random example_env (draws example_world) < 3 / 4"
    and above: "\<not> random_random example_env (draws example_world) < 1 / 4"
    by (simp_all add: example_env_def)
  have r1: "loss_batch example_env ([[[0], [0]]], [[[5], [7]]]) False l1_sum 1 False False True
              example_world = (Inr (Scalar (Finite 4)), ?w1)"
    by (simp add: run_simps)
  have r34: "loss_batch example_env ([[[0], [0]]], [[[5], [7]]]) False l1_sum (3 / 4) False False
              True example_world = (Inr (Scalar (Finite 4)), ?w1)"
    by (simp add: run_simps)
  have r0: "loss_batch example_env ([[[0], [0]]], [[[5], [7]]]) False l1_sum 0 False False True
              example_world = (Inr (Scalar (Finite 7)), ?w0)"
    by (simp add: run_simps)
  have r14: "loss_batch example_env ([[[0], [0]]], [[[5], [7]]]) False l1_sum (1 / 4) False False
              True example_world = (Inr (Scalar (Finite 7)), ?w0)"
    by (simp add: run_simps)
  have c1: "[([[1]], [[2]]), ([[5::real]], [[6::real]])] =
              decoder_calls (drop (length (trace example_world)) (trace ?w1))"
    by (simp add: example_world_def)
  have c0: "[([[1]], [[2]]), ([[2::real]], [[3::real]])] =
              decoder_calls (drop (length (trace example_world)) (trace ?w0))"
    by (simp add: example_world_def)
  from teacher_forcing_one_draw[OF h1 h2 h3 r1 c1]
  have a: "fst ([([[1]], [[2]]), ([[5::real]], [[6::real]])] ! 1) =
             map (\<lambda>x. x ! (1 - 1)) [[[5], [7]]]"
    by simp
  from teacher_forcing_one_draw[OF h1 h2 h3 r34 c1] below
  have a': "fst ([([[1]], [[2]]), ([[5::real]], [[6::real]])] ! 1) =
             map (\<lambda>x. x ! (1 - 1)) [[[5], [7]]]"
    by simp
  from teacher_forcing_one_draw[OF h1 h2 h3 r0 c0]
  have b: "fed_back False (snd ([([[1]], [[2]]), ([[2::real]], [[3::real]])] ! 0))
     (fst ([([[1]], [[2]]), ([[2::real]], [[3::real]])] ! Suc 0))"
    by simp
  from teacher_forcing_one_draw[OF h1 h2 h3 r14 c0] above
  have b': "fed_back False (snd ([([[1]], [[2]]), ([[2::real]], [[3::real]])] ! 0))
     (fst ([([[1]], [[2]]), ([[2::real]], [[3::real]])] ! Suc 0))"
    by simp
  from h1 h2 h3 below above r1 r34 r0 r14 a' b' show ?thesis by blast
qed

section \<open>Batch loss and per-sample losses\<close>

lemma sum_zip_concat:
  "list_all2 (\<lambda>x y. length x = length y) xs ys \<Longrightarrow>
   sum_list (map2 g (concat xs) (concat ys)) =
   sum_list (map2 (\<lambda>x y. sum_list (map2 g x y)) xs ys)"
  by (induction xs ys rule: list_all2_induct) simp_all

lemma length_concat_rows:
  "list_all (\<lambda>v. length v = f) s \<Longrightarrow> length (concat s) = length s * f"
  by (induction s) simp_all

lemma has_shape_sample_size:
  "has_shape x b T f \<Longrightarrow> list_all (\<lambda>s. length (concat s) = T * f) x"
  by (auto simp: has_shape_def list_all_iff length_concat_rows)

lemma length_concat_const:
  "list_all (\<lambda>s. length s = n) xs \<Longrightarrow> length (concat xs) = length xs * n"
  by (induction xs) simp_all

lemma concat_concat_map: "concat (concat xs) = concat (map concat xs)"
  by (induction xs) simp_all

lemma map_nth_zip:
  "length xs = length ys \<Longrightarrow>
   map (\<lambda>j. F (xs ! j) (ys ! j)) [0..<length xs] = map2 F xs ys"
  by (rule nth_equalityI) simp_all

lemma sum_list_divide: "sum_list (map (\<lambda>x. h x / c) xs) = sum_list (map h xs) / (c::real)"
  by (induction xs) (simp_all add: add_divide_distrib)

lemma mean_of_sample_means:
  assumes X: "has_shape X b T f" and Y: "has_shape Y b T f"
  shows "mean (map2 g (concat (concat X)) (concat (concat Y))) =
         mean (map (\<lambda>j. mean (map2 g (concat (X ! j)) (concat (Y ! j)))) [0..<length X])"
proof -
  let ?n = "T * f"
  let ?S = "\<lambda>x y. sum_list (map2 g (concat x) (concat y))"
  have lX: "length X = b" and lY: "length Y = b" using X Y by (simp_all add: has_shape_def)
  have sX: "list_all (\<lambda>s. length (concat s) = ?n) X" using X by (rule has_shape_sample_size)
  have sY: "list_all (\<lambda>s. length (concat s) = ?n) Y" using Y by (rule has_shape_sample_size)
  have l2: "list_all2 (\<lambda>x y. length x = length y) (map concat X) (map concat Y)"
    using lX lY sX sY by (simp add: list_all2_conv_all_nth list_all_length)
  have cX: "length (concat (concat X)) = b * ?n"
    using length_concat_const[of ?n "map concat X"] sX lX
    by (simp add: list_all_length concat_concat_map)
  have cY: "length (concat (concat Y)) = b * ?n"
    using length_concat_const[of ?n "map concat Y"] sY lY
    by (simp add: list_all_length concat_concat_map)
  have "sum_list (map2 g (concat (map concat X)) (concat (map concat Y))) =
        sum_list (map2 (\<lambda>x y. sum_list (map2 g x y)) (map concat X) (map concat Y))"
    using l2 by (rule sum_zip_concat)
  then have total: "sum_list (map2 g (concat (concat X)) (concat (concat Y))) =
        sum_list (map2 ?S X Y)"
    by (simp add: zip_map_map concat_concat_map comp_def case_prod_unfold)
  have lhs: "mean (map2 g (concat (concat X)) (concat (concat Y))) =
        sum_list (map2 ?S X Y) / real (b * ?n)"
    by (simp add: mean_def total cX cY)
  have each: "map2 (\<lambda>x y. mean (map2 g (concat x) (concat y))) X Y =
        map2 (\<lambda>x y. ?S x y / real ?n) X Y"
  proof (rule nth_equalityI)
    show "length (map2 (\<lambda>x y. mean (map2 g (concat x) (concat y))) X Y) =
          length (map2 (\<lambda>x y. ?S x y / real ?n) X Y)" by simp
  next
    fix j assume "j < length (map2 (\<lambda>x y. mean (map2 g (concat x) (concat y))) X Y)"
    then have j: "j < b" using lX lY by simp
    with sX sY lX lY have "length (concat (X ! j)) = ?n" "length (concat (Y ! j)) = ?n"
      by (simp_all add: list_all_length)
    with j lX lY show "map2 (\<lambda>x y. mean (map2 g (concat x) (concat y))) X Y ! j =
          map2 (\<lambda>x y. ?S x y / real ?n) X Y ! j"
      by (simp add: mean_def)
  qed
  have "map (\<lambda>j. mean (map2 g (concat (X ! j)) (concat (Y ! j)))) [0..<length X] =
        map2 (\<lambda>x y. mean (map2 g (concat x) (concat y))) X Y"
    using lX lY by (intro map_nth_zip) simp
  then have "mean (map (\<lambda>j. mean (map2 g (concat (X ! j)) (concat (Y ! j)))) [0..<length X]) =
        mean (map2 (\<lambda>x y. mean (map2 g (concat x) (concat y))) X Y)"
    by (simp only:)
  also have "\<dots> = mean (map2 (\<lambda>x y. ?S x y / real ?n) X Y)"
    by (simp only: each)
  also have "\<dots> = sum_list (map2 (\<lambda>x y. ?S x y / real ?n) X Y) / real b"
    using lX lY by (simp add: mean_def)
  also have "sum_list (map2 (\<lambda>x y. ?S x y / real ?n) X Y) = sum_list (map2 ?S X Y) / real ?n"
    using sum_list_divide[of "\<lambda>p. ?S (fst p) (snd p)" "real ?n" "zip X Y"]
    by (simp add: case_prod_unfold)
  finally show ?thesis using lhs by simp
qed

lemma rounded_to_close: "\<bar>rounded_to p y - y\<bar> \<le> 1 / 2 ^ Suc p"
proof -
  have "\<bar>of_int (round (y * 2 ^ p)) - y * 2 ^ p\<bar> \<le> 1 / 2"
    by (rule of_int_round_abs_le)
  then have "\<bar>of_int (round (y * 2 ^ p)) - y * 2 ^ p\<bar> / 2 ^ p \<le> (1 / 2) / 2 ^ p"
    by (rule divide_right_mono) simp
  moreover have "rounded_to p y - y = (of_int (round (y * 2 ^ p)) - y * 2 ^ p) / 2 ^ p"
    by (simp add: rounded_to_def diff_divide_distrib)
  then have "\<bar>rounded_to p y - y\<bar> = \<bar>of_int (round (y * 2 ^ p)) - y * 2 ^ p\<bar> / 2 ^ p"
    by (simp only: abs_divide) simp
  ultimately show ?thesis by simp
qed

lemma sum_close:
  "list_all2 (\<lambda>x y. \<bar>x - y\<bar> \<le> d) xs ys \<Longrightarrow>
   \<bar>sum_list xs - sum_list ys\<bar> \<le> real (length xs) * (d::real)"
  by (induction xs ys rule: list_all2_induct) (auto simp: algebra_simps)

lemma mean_close:
  assumes "list_all2 (\<lambda>x y. \<bar>x - y\<bar> \<le> d) xs ys" and "xs \<noteq> []"
  shows "\<bar>mean xs - mean ys\<bar> \<le> d"
proof -
  from assms(1) have l: "length ys = length xs" by (simp add: list_all2_lengthD)
  from assms(2) have n: "0 < real (length xs)" by simp
  have "\<bar>mean xs - mean ys\<bar> = \<bar>sum_list xs - sum_list ys\<bar> / real (length xs)"
    using n by (simp add: mean_def l diff_divide_distrib[symmetric])
  also have "\<dots> \<le> (real (length xs) * d) / real (length xs)"
    using sum_close[OF assms(1)] n by (intro divide_right_mono) simp_all
  also have "\<dots> = d" using n by simp
  finally show ?thesis .
qed

lemma loss_batch_same_outputs:
  assumes r1: "loss_batch E (input_batch, target_batch) False crit ratio ua nq True w
                 = (Inr (Scalar l), w1)"
      and r2: "loss_batch E (input_batch, target_batch) False crit ratio ua nq False w
                 = (Inr (PerSample ls), w2)"
  obtains first eh dec s where "timestep target_batch 0 = Inr first"
    and "decode_loop dec target_batch (zeros_like first) (random_random E (draws w) < ratio) nq
           [0..<seq_len input_batch]
           \<lparr>decoder_input = ones_like first, decoder_hidden = eh,
            outputs = zeros_like3 target_batch, calls = []\<rparr> = (None, s)"
    and "l = on_batch crit (outputs s) target_batch"
    and "ls = map (\<lambda>j. on_sample crit (outputs s ! j) (target_batch ! j))
                [0..<length (outputs s)]"
proof -
  obtain first where first: "timestep target_batch 0 = Inr first"
    using r1 by (cases "timestep target_batch 0")
      (auto simp: loss_batch_def Let_def split: prod.splits)
  from first _ r1 obtain eo eh r s where
    e1: "encoder_forward E (params (encoder w)) False (permute102 input_batch) = (eo, eh)"
    and l1: "decode_loop
           (\<lambda>i h. decoder_forward E (params (decoder w)) False i h (if ua then Some eo else None))
           target_batch (zeros_like first) (random_random E (draws w) < ratio) nq
           [0..<seq_len input_batch]
           \<lparr>decoder_input = ones_like first, decoder_hidden = eh,
            outputs = zeros_like3 target_batch, calls = []\<rparr> = (r, s)"
    and res1: "Inr (Scalar l) = (case r of
                  Some e \<Rightarrow> Inl e
                | None \<Rightarrow>
                    Inr (if True then Scalar (on_batch crit (outputs s) target_batch)
                         else PerSample
                                (map (\<lambda>b. on_sample crit (outputs s ! b) (target_batch ! b))
                                   [0..<length (outputs s)])))"
    by (rule loss_batch_run) simp
  from first _ r2 obtain eo' eh' r' s' where
    e2: "encoder_forward E (params (encoder w)) False (permute102 input_batch) = (eo', eh')"
    and l2: "decode_loop
           (\<lambda>i h. decoder_forward E (params (decoder w)) False i h (if ua then Some eo' else None))
           target_batch (zeros_like first) (random_random E (draws w) < ratio) nq
           [0..<seq_len input_batch]
           \<lparr>decoder_input = ones_like first, decoder_hidden = eh',
            outputs = zeros_like3 target_batch, calls = []\<rparr> = (r', s')"
    and res2: "Inr (PerSample ls) = (case r' of
                  Some e \<Rightarrow> Inl e
                | None \<Rightarrow>
                    Inr (if False then Scalar (on_batch crit (outputs s') target_batch)
                         else PerSample
                                (map (\<lambda>b. on_sample crit (outputs s' ! b) (target_batch ! b))
                                   [0..<length (outputs s')])))"
    by (rule loss_batch_run) simp
  from e1 e2 have eq: "eo' = eo" "eh' = eh" by simp_all
  from l2[unfolded eq] l1 have same: "r' = r" "s' = s" by simp_all
  from res1 have r: "r = None" by (cases r) simp_all
  from res1 r have l: "l = on_batch crit (outputs s) target_batch" by simp
  from res2 same r have ls: "ls = map (\<lambda>j. on_sample crit (outputs s ! j) (target_batch ! j))
                              [0..<length (outputs s)]"
    by simp
  from first l1[unfolded r] l ls show thesis by (rule that)
qed

text \<open>
  C6, as stated, fails: the two results come from two calls of the criterion on the same
  outputs, once on the whole batch and once on each sample. A criterion that does not
  average gives a batch loss that is not the mean of the per-sample losses: with the
  summed absolute error and two samples, the batch loss is 8 and the per-sample losses
  are 3 and 5. A criterion that averages but rounds its result, as float32 arithmetic
  does, gives a batch loss that is close to the mean of the per-sample losses and not
  equal to it: with per-sample losses 1, 1 and 2 the batch loss is the float next to
  \<open>4/3\<close>. And with optimizers the call with \<^verbatim>\<open>average_batch=False\<close> returns no list at
  all.
\<close>

theorem batch_loss_is_not_mean_of_sample_losses:
  "fst (loss_batch example_env ([[[0]], [[0]]], [[[5]], [[7]]]) False l1_sum 0 False False True
          example_world) = Inr (Scalar (Finite 8)) \<and>
   fst (loss_batch example_env ([[[0]], [[0]]], [[[5]], [[7]]]) False l1_sum 0 False False False
          example_world) = Inr (PerSample [Finite 3, Finite 5]) \<and>
   mean [3, 5] = 4 \<and> (8::real) \<noteq> 4 \<and>
   fst (loss_batch example_env ([[[0]], [[0]], [[0]]], [[[3]], [[3]], [[4]]]) False
          (rounded_mean_criterion (\<lambda>a b. \<bar>a - b\<bar>)) 0 False False True example_world)
     = Inr (Scalar (Finite (11184811 / 8388608))) \<and>
   fst (loss_batch example_env ([[[0]], [[0]], [[0]]], [[[3]], [[3]], [[4]]]) False
          (rounded_mean_criterion (\<lambda>a b. \<bar>a - b\<bar>)) 0 False False False example_world)
     = Inr (PerSample [Finite 1, Finite 1, Finite 2]) \<and>
   mean [1, 1, 2] = 4 / 3 \<and> (11184811 / 8388608 :: real) \<noteq> 4 / 3 \<and>
   fst (loss_batch example_env ([[[0]], [[0]], [[0]]], [[[3]], [[3]], [[4]]]) True
          (mean_criterion (\<lambda>a b. \<bar>a - b\<bar>)) 0 False False False example_world)
     = Inl SystemExit"
  by (simp add: run_simps mean_def rounded_mean_criterion_def rounded_to_def round_def)

text \<open>
  C6, amended: for every criterion, every rectangular batch with at least one feature
  and every fixed state (models and random draw), when the evaluation-mode call with
  \<^verbatim>\<open>average_batch=True\<close> returns a scalar and the one with \<^verbatim>\<open>average_batch=False\<close>
  returns the per-sample list, both are computed from the same outputs, of the target's
  shape: the scalar is the criterion of the outputs and the target, and the list holds
  the criterion of each sample's outputs and target. Whenever these values are finite
  and each is within \<open>\<delta>\<close> of the mean of an elementwise loss \<open>g\<close> over the elements the
  criterion was called on (mean reduction, computed with a rounding error of at most
  \<open>\<delta>\<close>), the scalar differs from the arithmetic mean of the list by at most \<open>2\<delta>\<close>; so
  without rounding (\<open>\<delta> = 0\<close>) the scalar is the arithmetic mean of the list.
\<close>

theorem mean_loss_is_mean_of_sample_losses:
  assumes sh: "has_shape target_batch b T f" and f: "0 < f"
      and r1: "loss_batch E (input_batch, target_batch) False crit ratio ua nq True w
                 = (Inr (Scalar l), w1)"
      and r2: "loss_batch E (input_batch, target_batch) False crit ratio ua nq False w
                 = (Inr (PerSample ls), w2)"
  shows "\<exists>outs. has_shape outs b T f \<and>
           l = on_batch crit outs target_batch \<and>
           ls = map (\<lambda>j. on_sample crit (outs ! j) (target_batch ! j)) [0..<b] \<and>
           (\<forall>g \<delta> x xs.
              l = Finite x \<and> ls = map Finite xs \<and>
              \<bar>x - mean (map2 g (concat (concat outs)) (concat (concat target_batch)))\<bar> \<le> \<delta> \<and>
              (\<forall>j<b. \<bar>xs ! j - mean (map2 g (concat (outs ! j)) (concat (target_batch ! j)))\<bar>
                       \<le> \<delta>) \<longrightarrow>
              \<bar>x - mean xs\<bar> \<le> 2 * \<delta> \<and> (\<delta> = 0 \<longrightarrow> x = mean xs))"
proof -
  from r1 r2 obtain first eh dec s where first: "timestep target_batch 0 = Inr first"
    and loop: "decode_loop dec target_batch (zeros_like first)
           (random_random E (draws w) < ratio) nq [0..<seq_len input_batch]
           \<lparr>decoder_input = ones_like first, decoder_hidden = eh,
            outputs = zeros_like3 target_batch, calls = []\<rparr> = (None, s)"
    and l: "l = on_batch crit (outputs s) target_batch"
    and ls: "ls = map (\<lambda>j. on_sample crit (outputs s ! j) (target_batch ! j))
                [0..<length (outputs s)]"
    by (rule loss_batch_same_outputs)
  have shape: "has_shape (outputs s) b T f"
    using loop by (rule decode_loop_shape) (simp add: sh has_shape_zeros_like3)
  then have len: "length (outputs s) = b" by (rule has_shape_length)
  from first have "0 < seq_len target_batch" by (simp add: timestep_Inr)
  then have "target_batch \<noteq> []" by (rule seq_len_pos)
  with sh have b: "0 < b" by (auto simp: has_shape_def)
  have close: "\<bar>x - mean xs\<bar> \<le> 2 * \<delta> \<and> (\<delta> = 0 \<longrightarrow> x = mean xs)"
    if xs: "ls = map Finite xs"
    and cb: "\<bar>x - mean (map2 g (concat (concat (outputs s))) (concat (concat target_batch)))\<bar>
               \<le> \<delta>"
    and cs: "\<forall>j<b. \<bar>xs ! j - mean (map2 g (concat (outputs s ! j)) (concat (target_batch ! j)))\<bar>
               \<le> \<delta>"
    for g \<delta> x xs
  proof -
    let ?ms = "map (\<lambda>j. mean (map2 g (concat (outputs s ! j)) (concat (target_batch ! j))))
                 [0..<length (outputs s)]"
    have "length ls = b" using ls len by simp
    with xs have lx: "length xs = b" by simp
    with b have ne: "xs \<noteq> []" by auto
    have "list_all2 (\<lambda>x y. \<bar>x - y\<bar> \<le> \<delta>) xs ?ms"
      using cs lx len by (simp add: list_all2_conv_all_nth)
    then have m: "\<bar>mean xs - mean ?ms\<bar> \<le> \<delta>" using ne by (rule mean_close)
    have "mean (map2 g (concat (concat (outputs s))) (concat (concat target_batch))) = mean ?ms"
      using shape sh by (rule mean_of_sample_means)
    with cb have "\<bar>x - mean ?ms\<bar> \<le> \<delta>" by simp
    with m have "\<bar>x - mean xs\<bar> \<le> 2 * \<delta>" by linarith
    then show ?thesis by auto
  qed
  have "has_shape (outputs s) b T f \<and>
        l = on_batch crit (outputs s) target_batch \<and>
        ls = map (\<lambda>j. on_sample crit (outputs s ! j) (target_batch ! j)) [0..<b]"
    using shape l ls len by simp
  with close show ?thesis by (intro exI[of _ "outputs s"]) blast
qed

theorem mean_loss_is_mean_of_sample_losses_witness:
  "has_shape [[[3]], [[3]], [[4]]] 3 1 1 \<and> (0::nat) < 1 \<and>
   fst (loss_batch example_env ([[[0]], [[0]], [[0]]], [[[3]], [[3]], [[4]]]) False
          (rounded_mean_criterion (\<lambda>a b. \<bar>a - b\<bar>)) 0 False False True example_world)
     = Inr (Scalar (Finite (11184811 / 8388608))) \<and>
   fst (loss_batch example_env ([[[0]], [[0]], [[0]]], [[[3]], [[3]], [[4]]]) False
          (rounded_mean_criterion (\<lambda>a b. \<bar>a - b\<bar>)) 0 False False False example_world)
     = Inr (PerSample (map Finite [1, 1, 2])) \<and>
   \<bar>11184811 / 8388608 - mean [1, 1, 2]\<bar> \<le> 2 * (1 / 2 ^ 24)"
proof -
  let ?w = "example_world\<lparr>draws := 1,
              trace := [Encoder_Call, Decoder_Call [[1], [1], [1]] [[2], [2], [2]]]\<rparr>"
  let ?crit = "rounded_mean_criterion (\<lambda>a b. \<bar>a - b\<bar>)"
  let ?target = "[[[3]], [[3]], [[4::real]]]"
  have h1: "has_shape ?target 3 1 1" by (simp add: has_shape_def)
  have h2: "(0::nat) < 1" by simp
  have r1: "loss_batch example_env ([[[0]], [[0]], [[0]]], ?target) False ?crit 0 False False
              True example_world = (Inr (Scalar (Finite (11184811 / 8388608))), ?w)"
    by (simp add: run_simps mean_def rounded_mean_criterion_def rounded_to_def round_def)
  have r2: "loss_batch example_env ([[[0]], [[0]], [[0]]], ?target) False ?crit 0 False False
              False example_world = (Inr (PerSample (map Finite [1, 1, 2])), ?w)"
    by (simp add: run_simps mean_def rounded_mean_criterion_def rounded_to_def round_def)
  from mean_loss_is_mean_of_sample_losses[OF h1 h2 r1 r2] obtain outs where
    l: "Finite (11184811 / 8388608) = on_batch ?crit outs ?target"
    and ls: "map Finite [1, 1, 2] = map (\<lambda>j. on_sample ?crit (outs ! j) (?target ! j)) [0..<3]"
    and close: "\<And>g \<delta> x xs.
              Finite (11184811 / 8388608) = Finite x \<Longrightarrow> map Finite [1, 1, 2] = map Finite xs \<Longrightarrow>
              \<bar>x - mean (map2 g (concat (concat outs)) (concat (concat ?target)))\<bar> \<le> \<delta> \<Longrightarrow>
              (\<forall>j<3. \<bar>xs ! j - mean (map2 g (concat (outs ! j)) (concat (?target ! j)))\<bar>
                       \<le> \<delta>) \<Longrightarrow>
              \<bar>x - mean xs\<bar> \<le> 2 * \<delta>"
    by blast
  let ?g = "\<lambda>a b::real. \<bar>a - b\<bar>"
  from l have x: "11184811 / 8388608 =
      rounded_to 23 (mean (map2 ?g (concat (concat outs)) (concat (concat ?target))))"
    by (simp add: rounded_mean_criterion_def)
  have cb: "\<bar>11184811 / 8388608 -
      mean (map2 ?g (concat (concat outs)) (concat (concat ?target)))\<bar> \<le> 1 / 2 ^ 24"
    using rounded_to_close[of 23 "mean (map2 ?g (concat (concat outs)) (concat (concat ?target)))"]
    by (simp only: x[symmetric]) simp
  have cs: "\<forall>j<3. \<bar>[1, 1, 2] ! j - mean (map2 ?g (concat (outs ! j)) (concat (?target ! j)))\<bar>
               \<le> 1 / 2 ^ 24"
  proof (intro allI impI)
    fix j :: nat assume j: "j < 3"
    from ls have "map Finite [1, 1, 2] ! j =
        map (\<lambda>j. on_sample ?crit (outs ! j) (?target ! j)) [0..<3] ! j" by simp
    with j have "[1, 1, 2] ! j =
        rounded_to 23 (mean (map2 ?g (concat (outs ! j)) (concat (?target ! j))))"
      by (simp add: rounded_mean_criterion_def nth_Cons' split: if_splits)
    then show "\<bar>[1, 1, 2] ! j - mean (map2 ?g (concat (outs ! j)) (concat (?target ! j)))\<bar>
               \<le> 1 / 2 ^ 24"
      using rounded_to_close[of 23 "mean (map2 ?g (concat (outs ! j)) (concat (?target ! j)))"]
      by simp
  qed
  have "\<bar>11184811 / 8388608 - mean [1, 1, 2]\<bar> \<le> 2 * (1 / 2 ^ 24)"
    by (rule close[OF refl refl cb cs])
  with h1 h2 r1 r2 show ?thesis by simp
qed

section \<open>Quaternion normalisation is nearly idempotent\<close>

lemma norm_quaternions_of_with: "norm_quaternions_of = norm_quaternions_with f_normalize"
  by (rule ext) (simp add: norm_quaternions_of_def norm_quaternions_with_def)

lemma norm_quaternions_with_Inr:
  assumes "norm_quaternions_with N output = Inr y"
  shows "concat output \<noteq> []" and "length (concat output) mod 4 = 0"
    and "y = view_as output (concat (map N (quads (concat output))))"
proof -
  have c: "\<not> (concat output = [] \<or> length (concat output) mod 4 \<noteq> 0)"
  proof
    assume "concat output = [] \<or> length (concat output) mod 4 \<noteq> 0"
    then have "norm_quaternions_with N output = Inl RuntimeError"
      unfolding norm_quaternions_with_def Let_def by (rule if_P)
    with assms show False by simp
  qed
  then show "concat output \<noteq> []" and "length (concat output) mod 4 = 0" by simp_all
  from c have "norm_quaternions_with N output =
      Inr (view_as output (concat (map N (quads (concat output)))))"
    unfolding norm_quaternions_with_def Let_def by (rule if_not_P)
  with assms show "y = view_as output (concat (map N (quads (concat output))))"
    by simp
qed

lemma norm_quaternions_with_ok:
  assumes "concat output \<noteq> []" and "length (concat output) mod 4 = 0"
  shows "norm_quaternions_with N output =
           Inr (view_as output (concat (map N (quads (concat output)))))"
proof -
  from assms have "\<not> (concat output = [] \<or> length (concat output) mod 4 \<noteq> 0)" by simp
  then show ?thesis unfolding norm_quaternions_with_def Let_def by (rule if_not_P)
qed

lemma sqrt_close_one:
  assumes "0 \<le> s"
  shows "\<bar>sqrt s - 1\<bar> \<le> \<bar>s - 1\<bar>"
proof -
  have "s - 1 = (sqrt s - 1) * (sqrt s + 1)"
    using assms by (simp add: algebra_simps)
  then have "\<bar>s - 1\<bar> = \<bar>sqrt s - 1\<bar> * \<bar>sqrt s + 1\<bar>" by (simp add: abs_mult)
  moreover have "1 \<le> \<bar>sqrt s + 1\<bar>" using assms by simp
  ultimately show ?thesis
    using mult_left_mono[of 1 "\<bar>sqrt s + 1\<bar>" "\<bar>sqrt s - 1\<bar>"] by simp
qed

lemma square_close:
  assumes "\<bar>p - u\<bar> \<le> (d::real)" and "\<bar>u\<bar> \<le> 1"
  shows "\<bar>p\<^sup>2 - u\<^sup>2\<bar> \<le> d * (2 + d)"
proof -
  from assms have d: "0 \<le> d" by linarith
  have "p\<^sup>2 - u\<^sup>2 = (p - u) * (p + u)" by (simp add: power2_eq_square algebra_simps)
  then have "\<bar>p\<^sup>2 - u\<^sup>2\<bar> = \<bar>p - u\<bar> * \<bar>p + u\<bar>" by (simp add: abs_mult)
  also have "\<dots> \<le> d * \<bar>p + u\<bar>" using assms(1) by (rule mult_right_mono) simp
  also have "\<dots> \<le> d * (2 + d)"
  proof (rule mult_left_mono)
    show "\<bar>p + u\<bar> \<le> 2 + d" using assms by linarith
  qed (rule d)
  finally show ?thesis .
qed

lemma abs_le_l2_norm: "x \<in> set v \<Longrightarrow> \<bar>x\<bar> \<le> l2_norm v"
proof -
  assume x: "x \<in> set v"
  have "x\<^sup>2 \<le> (\<Sum>y\<leftarrow>v. y\<^sup>2)"
    using x by (intro member_le_sum_list) auto
  then have "sqrt (x\<^sup>2) \<le> sqrt (\<Sum>y\<leftarrow>v. y\<^sup>2)" by (rule real_sqrt_le_mono)
  then show ?thesis by (simp only: l2_norm_def real_sqrt_abs)
qed

lemma l2_norm_nonneg: "0 \<le> l2_norm v"
  unfolding l2_norm_def by (intro real_sqrt_ge_zero sum_list_nonneg) auto

lemma l2_norm_four: "l2_norm [a, b, c, d] = sqrt (a\<^sup>2 + b\<^sup>2 + c\<^sup>2 + d\<^sup>2)"
  by (simp add: l2_norm_def)

lemma norm_near_unit:
  assumes u: "l2_norm u = 1" and lu: "length u = 4"
      and close: "list_all2 (\<lambda>a b. \<bar>a - b\<bar> \<le> \<delta>) p u"
  shows "\<bar>l2_norm p - 1\<bar> \<le> 8 * \<delta> + 4 * \<delta>\<^sup>2"
    and "\<forall>x\<in>set p. \<bar>x\<bar> \<le> 1 + \<delta>"
proof -
  from lu obtain u1 u2 u3 u4 where ue: "u = [u1, u2, u3, u4]" by (rule length_four)
  from close lu have "length p = 4" by (simp add: list_all2_lengthD)
  then obtain p1 p2 p3 p4 where pe: "p = [p1, p2, p3, p4]" by (rule length_four)
  from close have c: "\<bar>p1 - u1\<bar> \<le> \<delta>" "\<bar>p2 - u2\<bar> \<le> \<delta>" "\<bar>p3 - u3\<bar> \<le> \<delta>" "\<bar>p4 - u4\<bar> \<le> \<delta>"
    by (simp_all add: ue pe)
  have b: "\<bar>u1\<bar> \<le> 1" "\<bar>u2\<bar> \<le> 1" "\<bar>u3\<bar> \<le> 1" "\<bar>u4\<bar> \<le> 1"
    using abs_le_l2_norm[of u1 u] abs_le_l2_norm[of u2 u] abs_le_l2_norm[of u3 u]
      abs_le_l2_norm[of u4 u] u by (simp_all add: ue)
  from u have "sqrt (u1\<^sup>2 + u2\<^sup>2 + u3\<^sup>2 + u4\<^sup>2) = 1" by (simp add: ue l2_norm_four)
  then have s: "u1\<^sup>2 + u2\<^sup>2 + u3\<^sup>2 + u4\<^sup>2 = 1" by simp
  have q: "\<bar>p1\<^sup>2 - u1\<^sup>2\<bar> \<le> \<delta> * (2 + \<delta>)" "\<bar>p2\<^sup>2 - u2\<^sup>2\<bar> \<le> \<delta> * (2 + \<delta>)"
    "\<bar>p3\<^sup>2 - u3\<^sup>2\<bar> \<le> \<delta> * (2 + \<delta>)" "\<bar>p4\<^sup>2 - u4\<^sup>2\<bar> \<le> \<delta> * (2 + \<delta>)"
    using c b by (simp_all add: square_close)
  have e: "4 * (\<delta> * (2 + \<delta>)) = 8 * \<delta> + 4 * \<delta>\<^sup>2"
    by (simp add: power2_eq_square algebra_simps)
  have "\<bar>(p1\<^sup>2 + p2\<^sup>2 + p3\<^sup>2 + p4\<^sup>2) - 1\<bar> \<le> 4 * (\<delta> * (2 + \<delta>))"
    using q s by linarith
  then have "\<bar>(p1\<^sup>2 + p2\<^sup>2 + p3\<^sup>2 + p4\<^sup>2) - 1\<bar> \<le> 8 * \<delta> + 4 * \<delta>\<^sup>2" by (simp only: e)
  moreover have "\<bar>sqrt (p1\<^sup>2 + p2\<^sup>2 + p3\<^sup>2 + p4\<^sup>2) - 1\<bar> \<le> \<bar>(p1\<^sup>2 + p2\<^sup>2 + p3\<^sup>2 + p4\<^sup>2) - 1\<bar>"
    by (rule sqrt_close_one) simp
  ultimately show "\<bar>l2_norm p - 1\<bar> \<le> 8 * \<delta> + 4 * \<delta>\<^sup>2"
    by (simp only: pe l2_norm_four)
  show "\<forall>x\<in>set p. \<bar>x\<bar> \<le> 1 + \<delta>"
    using c b by (auto simp: pe)
qed

lemma tolerance_bound:
  assumes "0 \<le> (\<delta>::real)" and "\<delta> \<le> 1 / 100"
  shows "8 * \<delta> + 4 * \<delta>\<^sup>2 \<le> 201 / 2500"
    and "(1 + \<delta>) * (8 * \<delta> + 4 * \<delta>\<^sup>2) \<le> 9 * \<delta> * (919 / 1000)"
proof -
  have a: "\<delta> * \<delta> \<le> \<delta> * (1 / 100)" using assms by (intro mult_left_mono)
  then show "8 * \<delta> + 4 * \<delta>\<^sup>2 \<le> 201 / 2500"
    using assms by (simp add: power2_eq_square)
  have "8 + 12 * \<delta> + 4 * (\<delta> * \<delta>) \<le> 8271 / 1000" using a assms by simp
  then have "\<delta> * (8 + 12 * \<delta> + 4 * (\<delta> * \<delta>)) \<le> \<delta> * (8271 / 1000)"
    using assms(1) by (rule mult_left_mono)
  moreover have "(1 + \<delta>) * (8 * \<delta> + 4 * \<delta>\<^sup>2) = \<delta> * (8 + 12 * \<delta> + 4 * (\<delta> * \<delta>))"
    by (simp add: power2_eq_square algebra_simps)
  ultimately show "(1 + \<delta>) * (8 * \<delta> + 4 * \<delta>\<^sup>2) \<le> 9 * \<delta> * (919 / 1000)" by simp
qed

lemma renormalize_near_unit:
  assumes d: "0 \<le> \<delta>" "\<delta> \<le> 1 / 100"
      and n: "\<bar>l2_norm p - 1\<bar> \<le> 8 * \<delta> + 4 * \<delta>\<^sup>2"
      and b: "\<forall>x\<in>set p. \<bar>x\<bar> \<le> 1 + \<delta>"
  shows "list_all2 (\<lambda>a b. \<bar>a - b\<bar> \<le> 9 * \<delta>) (f_normalize p) p"
proof -
  let ?n = "l2_norm p" and ?e = "8 * \<delta> + 4 * \<delta>\<^sup>2"
  from tolerance_bound[OF d] have e: "?e \<le> 201 / 2500"
    and t: "(1 + \<delta>) * ?e \<le> 9 * \<delta> * (919 / 1000)" by simp_all
  from n e have lo: "919 / 1000 \<le> ?n" by linarith
  then have pos: "0 < ?n" by linarith
  from lo eps_le_one have "max ?n eps = ?n" by (simp add: eps_def)
  then have fn: "f_normalize p = map (\<lambda>x. x / ?n) p" by (simp add: f_normalize_def)
  have each: "\<bar>x / ?n - x\<bar> \<le> 9 * \<delta>" if x: "x \<in> set p" for x
  proof -
    have "x / ?n - x = x * (1 - ?n) / ?n" using pos by (simp add: field_simps)
    then have "\<bar>x / ?n - x\<bar> = \<bar>x\<bar> * \<bar>1 - ?n\<bar> / ?n"
      using pos by (simp add: abs_mult)
    also have "\<bar>x\<bar> * \<bar>1 - ?n\<bar> \<le> (1 + \<delta>) * ?e"
    proof (rule mult_mono)
      show "\<bar>x\<bar> \<le> 1 + \<delta>" using b x by blast
      show "\<bar>1 - ?n\<bar> \<le> ?e" using n by linarith
      show "0 \<le> 1 + \<delta>" using d by simp
      show "0 \<le> \<bar>1 - ?n\<bar>" by simp
    qed
    then have "\<bar>x\<bar> * \<bar>1 - ?n\<bar> / ?n \<le> (1 + \<delta>) * ?e / ?n"
      using pos by (intro divide_right_mono) simp_all
    also have "(1 + \<delta>) * ?e / ?n \<le> 9 * \<delta>"
    proof -
      have "9 * \<delta> * (919 / 1000) \<le> 9 * \<delta> * ?n"
        using lo d by (intro mult_left_mono) simp_all
      with t have "(1 + \<delta>) * ?e \<le> 9 * \<delta> * ?n" by linarith
      then show ?thesis using pos by (simp add: pos_divide_le_eq)
    qed
    finally show ?thesis .
  qed
  have "list_all2 (\<lambda>a b. \<bar>a - b\<bar> \<le> 9 * \<delta>) (map (\<lambda>x. x / ?n) p) p"
    using each by (simp add: list_all2_map1 list.rel_refl_strong)
  then show ?thesis by (simp only: fn)
qed

lemma concat_close:
  "list_all2 (list_all2 P) xss yss \<Longrightarrow> list_all2 P (concat xss) (concat yss)"
  by (induction xss yss rule: list_all2_induct) (simp_all add: list_all2_appendI)

lemma length_concat_quads:
  "list_all (\<lambda>q. length q = 4) qs \<Longrightarrow> length (concat qs) = 4 * length qs"
  by (induction qs) simp_all

lemma group_step:
  assumes d: "0 \<le> \<delta>" "\<delta> \<le> 1 / 100"
      and range: "eps \<le> m" "m \<le> 9 / 10" "11 / 10 \<le> M"
      and acc: "\<And>q. length q = 4 \<Longrightarrow> m \<le> l2_norm q \<Longrightarrow> l2_norm q \<le> M \<Longrightarrow>
                  list_all2 (\<lambda>a b. \<bar>a - b\<bar> \<le> \<delta>) (N q) (f_normalize q)"
      and len: "length q = 4" and lo: "m \<le> l2_norm q" and hi: "l2_norm q \<le> M"
  shows "length (N q) = 4" and "\<bar>l2_norm (N q) - 1\<bar> \<le> 8 * \<delta> + 4 * \<delta>\<^sup>2"
    and "length (N (N q)) = 4"
    and "list_all2 (\<lambda>a b. \<bar>a - b\<bar> \<le> 10 * \<delta>) (N (N q)) (N q)"
proof -
  have c1: "list_all2 (\<lambda>a b. \<bar>a - b\<bar> \<le> \<delta>) (N q) (f_normalize q)"
    using len lo hi by (rule acc)
  then have "length (N q) = length (f_normalize q)" by (rule list_all2_lengthD)
  with len show l1: "length (N q) = 4" by simp
  from range(1) lo have "eps \<le> l2_norm q" by linarith
  then have u: "l2_norm (f_normalize q) = 1" by (rule l2_norm_normalize)
  have lu: "length (f_normalize q) = 4" using len by simp
  from norm_near_unit[OF u lu c1]
  have n: "\<bar>l2_norm (N q) - 1\<bar> \<le> 8 * \<delta> + 4 * \<delta>\<^sup>2"
    and b: "\<forall>x\<in>set (N q). \<bar>x\<bar> \<le> 1 + \<delta>" by simp_all
  from n show "\<bar>l2_norm (N q) - 1\<bar> \<le> 8 * \<delta> + 4 * \<delta>\<^sup>2" .
  from tolerance_bound(1)[OF d] n range
  have lo2: "m \<le> l2_norm (N q)" and hi2: "l2_norm (N q) \<le> M" by linarith+
  have c2: "list_all2 (\<lambda>a b. \<bar>a - b\<bar> \<le> \<delta>) (N (N q)) (f_normalize (N q))"
    using l1 lo2 hi2 by (rule acc)
  then have "length (N (N q)) = length (f_normalize (N q))" by (rule list_all2_lengthD)
  with l1 show "length (N (N q)) = 4" by simp
  have c3: "list_all2 (\<lambda>a b. \<bar>a - b\<bar> \<le> 9 * \<delta>) (f_normalize (N q)) (N q)"
    using d n b by (rule renormalize_near_unit)
  show "list_all2 (\<lambda>a b. \<bar>a - b\<bar> \<le> 10 * \<delta>) (N (N q)) (N q)"
  proof (rule list_all2_trans[OF _ c2 c3])
    fix a b c :: real
    assume "\<bar>a - b\<bar> \<le> \<delta>" and "\<bar>b - c\<bar> \<le> 9 * \<delta>"
    then show "\<bar>a - c\<bar> \<le> 10 * \<delta>" by linarith
  qed
qed

lemma groups_step:
  assumes d: "0 \<le> \<delta>" "\<delta> \<le> 1 / 100"
      and range: "eps \<le> m" "m \<le> 9 / 10" "11 / 10 \<le> M"
      and acc: "\<And>q. length q = 4 \<Longrightarrow> m \<le> l2_norm q \<Longrightarrow> l2_norm q \<le> M \<Longrightarrow>
                  list_all2 (\<lambda>a b. \<bar>a - b\<bar> \<le> \<delta>) (N q) (f_normalize q)"
      and len: "list_all (\<lambda>q. length q = 4) qs"
      and big: "list_all (\<lambda>q. m \<le> l2_norm q \<and> l2_norm q \<le> M) qs"
  shows "list_all (\<lambda>q. length q = 4) (map N qs)"
    and "list_all (\<lambda>q. \<bar>l2_norm q - 1\<bar> \<le> 8 * \<delta> + 4 * \<delta>\<^sup>2) (map N qs)"
    and "list_all (\<lambda>q. length q = 4) (map N (map N qs))"
    and "list_all2 (list_all2 (\<lambda>a b. \<bar>a - b\<bar> \<le> 10 * \<delta>)) (map N (map N qs)) (map N qs)"
proof -
  have each: "length (N q) = 4 \<and> \<bar>l2_norm (N q) - 1\<bar> \<le> 8 * \<delta> + 4 * \<delta>\<^sup>2 \<and>
      length (N (N q)) = 4 \<and> list_all2 (\<lambda>a b. \<bar>a - b\<bar> \<le> 10 * \<delta>) (N (N q)) (N q)"
    if "q \<in> set qs" for q
  proof -
    from that len big have l: "length q = 4" and lo: "m \<le> l2_norm q" and hi: "l2_norm q \<le> M"
      by (simp_all add: list_all_iff)
    from group_step[of \<delta> m M N q, OF d range acc l lo hi] show ?thesis by simp
  qed
  show "list_all (\<lambda>q. length q = 4) (map N qs)" using each by (simp add: list_all_iff)
  show "list_all (\<lambda>q. \<bar>l2_norm q - 1\<bar> \<le> 8 * \<delta> + 4 * \<delta>\<^sup>2) (map N qs)"
    using each by (simp add: list_all_iff)
  show "list_all (\<lambda>q. length q = 4) (map N (map N qs))" using each by (simp add: list_all_iff)
  show "list_all2 (list_all2 (\<lambda>a b. \<bar>a - b\<bar> \<le> 10 * \<delta>)) (map N (map N qs)) (map N qs)"
    using each by (simp add: list_all2_map1 list_all2_map2 list.rel_refl_strong)
qed

lemma float_normalize_accurate:
  assumes lo: "1 / 2 \<le> l2_norm q" and hi: "l2_norm q \<le> 2 ^ 63"
  shows "list_all2 (\<lambda>a b. \<bar>a - b\<bar> \<le> 1 / 2 ^ 22) (float_normalize q) (f_normalize q)"
proof -
  let ?n = "l2_norm q" and ?r = "rounded_to 24 (l2_norm q)"
  have nn: "0 \<le> (\<Sum>x\<leftarrow>q. x\<^sup>2)" by (rule sum_list_nonneg) auto
  then have "(\<Sum>x\<leftarrow>q. x\<^sup>2) = ?n\<^sup>2" by (simp add: l2_norm_def)
  also have "\<dots> \<le> (2 ^ 63)\<^sup>2" using hi l2_norm_nonneg[of q] by (intro power_mono)
  finally have small: "\<not> 2 ^ 128 \<le> (\<Sum>x\<leftarrow>q. x\<^sup>2)" by simp
  have rn: "\<bar>?r - ?n\<bar> \<le> 1 / 2 ^ 25" using rounded_to_close[of 24 ?n] by simp
  have quarter: "(1::real) / 2 ^ 25 \<le> 1 / 4" by simp
  from rn have "?n - ?r \<le> 1 / 2 ^ 25" unfolding abs_le_iff by linarith
  with quarter lo have rlo: "1 / 4 \<le> ?r" by linarith
  have npos: "0 < ?n" using lo by linarith
  have rpos: "0 < ?r" using rlo by linarith
  have mr: "max ?r eps = ?r" using rlo by (simp add: eps_def)
  have mn: "max ?n eps = ?n" using lo by (simp add: eps_def)
  have fl: "float_normalize q = map (\<lambda>x. rounded_to 24 (x / ?r)) q"
    using small by (simp add: float_normalize_def mr)
  have fn: "f_normalize q = map (\<lambda>x. x / ?n) q" by (simp add: f_normalize_def mn)
  have each: "\<bar>rounded_to 24 (x / ?r) - x / ?n\<bar> \<le> 1 / 2 ^ 22" if x: "x \<in> set q" for x
  proof -
    have xn: "\<bar>x\<bar> \<le> ?n" using x by (rule abs_le_l2_norm)
    have "x / ?r - x / ?n = x * (?n - ?r) / (?n * ?r)"
      using npos rpos by (simp add: field_simps)
    then have "\<bar>x / ?r - x / ?n\<bar> = (\<bar>x\<bar> / ?n) * (\<bar>?n - ?r\<bar> / ?r)"
      using npos rpos by (simp add: abs_mult)
    also have "\<dots> \<le> 1 * ((1 / 2 ^ 25) / (1 / 4))"
    proof (rule mult_mono)
      show "\<bar>x\<bar> / ?n \<le> 1" using xn npos by simp
      have "\<bar>?n - ?r\<bar> / ?r \<le> (1 / 2 ^ 25) / ?r"
        using rn rpos by (intro divide_right_mono) (simp_all add: abs_minus_commute)
      also have "\<dots> \<le> (1 / 2 ^ 25) / (1 / 4)"
        using rlo by (intro divide_left_mono) simp_all
      finally show "\<bar>?n - ?r\<bar> / ?r \<le> (1 / 2 ^ 25) / (1 / 4)" .
      show "0 \<le> (1::real)" by simp
      show "0 \<le> \<bar>?n - ?r\<bar> / ?r" using rpos by simp
    qed
    finally have a: "\<bar>x / ?r - x / ?n\<bar> \<le> 1 / 2 ^ 23" by simp
    have b: "\<bar>rounded_to 24 (x / ?r) - x / ?r\<bar> \<le> 1 / 2 ^ 25"
      using rounded_to_close[of 24 "x / ?r"] by simp
    have tri: "\<bar>rounded_to 24 (x / ?r) - x / ?n\<bar> \<le>
        \<bar>rounded_to 24 (x / ?r) - x / ?r\<bar> + \<bar>x / ?r - x / ?n\<bar>" by linarith
    have sum: "(1::real) / 2 ^ 25 + 1 / 2 ^ 23 \<le> 1 / 2 ^ 22" by simp
    from tri a b sum show ?thesis by linarith
  qed
  have "list_all2 (\<lambda>a b. \<bar>a - b\<bar> \<le> 1 / 2 ^ 22)
          (map (\<lambda>x. rounded_to 24 (x / ?r)) q) (map (\<lambda>x. x / ?n) q)"
    using each by (simp add: list_all2_map1 list_all2_map2 list.rel_refl_strong)
  then show ?thesis by (simp only: fl fn)
qed

lemma round_sqrt:
  assumes "(of_int k - 1 / 2)\<^sup>2 \<le> s" and "s < (of_int k + 1 / 2)\<^sup>2" and "0 < k"
  shows "round (sqrt s) = k"
proof (rule round_unique)
  from assms(3) have "0 \<le> (of_int k :: real) + 1 / 2" by simp
  then have "sqrt s < of_int k + 1 / 2" using assms(2) by (rule real_less_lsqrt)
  then show "sqrt s - 1 / 2 < of_int k" by simp
  have "of_int k - 1 / 2 \<le> sqrt s" using assms(1) by (rule real_le_rsqrt)
  then show "of_int k \<le> sqrt s + 1 / 2" by simp
qed

lemma l2_norm_7: "l2_norm [4, 4, 4, 1] = 7"
proof -
  have "l2_norm [4, 4, 4, 1] = sqrt (7\<^sup>2)" by (simp add: l2_norm_def)
  then show ?thesis by simp
qed

lemma float_first:
  "norm_quaternions_with float_normalize [[4, 4, 4, 1]] =
     Inr [[9586981 / 16777216, 9586981 / 16777216, 9586981 / 16777216, 2396745 / 16777216]]"
  by (simp add: norm_quaternions_with_def float_normalize_def l2_norm_7 rounded_to_def
        round_def eps_def)

lemma l2_norm_first:
  "l2_norm [9586981 / 16777216, 9586981 / 16777216, 9586981 / 16777216, 2396745 / 16777216] =
     sqrt 281475000678108 / 16777216"
proof -
  have "l2_norm [9586981 / 16777216, 9586981 / 16777216, 9586981 / 16777216,
          2396745 / 16777216] = sqrt (281475000678108 / 16777216\<^sup>2)"
    by (simp add: l2_norm_def power_divide)
  also have "\<dots> = sqrt 281475000678108 / 16777216"
    by (simp only: real_sqrt_divide) simp
  finally show ?thesis .
qed

lemma rounded_norm_first:
  "rounded_to 24 (sqrt 281475000678108 / 16777216) = 16777217 / 16777216"
proof -
  have "round (sqrt 281475000678108) = 16777217"
    by (rule round_sqrt) (simp_all add: power2_eq_square)
  then show ?thesis by (simp add: rounded_to_def)
qed

lemma float_second:
  "norm_quaternions_with float_normalize
     [[9586981 / 16777216, 9586981 / 16777216, 9586981 / 16777216, 2396745 / 16777216]] =
     Inr [[9586980 / 16777216, 9586980 / 16777216, 9586980 / 16777216, 2396745 / 16777216]]"
proof -
  have "float_normalize
      [9586981 / 16777216, 9586981 / 16777216, 9586981 / 16777216, 2396745 / 16777216] =
      [9586980 / 16777216, 9586980 / 16777216, 9586980 / 16777216, 2396745 / 16777216]"
    unfolding float_normalize_def l2_norm_first rounded_norm_first
    by (simp add: rounded_to_def round_def eps_def power_divide)
  then show ?thesis by (simp add: norm_quaternions_with_def)
qed

lemma float_overflow:
  "norm_quaternions_with float_normalize [[10 ^ 20, 0, 0, 0]] = Inr [[0, 0, 0, 0]]"
  by (simp add: norm_quaternions_with_def float_normalize_def)

text \<open>
  C8, as stated, fails. Without any rounding: a group of four zeros is left as it is, with
  norm 0 and not 1; and a group whose norm is below \<open>eps\<close> is divided by \<open>eps\<close>, not by its
  norm, so a second normalisation changes it again. With rounding, as in float32: the
  group \<open>(4, 4, 4, 1)\<close> of norm 7 is normalised to a group whose norm is not 1, and a
  second normalisation changes three of its elements by one unit in the last place; and a
  group whose sum of squares overflows, such as \<open>(10\<^sup>2\<^sup>0, 0, 0, 0)\<close>, is normalised to
  zeros.
\<close>

theorem normalization_not_idempotent:
  "norm_quaternions_of [[0, 0, 0, 0]] = Inr [[0, 0, 0, 0]] \<and> l2_norm [0, 0, 0, 0] \<noteq> 1 \<and>
   norm_quaternions_of [[1 / 10 ^ 13, 0, 0, 0]] = Inr [[1 / 10, 0, 0, 0]] \<and>
   norm_quaternions_of [[1 / 10, 0, 0, 0]] = Inr [[1, 0, 0, 0]] \<and>
   norm_quaternions_with float_normalize [[4, 4, 4, 1]] =
     Inr [[9586981 / 16777216, 9586981 / 16777216, 9586981 / 16777216, 2396745 / 16777216]] \<and>
   l2_norm [9586981 / 16777216, 9586981 / 16777216, 9586981 / 16777216, 2396745 / 16777216]
     \<noteq> 1 \<and>
   norm_quaternions_with float_normalize
     [[9586981 / 16777216, 9586981 / 16777216, 9586981 / 16777216, 2396745 / 16777216]] =
     Inr [[9586980 / 16777216, 9586980 / 16777216, 9586980 / 16777216, 2396745 / 16777216]] \<and>
   (9586980 / 16777216 :: real) \<noteq> 9586981 / 16777216 \<and>
   norm_quaternions_with float_normalize [[10 ^ 20, 0, 0, 0]] = Inr [[0, 0, 0, 0]]"
proof -
  have exact: "norm_quaternions_of [[0, 0, 0, 0]] = Inr [[0, 0, 0, 0]] \<and>
      l2_norm [0, 0, 0, 0] \<noteq> 1 \<and>
      norm_quaternions_of [[1 / 10 ^ 13, 0, 0, 0]] = Inr [[1 / 10, 0, 0, 0]] \<and>
      norm_quaternions_of [[1 / 10, 0, 0, 0]] = Inr [[1, 0, 0, 0]]"
    by (simp add: nq_single l2_norm_unit_x eps_def)
  have norm: "l2_norm [9586981 / 16777216, 9586981 / 16777216, 9586981 / 16777216,
      2396745 / 16777216] \<noteq> 1"
    by (simp add: l2_norm_def power2_eq_square)
  have changed: "(9586980 / 16777216 :: real) \<noteq> 9586981 / 16777216" by simp
  from exact float_first norm float_second changed float_overflow show ?thesis by simp
qed

text \<open>
  C8, amended. Let the normaliser of the device be accurate to \<open>\<delta>\<close> (at most 1/100) on
  the groups of four whose L2 norm lies between \<open>m\<close> and \<open>M\<close>, that is, each element it
  returns is within \<open>\<delta>\<close> of the element divided by the norm of its group, where
  \<open>eps \<le> m \<le> 9/10\<close> and \<open>11/10 \<le> M\<close> (\<open>eps = 1e-12\<close>). Then for every step output that
  the normalisation accepts and whose groups all have a norm in that range: after the
  first normalisation every group has an L2 norm within \<open>8\<delta> + 4\<delta>\<^sup>2\<close> of 1, a second
  normalisation succeeds, keeps the shape and changes no element by more than \<open>10\<delta>\<close>.
  Without rounding (\<open>\<delta> = 0\<close>) every group has norm 1 after the first normalisation and
  the second returns its argument unchanged.
\<close>

theorem normalization_nearly_idempotent:
  assumes d: "0 \<le> \<delta>" "\<delta> \<le> 1 / 100"
      and range: "eps \<le> m" "m \<le> 9 / 10" "11 / 10 \<le> M"
      and acc: "\<And>q. length q = 4 \<Longrightarrow> m \<le> l2_norm q \<Longrightarrow> l2_norm q \<le> M \<Longrightarrow>
                  list_all2 (\<lambda>a b. \<bar>a - b\<bar> \<le> \<delta>) (N q) (f_normalize q)"
      and res: "norm_quaternions_with N output = Inr y"
      and big: "list_all (\<lambda>q. m \<le> l2_norm q \<and> l2_norm q \<le> M) (quads (concat output))"
  shows "\<exists>z. norm_quaternions_with N y = Inr z \<and> map length z = map length y \<and>
           list_all (\<lambda>q. \<bar>l2_norm q - 1\<bar> \<le> 8 * \<delta> + 4 * \<delta>\<^sup>2) (quads (concat y)) \<and>
           list_all2 (\<lambda>a b. \<bar>a - b\<bar> \<le> 10 * \<delta>) (concat z) (concat y) \<and>
           (\<delta> = 0 \<longrightarrow> z = y \<and> list_all (\<lambda>q. l2_norm q = 1) (quads (concat y)))"
proof -
  define flat where "flat = concat output"
  define P where "P = map N (quads flat)"
  define Q where "Q = map N P"
  define z where "z = view_as y (concat Q)"
  from norm_quaternions_with_Inr[OF res]
  have ne: "flat \<noteq> []" and m4: "length flat mod 4 = 0" and y: "y = view_as output (concat P)"
    by (simp_all add: flat_def P_def)
  have l4: "list_all (\<lambda>q. length q = 4) (quads flat)" by (rule quads_lengths)
  from big have big': "list_all (\<lambda>q. m \<le> l2_norm q \<and> l2_norm q \<le> M) (quads flat)"
    by (simp add: flat_def)
  from groups_step[of \<delta> m M N "quads flat", OF d range acc l4 big']
  have lP: "list_all (\<lambda>q. length q = 4) P"
    and nP: "list_all (\<lambda>q. \<bar>l2_norm q - 1\<bar> \<le> 8 * \<delta> + 4 * \<delta>\<^sup>2) P"
    and lQ: "list_all (\<lambda>q. length q = 4) Q"
    and cQ: "list_all2 (list_all2 (\<lambda>a b. \<bar>a - b\<bar> \<le> 10 * \<delta>)) Q P"
    by (simp_all add: P_def Q_def)
  have "length (concat P) = 4 * length (quads flat)"
    using length_concat_quads[OF lP] by (simp add: P_def)
  also have "\<dots> = length (concat (quads flat))" using length_concat_quads[OF l4] by simp
  also have "\<dots> = length flat" using m4 by (simp add: concat_quads)
  finally have lenP: "length (concat P) = length (concat output)" by (simp add: flat_def)
  have "length (concat Q) = 4 * length P" using length_concat_quads[OF lQ] by (simp add: Q_def)
  also have "\<dots> = length (concat P)" using length_concat_quads[OF lP] by simp
  finally have lenQ: "length (concat Q) = length (concat P)" .
  have cy: "concat y = concat P" unfolding y using lenP by (rule concat_view_as)
  have qy: "quads (concat y) = P" unfolding cy using lP by (rule quads_concat)
  have shape: "map length y = map length output" unfolding y using lenP by (rule view_as_lengths)
  have leny: "length (concat y) = length flat" using cy lenP flat_def by simp
  have ney: "concat y \<noteq> []"
  proof
    assume "concat y = []"
    then have "length (concat y) = 0" by (simp only: list.size)
    with leny ne show False by simp
  qed
  have m4y: "length (concat y) mod 4 = 0" using leny m4 by simp
  have "norm_quaternions_with N y = Inr (view_as y (concat (map N (quads (concat y)))))"
    using ney m4y by (rule norm_quaternions_with_ok)
  then have second: "norm_quaternions_with N y = Inr z" by (simp only: qy z_def Q_def)
  have lq: "length (concat Q) = length (concat y)" using lenQ cy by simp
  have cz: "concat z = concat Q" unfolding z_def using lq by (rule concat_view_as)
  have shz: "map length z = map length y" unfolding z_def using lq by (rule view_as_lengths)
  have norms: "list_all (\<lambda>q. \<bar>l2_norm q - 1\<bar> \<le> 8 * \<delta> + 4 * \<delta>\<^sup>2) (quads (concat y))"
    using nP by (simp only: qy)
  have "list_all2 (\<lambda>a b. \<bar>a - b\<bar> \<le> 10 * \<delta>) (concat Q) (concat P)"
    using cQ by (rule concat_close)
  then have close: "list_all2 (\<lambda>a b. \<bar>a - b\<bar> \<le> 10 * \<delta>) (concat z) (concat y)"
    by (simp only: cz cy)
  have exact: "z = y \<and> list_all (\<lambda>q. l2_norm q = 1) (quads (concat y))" if zero: "\<delta> = 0"
  proof -
    from close zero have "list_all2 (=) (concat z) (concat y)" by simp
    then have "concat z = concat y" by (simp add: list_all2_eq)
    with cz cy have "concat Q = concat P" by simp
    then have "z = view_as y (concat P)" by (simp add: z_def)
    also have "\<dots> = view_as output (concat P)" by (rule view_as_cong[OF shape])
    finally have "z = y" by (simp add: y)
    moreover from norms zero have "list_all (\<lambda>q. l2_norm q = 1) (quads (concat y))" by simp
    ultimately show ?thesis by simp
  qed
  from second shz norms close exact show ?thesis by blast
qed

theorem normalization_nearly_idempotent_witness:
  "(0::real) \<le> 1 / 2 ^ 22 \<and> (1::real) / 2 ^ 22 \<le> 1 / 100 \<and>
   eps \<le> 1 / 2 \<and> (1::real) / 2 \<le> 9 / 10 \<and> (11::real) / 10 \<le> 2 ^ 63 \<and>
   norm_quaternions_with float_normalize [[4, 4, 4, 1]] =
     Inr [[9586981 / 16777216, 9586981 / 16777216, 9586981 / 16777216, 2396745 / 16777216]] \<and>
   list_all (\<lambda>q. 1 / 2 \<le> l2_norm q \<and> l2_norm q \<le> 2 ^ 63) (quads (concat [[4, 4, 4, 1]])) \<and>
   norm_quaternions_with float_normalize
     [[9586981 / 16777216, 9586981 / 16777216, 9586981 / 16777216, 2396745 / 16777216]] =
     Inr [[9586980 / 16777216, 9586980 / 16777216, 9586980 / 16777216, 2396745 / 16777216]] \<and>
   \<bar>l2_norm [9586981 / 16777216, 9586981 / 16777216, 9586981 / 16777216, 2396745 / 16777216]
      - 1\<bar> \<le> 8 * (1 / 2 ^ 22) + 4 * (1 / 2 ^ 22)\<^sup>2 \<and>
   list_all2 (\<lambda>a b. \<bar>a - b\<bar> \<le> 10 * (1 / 2 ^ 22))
     [9586980 / 16777216, 9586980 / 16777216, 9586980 / 16777216, 2396745 / 16777216 :: real]
     [9586981 / 16777216, 9586981 / 16777216, 9586981 / 16777216, 2396745 / 16777216]"
proof -
  let ?y = "[[9586981 / 16777216, 9586981 / 16777216, 9586981 / 16777216,
             2396745 / 16777216 :: real]]"
  let ?z = "[[9586980 / 16777216, 9586980 / 16777216, 9586980 / 16777216,
             2396745 / 16777216 :: real]]"
  have h1: "(0::real) \<le> 1 / 2 ^ 22" and h2: "(1::real) / 2 ^ 22 \<le> 1 / 100" by simp_all
  have h3: "eps \<le> 1 / 2" by (simp add: eps_def)
  have h4: "(1::real) / 2 \<le> 9 / 10" and h5: "(11::real) / 10 \<le> 2 ^ 63" by simp_all
  have h6: "list_all2 (\<lambda>a b. \<bar>a - b\<bar> \<le> 1 / 2 ^ 22) (float_normalize q) (f_normalize q)"
    if "length q = 4" and "1 / 2 \<le> l2_norm q" and "l2_norm q \<le> 2 ^ 63" for q
    using that(2,3) by (rule float_normalize_accurate)
  have h7: "list_all (\<lambda>q. 1 / 2 \<le> l2_norm q \<and> l2_norm q \<le> 2 ^ 63)
              (quads (concat [[4, 4, 4, 1]]))"
    by (simp add: l2_norm_7)
  from normalization_nearly_idempotent[of "1 / 2 ^ 22" "1 / 2" "2 ^ 63" float_normalize
      "[[4, 4, 4, 1]]" ?y, OF h1 h2 h3 h4 h5 h6 float_first h7]
  obtain z where z: "norm_quaternions_with float_normalize ?y = Inr z"
    and n: "list_all (\<lambda>q. \<bar>l2_norm q - 1\<bar> \<le> 8 * (1 / 2 ^ 22) + 4 * (1 / 2 ^ 22)\<^sup>2)
              (quads (concat ?y))"
    and c: "list_all2 (\<lambda>a b. \<bar>a - b\<bar> \<le> 10 * (1 / 2 ^ 22)) (concat z) (concat ?y)"
    by blast
  from z float_second have "Inr z = (Inr ?z :: error + mat)" by (simp only:)
  then have "z = ?z" by (simp only: sum.inject)
  with c have "list_all2 (\<lambda>a b. \<bar>a - b\<bar> \<le> 10 * (1 / 2 ^ 22)) (concat ?z) (concat ?y)"
    by (simp only:)
  then have c': "list_all2 (\<lambda>a b. \<bar>a - b\<bar> \<le> 10 * (1 / 2 ^ 22))
     [9586980 / 16777216, 9586980 / 16777216, 9586980 / 16777216, 2396745 / 16777216 :: real]
     [9586981 / 16777216, 9586981 / 16777216, 9586981 / 16777216, 2396745 / 16777216]"
    by (simp only: concat.simps append_Nil2)
  from n have n': "\<bar>l2_norm [9586981 / 16777216, 9586981 / 16777216, 9586981 / 16777216,
      2396745 / 16777216] - 1\<bar> \<le> 8 * (1 / 2 ^ 22) + 4 * (1 / 2 ^ 22)\<^sup>2"
    by simp
  from h1 h2 h3 h4 h5 float_first h7 float_second n' c' show ?thesis by blast
qed

section \<open>Model selection\<close>

subsection \<open>Traces without selection events\<close>

lemma quiet_Nil [simp]: "quiet []"
  by (simp add: quiet_def)

lemma quiet_append [simp]: "quiet (a @ b) \<longleftrightarrow> quiet a \<and> quiet b"
  by (simp add: quiet_def)

lemma quiet_Cons [simp]: "quiet (e # es) \<longleftrightarrow> \<not> is_selection_event e \<and> quiet es"
  by (simp add: quiet_def)

lemma quiet_decoder_calls [simp]: "quiet (map (\<lambda>(i, out). Decoder_Call i out) cs)"
  by (induction cs) auto

lemma logged_means_quiet: "quiet q \<Longrightarrow> logged_means (q @ tr) = logged_means tr"
proof (induction q)
  case Nil
  then show ?case by simp
next
  case (Cons e q)
  then show ?case by (cases e) simp_all
qed

lemma save_epochs_quiet: "quiet q \<Longrightarrow> save_epochs n (q @ tr) = save_epochs n tr"
proof (induction q)
  case Nil
  then show ?case by simp
next
  case (Cons e q)
  then show ?case by (cases e) simp_all
qed

lemma saved_checkpoints_quiet:
  "quiet q \<Longrightarrow> saved_checkpoints (q @ tr) = saved_checkpoints tr"
proof (induction q)
  case Nil
  then show ?case by simp
next
  case (Cons e q)
  then show ?case by (cases e) simp_all
qed

lemma quiet_observed:
  assumes "quiet q"
  shows "logged_means q = []" and "save_epochs n q = []" and "saved_checkpoints q = []"
  using logged_means_quiet[OF assms, of "[]"] save_epochs_quiet[OF assms, of n "[]"]
    saved_checkpoints_quiet[OF assms, of "[]"]
  by simp_all

subsection \<open>The traces of the loops of fit\<close>

lemma loss_batch_quiet:
  assumes "loss_batch E data opts crit ratio ua nq ab w = (res, w')"
  shows "\<exists>q. trace w' = trace w @ q \<and> quiet q"
proof (cases "timestep (snd data) 0")
  case (Inl e)
  with assms have "trace w' = trace w @ [Encoder_Call]"
    by (auto simp: loss_batch_def Let_def split: prod.splits)
  then show ?thesis by simp
next
  case (Inr first)
  obtain input_batch target_batch where d: "data = (input_batch, target_batch)"
    by (cases data)
  show ?thesis
  proof (cases "ab \<or> \<not> opts")
    case True
    from Inr d have f: "timestep target_batch 0 = Inr first" by simp
    show ?thesis
    proof (rule loss_batch_run[OF f True assms[unfolded d]])
      fix s :: loop_state
      assume "trace w' =
        trace w @ Encoder_Call # map (\<lambda>(i, out). Decoder_Call i out) (calls s)"
      then show ?thesis by simp
    qed
  next
    case False
    with Inr d loss_batch_exit[of target_batch first ab opts E input_batch crit ratio ua nq w res w'] assms
    have "trace w' = trace w @ [Encoder_Call, Log_Warning]" by simp
    then show ?thesis by simp
  qed
qed

lemma train_loop_quiet:
  "train_loop E A ds losses w = (res, w') \<Longrightarrow> \<exists>q. trace w' = trace w @ q \<and> quiet q"
proof (induction ds arbitrary: losses w)
  case Nil
  then show ?case by simp
next
  case (Cons d ds)
  obtain index data where d: "d = (index, data)" by (cases d)
  obtain r1 w1 where lb: "loss_batch E data True (training_criterion A) 0 (use_attention A)
             (norm_quaternions A) True w = (r1, w1)"
    by (cases "loss_batch E data True (training_criterion A) 0 (use_attention A)
             (norm_quaternions A) True w")
  from loss_batch_quiet[OF lb] obtain q1 where q1: "trace w1 = trace w @ q1" "quiet q1" by blast
  show ?case
  proof (cases r1)
    case (Inl e)
    with Cons.prems d lb q1 show ?thesis by auto
  next
    case (Inr l)
    show ?thesis
    proof (cases "length (train_dataloader A) div 10 = 0")
      case True
      with Cons.prems d lb Inr q1 show ?thesis by auto
    next
      case False
      let ?w2 = "if index mod (length (train_dataloader A) div 10) = 0
                 then w1\<lparr>trace := trace w1 @
                            [Log_Progress index (length (train_dataloader A)) l]\<rparr>
                 else w1"
      from Cons.prems d lb Inr False
      have "train_loop E A ds (losses @ [l]) ?w2 = (res, w')" by simp
      from Cons.IH[OF this] obtain q2 where q2: "trace w' = trace ?w2 @ q2" "quiet q2" by blast
      have "\<exists>q. trace ?w2 = trace w @ q \<and> quiet q" using q1 by auto
      then obtain q3 where "trace ?w2 = trace w @ q3" "quiet q3" by blast
      with q2 have "trace w' = trace w @ (q3 @ q2) \<and> quiet (q3 @ q2)" by simp
      then show ?thesis by blast
    qed
  qed
qed

lemma val_loop_trace:
  "val_loop E A vc ds acc w = (res, w') \<Longrightarrow> \<exists>q. trace w' = trace w @ q \<and> quiet q"
proof (induction ds arbitrary: acc w)
  case Nil
  then show ?case by simp
next
  case (Cons data ds)
  obtain r1 w1 where lb: "loss_batch E data False vc 0 (use_attention A)
             (norm_quaternions A) True w = (r1, w1)"
    by (cases "loss_batch E data False vc 0 (use_attention A) (norm_quaternions A) True w")
  from loss_batch_quiet[OF lb] obtain q1 where q1: "trace w1 = trace w @ q1" "quiet q1" by blast
  show ?case
  proof (cases r1)
    case (Inl e)
    with Cons.prems lb q1 show ?thesis by auto
  next
    case (Inr l)
    with Cons.prems lb have "val_loop E A vc ds (acc @ [l]) w1 = (res, w')" by simp
    from Cons.IH[OF this] obtain q2 where "trace w' = trace w1 @ q2" "quiet q2" by blast
    with q1 have "trace w' = trace w @ (q1 @ q2) \<and> quiet (q1 @ q2)" by simp
    then show ?thesis by blast
  qed
qed

lemma validate_trace:
  "validate E A vcs acc w = (res, w') \<Longrightarrow> \<exists>q. trace w' = trace w @ q \<and> quiet q"
proof (induction vcs arbitrary: acc w)
  case Nil
  then show ?case by simp
next
  case (Cons vc vcs)
  obtain r1 w1 where vl: "val_loop E A vc (val_dataloader A) [] w = (r1, w1)"
    by (cases "val_loop E A vc (val_dataloader A) [] w")
  from val_loop_trace[OF vl] obtain q1 where q1: "trace w1 = trace w @ q1" "quiet q1" by blast
  show ?case
  proof (cases r1)
    case (Inl e)
    with Cons.prems vl q1 show ?thesis by auto
  next
    case (Inr ls)
    with Cons.prems vl have "validate E A vcs (acc @ [np_mean E ls]) w1 = (res, w')" by simp
    from Cons.IH[OF this] obtain q2 where "trace w' = trace w1 @ q2" "quiet q2" by blast
    with q1 have "trace w' = trace w @ (q1 @ q2) \<and> quiet (q1 @ q2)" by simp
    then show ?thesis by blast
  qed
qed

lemma val_loop_quiet:
  "val_loop E A vc ds acc w = (Inr ls, w') \<Longrightarrow>
   (\<exists>q. trace w' = trace w @ q \<and> quiet q) \<and> length ls = length acc + length ds"
proof (induction ds arbitrary: acc w)
  case Nil
  then show ?case by simp
next
  case (Cons data ds)
  obtain r1 w1 where lb: "loss_batch E data False vc 0 (use_attention A)
             (norm_quaternions A) True w = (r1, w1)"
    by (cases "loss_batch E data False vc 0 (use_attention A) (norm_quaternions A) True w")
  from loss_batch_quiet[OF lb] obtain q1 where q1: "trace w1 = trace w @ q1" "quiet q1" by blast
  show ?case
  proof (cases r1)
    case (Inl e)
    with Cons.prems lb show ?thesis by simp
  next
    case (Inr l)
    with Cons.prems lb have "val_loop E A vc ds (acc @ [l]) w1 = (Inr ls, w')" by simp
    from Cons.IH[OF this] obtain q2 where "trace w' = trace w1 @ q2" "quiet q2"
      and "length ls = length (acc @ [l]) + length ds" by blast
    with q1 have "trace w' = trace w @ (q1 @ q2) \<and> quiet (q1 @ q2)"
      and "length ls = length acc + length (data # ds)" by simp_all
    then show ?thesis by blast
  qed
qed

lemma validate_quiet:
  "validate E A vcs acc w = (Inr val_loss, w') \<Longrightarrow>
   (\<exists>q. trace w' = trace w @ q \<and> quiet q) \<and>
   (\<exists>new. val_loss = acc @ new \<and> length new = length vcs)"
proof (induction vcs arbitrary: acc w)
  case Nil
  then show ?case by simp
next
  case (Cons vc vcs)
  obtain r1 w1 where vl: "val_loop E A vc (val_dataloader A) [] w = (r1, w1)"
    by (cases "val_loop E A vc (val_dataloader A) [] w")
  show ?case
  proof (cases r1)
    case (Inl e)
    with Cons.prems vl show ?thesis by simp
  next
    case (Inr ls)
    from val_loop_quiet[OF vl[unfolded Inr]] obtain q1 where
      q1: "trace w1 = trace w @ q1" "quiet q1" by auto
    from Cons.prems vl Inr
    have "validate E A vcs (acc @ [np_mean E ls]) w1 = (Inr val_loss, w')" by simp
    from Cons.IH[OF this] obtain q2 new where q2: "trace w' = trace w1 @ q2" "quiet q2"
      and new: "val_loss = (acc @ [np_mean E ls]) @ new" "length new = length vcs"
      by blast
    have a: "trace w' = trace w @ (q1 @ q2) \<and> quiet (q1 @ q2)" using q1 q2 by simp
    have b: "val_loss = acc @ (np_mean E ls # new) \<and>
             length (np_mean E ls # new) = length (vc # vcs)"
      using new by simp
    from a b show ?thesis by blast
  qed
qed

lemma validate_first:
  assumes "validate E A (vc # vcs) [] w = (Inr val_loss, w')"
  shows "\<exists>ls w1 rest. val_loop E A vc (val_dataloader A) [] w = (Inr ls, w1) \<and>
           length ls = length (val_dataloader A) \<and> val_loss = np_mean E ls # rest"
proof -
  obtain r1 w1 where vl: "val_loop E A vc (val_dataloader A) [] w = (r1, w1)"
    by (cases "val_loop E A vc (val_dataloader A) [] w")
  from assms vl obtain ls where r1: "r1 = Inr ls" by (cases r1) simp_all
  from val_loop_quiet[OF vl[unfolded r1]]
  have len: "length ls = length (val_dataloader A)" by simp
  from assms vl r1 have "validate E A vcs ([] @ [np_mean E ls]) w1 = (Inr val_loss, w')"
    by simp
  from validate_quiet[OF this] obtain new where "val_loss = ([] @ [np_mean E ls]) @ new"
    by blast
  then have "val_loss = np_mean E ls # new" by simp
  with vl r1 len show ?thesis by blast
qed

lemma step_schedulers_trace [simp]: "trace (step_schedulers ss epoch w) = trace w"
proof -
  have "trace (fold (\<lambda>scheduler w.
             let (eo, dop) = scheduler epoch (encoder_opt w, decoder_opt w)
             in w\<lparr>encoder_opt := eo, decoder_opt := dop\<rparr>) ss w) = trace w"
    by (induction ss arbitrary: w) (simp_all add: Let_def split: prod.splits)
  then show ?thesis by (simp add: step_schedulers_def)
qed


subsection \<open>One epoch\<close>

lemma epoch_body_completes:
  assumes "epoch_body E A epoch st = (None, st')"
  obtains q l v vs where "quiet q"
    and "trace (world_of st') = trace (world_of st) @ q @ Log_Losses l (v # vs) #
           (if np_less v (min_val_loss st)
            then [Log_Saving, Torch_Save (checkpoint_of (world_of st'))]
            else [])"
    and "min_val_loss st' = (if np_less v (min_val_loss st) then v else min_val_loss st)"
    and "validation_mean E A (trained E A epoch (world_of st)) = Some v"
proof -
  let ?w0 = "(world_of st)\<lparr>trace := trace (world_of st) @ [Log_Epoch (epoch + 1) (epochs A)]\<rparr>"
  obtain r1 w1 where tl: "train_loop E A (enumerate 0 (train_dataloader A)) [] ?w0 = (r1, w1)"
    by (cases "train_loop E A (enumerate 0 (train_dataloader A)) [] ?w0")
  from assms tl obtain losses where r1: "r1 = Inr losses"
    by (cases r1) (simp_all add: epoch_body_def)
  obtain r2 w2 where va: "validate E A (validation_criteria A) [] w1 = (r2, w2)"
    by (cases "validate E A (validation_criteria A) [] w1")
  from assms tl r1 va obtain val_loss where r2: "r2 = Inr val_loss"
    by (cases r2) (simp_all add: epoch_body_def)
  from assms tl r1 va r2 obtain v vs where vl: "val_loss = v # vs"
    by (cases val_loss) (simp_all add: epoch_body_def Let_def)
  from train_loop_quiet[OF tl] obtain q1 where q1: "trace w1 = trace ?w0 @ q1" "quiet q1"
    by blast
  from validate_quiet[OF va[unfolded r2]] obtain q2 where
    q2: "trace w2 = trace w1 @ q2" "quiet q2" by auto
  from va r2 vl obtain vc vcs where vcs: "validation_criteria A = vc # vcs"
    by (cases "validation_criteria A") simp_all
  from validate_first[OF va[unfolded r2 vcs]] vl obtain ls w1' where
    loop: "val_loop E A vc (val_dataloader A) [] w1 = (Inr ls, w1')"
    and len: "length ls = length (val_dataloader A)" and v: "v = np_mean E ls"
    by auto
  have w1: "trained E A epoch (world_of st) = w1" unfolding trained_def tl by simp
  have vm: "validation_mean E A (trained E A epoch (world_of st)) = Some v"
    unfolding w1 by (simp add: validation_mean_def vcs loop v np_mean_def len)
  let ?q = "Log_Epoch (epoch + 1) (epochs A) # q1 @ q2"
  have q: "quiet ?q" using q1 q2 by simp
  have tr: "trace (world_of st') = trace (world_of st) @ ?q @ Log_Losses (np_mean E losses) (v # vs) #
           (if np_less v (min_val_loss st)
            then [Log_Saving, Torch_Save (checkpoint_of (world_of st'))]
            else [])"
    using assms tl r1 va r2 vl q1 q2
    by (auto simp: epoch_body_def Let_def save_checkpoint_def checkpoint_of_def split: if_splits)
  have mv: "min_val_loss st' = (if np_less v (min_val_loss st) then v else min_val_loss st)"
    using assms tl r1 va r2 vl
    by (auto simp: epoch_body_def Let_def split: if_splits)
  from q tr mv vm show thesis by (rule that)
qed

lemma epoch_body_fails:
  assumes "epoch_body E A epoch st = (Some e, st')"
  shows "\<exists>tr. trace (world_of st') = trace (world_of st) @ tr \<and>
           logged_means tr = [] \<and> (\<forall>n. save_epochs n tr = []) \<and> saved_checkpoints tr = []"
proof -
  let ?w0 = "(world_of st)\<lparr>trace := trace (world_of st) @ [Log_Epoch (epoch + 1) (epochs A)]\<rparr>"
  obtain r1 w1 where tl: "train_loop E A (enumerate 0 (train_dataloader A)) [] ?w0 = (r1, w1)"
    by (cases "train_loop E A (enumerate 0 (train_dataloader A)) [] ?w0")
  from train_loop_quiet[OF tl] obtain q1 where q1: "trace w1 = trace ?w0 @ q1" "quiet q1"
    by blast
  show ?thesis
  proof (cases r1)
    case (Inl e1)
    with assms tl have "world_of st' = w1" by (auto simp: epoch_body_def)
    with q1 have "trace (world_of st') =
        trace (world_of st) @ (Log_Epoch (epoch + 1) (epochs A) # q1)"
      and "quiet (Log_Epoch (epoch + 1) (epochs A) # q1)" by simp_all
    then show ?thesis using quiet_observed by blast
  next
    case (Inr losses)
    obtain r2 w2 where va: "validate E A (validation_criteria A) [] w1 = (r2, w2)"
      by (cases "validate E A (validation_criteria A) [] w1")
    show ?thesis
    proof (cases r2)
      case (Inl e2)
      with assms tl Inr va have w: "world_of st' = w2" by (auto simp: epoch_body_def)
      from validate_trace[OF va] have "\<exists>q. trace w2 = trace w1 @ q \<and> quiet q" .
      then obtain q2 where q2: "trace w2 = trace w1 @ q2" "quiet q2" by blast
      with q1 w have "trace (world_of st') =
          trace (world_of st) @ (Log_Epoch (epoch + 1) (epochs A) # q1 @ q2)"
        and "quiet (Log_Epoch (epoch + 1) (epochs A) # q1 @ q2)" by simp_all
      then show ?thesis using quiet_observed by blast
    next
      case r2: (Inr val_loss)
      from validate_quiet[OF va[unfolded r2]] obtain q2 where
        q2: "trace w2 = trace w1 @ q2" "quiet q2" by blast
      from assms tl Inr va r2 have vl: "val_loss = []"
        by (cases val_loss) (auto simp: epoch_body_def Let_def split: if_splits)
      let ?q = "Log_Epoch (epoch + 1) (epochs A) # q1 @ q2"
      have q: "quiet ?q" using q1 q2 by simp
      from assms tl Inr va r2 vl q1 q2
      have t: "trace (world_of st') =
          trace (world_of st) @ (?q @ [Log_Losses (np_mean E losses) []])"
        by (auto simp: epoch_body_def Let_def)
      have "logged_means (?q @ [Log_Losses (np_mean E losses) []]) = []"
        using logged_means_quiet[OF q] by simp
      moreover have "\<forall>n. save_epochs n (?q @ [Log_Losses (np_mean E losses) []]) = []"
        using save_epochs_quiet[OF q] by simp
      moreover have "saved_checkpoints (?q @ [Log_Losses (np_mean E losses) []]) = []"
        using saved_checkpoints_quiet[OF q] by simp
      ultimately show ?thesis using t by blast
    qed
  qed
qed

subsection \<open>The epochs of a run\<close>

lemma fit_loop_append:
  "fit_loop E A (xs @ ys) st =
     (case fit_loop E A xs st of
        (Some e, st1) \<Rightarrow> (Some e, st1)
      | (None, st1) \<Rightarrow> fit_loop E A ys st1)"
  by (induction xs arbitrary: st) (simp_all split: prod.splits option.splits)

lemma fit_loop_next:
  assumes "fit_loop E A [0..<k] st0 = (None, stk)" and "epoch_body E A k stk = (None, st1)"
  shows "fit_loop E A [0..<Suc k] st0 = (None, st1)"
proof -
  have "fit_loop E A ([0..<k] @ [k]) st0 = (None, st1)"
    unfolding fit_loop_append using assms by simp
  then show ?thesis by simp
qed

lemma fit_loop_selection:
  assumes "fit_loop E A [0..<k] st0 = (None, stk)" and "fit_loop E A [k..<n] stk = (r, st)"
  shows "\<exists>tr. trace (world_of st) = trace (world_of stk) @ tr \<and>
           length (logged_means tr) \<le> n - k \<and>
           (r = None \<longrightarrow> length (logged_means tr) = n - k) \<and>
           map Some (logged_means tr) =
             map (\<lambda>e. validation_mean E A
                         (trained E A e (world_of (snd (fit_loop E A [0..<e] st0)))))
               [k..<k + length (logged_means tr)] \<and>
           (\<forall>j. save_epochs j tr = saves_from j (min_val_loss stk) (logged_means tr)) \<and>
           saved_checkpoints tr =
             map (\<lambda>e. checkpoint_of (world_of (snd (fit_loop E A [0..<e] st0))))
               (save_epochs k tr)"
  using assms
proof (induction "n - k" arbitrary: k stk)
  case 0
  then have nk: "n - k = 0" and "[k..<n] = []" by simp_all
  with 0 have "st = stk" "r = None" by simp_all
  with nk show ?case by (intro exI[of _ "[]"]) simp
next
  case (Suc d)
  let ?VM = "\<lambda>e. validation_mean E A
                         (trained E A e (world_of (snd (fit_loop E A [0..<e] st0))))"
  let ?CP = "\<lambda>e. checkpoint_of (world_of (snd (fit_loop E A [0..<e] st0)))"
  from Suc.hyps(2) have kn: "k < n" and d: "d = n - Suc k" by simp_all
  then have up: "[k..<n] = k # [Suc k..<n]" by (simp add: upt_conv_Cons)
  obtain x st1 where eb: "epoch_body E A k stk = (x, st1)"
    by (cases "epoch_body E A k stk")
  show ?case
  proof (cases x)
    case (Some e)
    with Suc.prems(2) eb up have r: "r = Some e" and st: "st = st1" by simp_all
    from epoch_body_fails[OF eb[unfolded Some]] st obtain tr where
      "trace (world_of st) = trace (world_of stk) @ tr" "logged_means tr = []"
      "\<forall>n. save_epochs n tr = []" "saved_checkpoints tr = []" by blast
    with r show ?thesis by (intro exI[of _ tr]) simp
  next
    case None
    with Suc.prems(2) eb up have rest: "fit_loop E A [Suc k..<n] st1 = (r, st)" by simp
    have prefix: "fit_loop E A [0..<Suc k] st0 = (None, st1)"
      using Suc.prems(1) eb[unfolded None] by (rule fit_loop_next)
    from Suc.prems(1) have sk: "snd (fit_loop E A [0..<k] st0) = stk" by simp
    from prefix have sk1: "snd (fit_loop E A [0..<Suc k] st0) = st1" by simp
    from eb[unfolded None] obtain q l v vs where q: "quiet q"
      and t1: "trace (world_of st1) = trace (world_of stk) @ q @ Log_Losses l (v # vs) #
           (if np_less v (min_val_loss stk)
            then [Log_Saving, Torch_Save (checkpoint_of (world_of st1))]
            else [])"
      and mv: "min_val_loss st1 = (if np_less v (min_val_loss stk) then v else min_val_loss stk)"
      and vm: "validation_mean E A (trained E A k (world_of stk)) = Some v"
      by (rule epoch_body_completes)
    from Suc.hyps(1)[OF d prefix rest] obtain tr where
      t2: "trace (world_of st) = trace (world_of st1) @ tr"
      and len: "length (logged_means tr) \<le> n - Suc k"
        "r = None \<longrightarrow> length (logged_means tr) = n - Suc k"
      and means: "map Some (logged_means tr) =
                    map ?VM [Suc k..<Suc k + length (logged_means tr)]"
      and sv: "\<forall>j. save_epochs j tr = saves_from j (min_val_loss st1) (logged_means tr)"
      and cp: "saved_checkpoints tr = map ?CP (save_epochs (Suc k) tr)"
      by blast
    let ?sv = "if np_less v (min_val_loss stk)
            then [Log_Saving, Torch_Save (checkpoint_of (world_of st1))]
            else []"
    let ?tr = "q @ Log_Losses l (v # vs) # ?sv @ tr"
    have a: "trace (world_of st) = trace (world_of stk) @ ?tr" using t1 t2 by simp
    have lm: "logged_means ?tr = v # logged_means tr"
      using q by (simp add: logged_means_quiet)
    have se: "save_epochs j ?tr =
        (if np_less v (min_val_loss stk) then [Suc j] else []) @ save_epochs (Suc j) tr" for j
      using q by (simp add: save_epochs_quiet)
    have sc: "saved_checkpoints ?tr =
        (if np_less v (min_val_loss stk) then [checkpoint_of (world_of st1)] else []) @
        saved_checkpoints tr"
      using q by (simp add: saved_checkpoints_quiet)
    have l: "length (logged_means ?tr) \<le> n - k \<and>
             (r = None \<longrightarrow> length (logged_means ?tr) = n - k)"
      unfolding lm using len kn by auto
    have "[k..<k + Suc (length (logged_means tr))] =
          k # [Suc k..<k + Suc (length (logged_means tr))]"
      by (rule upt_conv_Cons) simp
    then have up2: "[k..<k + Suc (length (logged_means tr))] =
          k # [Suc k..<Suc k + length (logged_means tr)]"
      by (simp only: add_Suc_right add_Suc)
    have vk: "?VM k = Some v" using vm by (simp only: sk)
    have m': "map Some (v # logged_means tr) =
        map ?VM [k..<k + Suc (length (logged_means tr))]"
      unfolding up2 using means vk by (simp del: upt_Suc)
    have m: "map Some (logged_means ?tr) =
        map ?VM [k..<k + length (logged_means ?tr)]"
      unfolding lm length_Cons by (rule m')
    have s: "\<forall>j. save_epochs j ?tr = saves_from j (min_val_loss stk) (logged_means ?tr)"
      unfolding lm se using sv mv by simp
    have "?CP (Suc k) = checkpoint_of (world_of st1)" by (simp only: sk1)
    then have c: "saved_checkpoints ?tr = map ?CP (save_epochs k ?tr)"
      unfolding se sc using cp by simp
    from a l m s c show ?thesis by blast
  qed
qed

subsection \<open>Saving follows strict improvement\<close>

lemma np_less_trans: "np_less a b \<Longrightarrow> np_less b c \<Longrightarrow> np_less a c"
  by (cases a; cases b; cases c) simp_all

lemma np_less_below:
  "\<not> np_less v best \<Longrightarrow> np_less m best \<Longrightarrow> v = NaN \<or> np_less m v"
  by (cases v; cases best; cases m) simp_all

lemma np_less_not_nan: "np_less v b \<Longrightarrow> v \<noteq> NaN"
  by (cases v) simp_all

lemma improving_eq: "improving ms = improves_on PosInf ms"
  by (rule ext) (simp add: improving_def improves_on_def)

lemma improves_on_first: "improves_on best (v # ms) (Suc 0) = np_less v best"
  by (simp add: improves_on_def)

lemma improves_on_later:
  assumes e: "e < length ms"
  shows "improves_on best (v # ms) (Suc (Suc e)) =
         improves_on (if np_less v best then v else best) ms (Suc e)"
proof -
  let ?m = "ms ! e"
  let ?P = "\<lambda>m. m = NaN \<or> np_less ?m m"
  have key: "np_less ?m (if np_less v best then v else best) \<longleftrightarrow>
             np_less ?m best \<and> (v = NaN \<or> np_less ?m v)"
  proof (cases "np_less v best")
    case True
    then have "v \<noteq> NaN" by (rule np_less_not_nan)
    with True show ?thesis using np_less_trans[of ?m v best] by auto
  next
    case False
    then show ?thesis using np_less_below[of v best ?m] by auto
  qed
  have "improves_on best (v # ms) (Suc (Suc e)) \<longleftrightarrow>
        np_less ?m best \<and> (v = NaN \<or> np_less ?m v) \<and> list_all ?P (take e ms)"
    by (simp add: improves_on_def)
  also have "\<dots> \<longleftrightarrow> np_less ?m (if np_less v best then v else best) \<and>
        list_all ?P (take e ms)"
    using key by blast
  also have "\<dots> \<longleftrightarrow> improves_on (if np_less v best then v else best) ms (Suc e)"
    by (simp add: improves_on_def)
  finally show ?thesis .
qed

lemma filter_from_one:
  "filter P [1..<Suc (Suc n)] =
     (if P 1 then [1] else []) @ map Suc (filter (\<lambda>e. P (Suc e)) [1..<Suc n])"
proof -
  have "[1..<Suc (Suc n)] = 1 # map Suc [1..<Suc n]"
    by (simp only: map_Suc_upt) (simp add: upt_conv_Cons del: upt_Suc)
  then show ?thesis by (simp add: filter_map comp_def del: upt_Suc)
qed

lemma saves_from_filter:
  "saves_from n best ms = map ((+) n) (filter (improves_on best ms) [1..<Suc (length ms)])"
proof (induction ms arbitrary: n best)
  case Nil
  then show ?case by simp
next
  case (Cons v ms)
  let ?best = "if np_less v best then v else best"
  have later: "improves_on best (v # ms) (Suc e) = improves_on ?best ms e"
    if e: "e \<in> set [1..<Suc (length ms)]" for e
  proof -
    from e have "1 \<le> e \<and> e < Suc (length ms)" by (simp del: upt_Suc)
    then obtain e' where e': "e = Suc e'" and l: "e' < length ms" by (cases e) auto
    from improves_on_later[OF l, of best v] e' show ?thesis by simp
  qed
  have "filter (improves_on best (v # ms)) [1..<Suc (length (v # ms))] =
        (if improves_on best (v # ms) 1 then [1] else []) @
        map Suc (filter (\<lambda>e. improves_on best (v # ms) (Suc e)) [1..<Suc (length ms)])"
    using filter_from_one[of "improves_on best (v # ms)" "length ms"] by simp
  also have "filter (\<lambda>e. improves_on best (v # ms) (Suc e)) [1..<Suc (length ms)] =
        filter (improves_on ?best ms) [1..<Suc (length ms)]"
    by (rule filter_cong[OF refl]) (rule later)
  finally have f: "filter (improves_on best (v # ms)) [1..<Suc (length (v # ms))] =
        (if np_less v best then [1] else []) @
        map Suc (filter (improves_on ?best ms) [1..<Suc (length ms)])"
    by (simp only: improves_on_first One_nat_def)
  have ih: "saves_from (Suc n) ?best ms =
        map ((+) (Suc n)) (filter (improves_on ?best ms) [1..<Suc (length ms)])"
    by (rule Cons.IH)
  have "saves_from n best (v # ms) =
        (if np_less v best then [Suc n] else []) @ saves_from (Suc n) ?best ms" by simp
  also have "\<dots> = (if np_less v best then [Suc n] else []) @
        map ((+) (Suc n)) (filter (improves_on ?best ms) [1..<Suc (length ms)])"
    by (simp only: ih)
  also have "\<dots> = map ((+) n) ((if np_less v best then [1] else []) @
        map Suc (filter (improves_on ?best ms) [1..<Suc (length ms)]))"
    by (simp add: comp_def)
  finally show ?case by (simp only: f)
qed

lemma map_add_zero: "map ((+) (0::nat)) xs = xs"
  by (induction xs) simp_all

lemma improving_example:
  "filter (improving [Finite (9 / 10), Finite (7 / 10), Finite (8 / 10), Finite (5 / 10)])
     [1, 2, 3, 4] = [1, 2, 4]"
  by (simp add: improving_def)

lemmas fit_run_simps =
  fit_def epoch_body_def enumerate_eq_zip step_schedulers_def save_checkpoint_def np_mean_def
  loss_values_def exact_sum_def learning_env_def learning_args_def learning_world_def
  short_batch_def far_batch_def partial_l1_def
  loss_batch_def l1_sum_def timestep_def seq_len_def permute102_def ones_like_def
  zeros_like_def zeros_like3_def assign_timestep_def broadcast_to_def expand_def
  expand_row_def cols_def is_eos_def upt_rec optimize_def

text \<open>
  C5, as stated, fails when a mean is NaN: every comparison with NaN is false, so an
  epoch with a NaN mean writes no checkpoint and leaves the best value as it is, and a
  later epoch is compared with that best value only. In a run whose validation criterion
  returns NaN in epoch 1 and whose means are NaN, 3 and 13, the checkpoint is written at
  the end of epoch 2, although 3 is not lower than the mean of epoch 1.
\<close>

theorem checkpoint_after_nan_mean:
  "fst (fit learning_env (learning_args\<lparr>validation_criteria := [partial_l1]\<rparr>) 0
          learning_world) = None \<and>
   logged_means (trace (world_of (snd
     (fit learning_env (learning_args\<lparr>validation_criteria := [partial_l1]\<rparr>) 0
        learning_world)))) = [NaN, Finite 3, Finite 13] \<and>
   save_epochs 0 (trace (world_of (snd
     (fit learning_env (learning_args\<lparr>validation_criteria := [partial_l1]\<rparr>) 0
        learning_world)))) = [2] \<and>
   \<not> np_less (Finite 3) NaN"
  by (simp add: fit_run_simps)

text \<open>
  C5, amended: in every run of \<^verbatim>\<open>fit\<close>, whether it ends normally or by an exception, let
  \<open>ms\<close> be the first validation losses the epochs log, in order. Then every entry of \<open>ms\<close>
  is the mean of validation criterion 0 over the validation loader in its epoch: the sum
  of the losses that \<^verbatim>\<open>loss_batch\<close> returns in evaluation mode for the batches of the
  loader, with the models as the training of that epoch left them, divided by the number
  of batches. The epochs at whose end a checkpoint is written (\<^verbatim>\<open>torch.save\<close>, replacing
  the file's content) are exactly the epochs whose mean is strictly lower than
  \<^verbatim>\<open>math.inf\<close> and than the mean of every earlier epoch that is not NaN, each written
  once and in order. Every checkpoint holds the parameters of the encoder and of the
  decoder and the states of both optimizers as they are at the end of its epoch. A run
  that ends normally has logged one mean per epoch.
\<close>

theorem checkpoint_iff_improving:
  assumes run: "fit E A ratio w = (r, st)"
      and tr: "tr = drop (length (trace w)) (trace (world_of st))"
      and ms: "ms = logged_means tr"
  shows "length ms \<le> epochs A \<and>
         (r = None \<longrightarrow> length ms = epochs A) \<and>
         map Some ms =
           map (\<lambda>e. validation_mean E A
                       (trained E A e (world_of (after_epochs E A ratio w e))))
             [0..<length ms] \<and>
         save_epochs 0 tr = filter (improving ms) [1..<Suc (length ms)] \<and>
         saved_checkpoints tr =
           map (\<lambda>e. checkpoint_of (world_of (after_epochs E A ratio w e))) (save_epochs 0 tr)"
proof -
  let ?st0 = "\<lparr>world_of = w, min_val_loss = PosInf, teacher_forcing_ratio = ratio\<rparr>"
  have prefix: "fit_loop E A [0..<0] ?st0 = (None, ?st0)" by simp
  from run have rest: "fit_loop E A [0..<epochs A] ?st0 = (r, st)" by (simp add: fit_def)
  from fit_loop_selection[OF prefix rest] obtain tr' where
    t: "trace (world_of st) = trace w @ tr'"
    and len': "length (logged_means tr') \<le> epochs A"
      "r = None \<longrightarrow> length (logged_means tr') = epochs A"
    and means': "map Some (logged_means tr') =
        map (\<lambda>e. validation_mean E A
                    (trained E A e (world_of (snd (fit_loop E A [0..<e] ?st0)))))
          [0..<0 + length (logged_means tr')]"
    and sv': "\<forall>j. save_epochs j tr' = saves_from j PosInf (logged_means tr')"
    and cp': "saved_checkpoints tr' =
        map (\<lambda>e. checkpoint_of (world_of (snd (fit_loop E A [0..<e] ?st0))))
          (save_epochs 0 tr')"
    by auto
  from t tr have eq: "tr' = tr" by simp
  from len' eq ms have len: "length ms \<le> epochs A" "r = None \<longrightarrow> length ms = epochs A"
    by simp_all
  from means' eq ms have means: "map Some ms =
      map (\<lambda>e. validation_mean E A (trained E A e (world_of (after_epochs E A ratio w e))))
        [0..<length ms]"
    by (simp add: after_epochs_def)
  from sv' eq ms have "save_epochs 0 tr = saves_from 0 PosInf ms" by blast
  also have "\<dots> = map ((+) 0) (filter (improves_on PosInf ms) [1..<Suc (length ms)])"
    by (rule saves_from_filter)
  also have "\<dots> = filter (improving ms) [1..<Suc (length ms)]"
    by (simp only: improving_eq map_add_zero)
  finally have saves: "save_epochs 0 tr = filter (improving ms) [1..<Suc (length ms)]" .
  from cp' eq have payload: "saved_checkpoints tr =
      map (\<lambda>e. checkpoint_of (world_of (after_epochs E A ratio w e))) (save_epochs 0 tr)"
    by (simp add: after_epochs_def)
  from len means saves payload show ?thesis by simp
qed

theorem checkpoint_iff_improving_witness:
  "fst (fit learning_env learning_args 0 learning_world) = None \<and>
   logged_means (trace (world_of (snd (fit learning_env learning_args 0 learning_world)))) =
     [Finite 7, Finite 3, Finite 13] \<and>
   map (\<lambda>e. validation_mean learning_env learning_args
               (trained learning_env learning_args e
                  (world_of (after_epochs learning_env learning_args 0 learning_world e))))
     [0..<3] = [Some (Finite 7), Some (Finite 3), Some (Finite 13)] \<and>
   save_epochs 0 (trace (world_of (snd (fit learning_env learning_args 0 learning_world)))) =
     [1, 2] \<and>
   saved_checkpoints
     (trace (world_of (snd (fit learning_env learning_args 0 learning_world)))) =
     [\<lparr>encoder_state_dict = [110], decoder_state_dict = [- 2],
       optimizerA_state_dict = [10], optimizerB_state_dict = [15]\<rparr>,
      \<lparr>encoder_state_dict = [120], decoder_state_dict = [8],
       optimizerA_state_dict = [20], optimizerB_state_dict = [25]\<rparr>] \<and>
   map (\<lambda>e. checkpoint_of (world_of (after_epochs learning_env learning_args 0 learning_world e)))
     [1, 2] =
     [\<lparr>encoder_state_dict = [110], decoder_state_dict = [- 2],
       optimizerA_state_dict = [10], optimizerB_state_dict = [15]\<rparr>,
      \<lparr>encoder_state_dict = [120], decoder_state_dict = [8],
       optimizerA_state_dict = [20], optimizerB_state_dict = [25]\<rparr>]"
proof -
  let ?st = "snd (fit learning_env learning_args 0 learning_world)"
  let ?ms = "[Finite 7, Finite 3, Finite 13]"
  have fin: "fst (fit learning_env learning_args 0 learning_world) = None"
    by (simp add: fit_run_simps)
  then have run: "fit learning_env learning_args 0 learning_world = (None, ?st)"
    by (simp add: prod_eq_iff)
  have tr: "trace (world_of ?st) = drop (length (trace learning_world)) (trace (world_of ?st))"
    by (simp add: learning_world_def)
  have ms: "?ms = logged_means (trace (world_of ?st))"
    by (simp add: fit_run_simps)
  have cps: "saved_checkpoints (trace (world_of ?st)) =
     [\<lparr>encoder_state_dict = [110], decoder_state_dict = [- 2],
       optimizerA_state_dict = [10], optimizerB_state_dict = [15]\<rparr>,
      \<lparr>encoder_state_dict = [120], decoder_state_dict = [8],
       optimizerA_state_dict = [20], optimizerB_state_dict = [25]\<rparr>]"
    by (simp add: fit_run_simps)
  have ln: "length ?ms = 3" by simp
  from checkpoint_iff_improving[OF run tr ms]
  have means: "map Some ?ms =
      map (\<lambda>e. validation_mean learning_env learning_args
               (trained learning_env learning_args e
                  (world_of (after_epochs learning_env learning_args 0 learning_world e))))
        [0..<3]"
    and saves: "save_epochs 0 (trace (world_of ?st)) = filter (improving ?ms) [1..<Suc 3]"
    and payload: "saved_checkpoints (trace (world_of ?st)) =
      map (\<lambda>e. checkpoint_of
                  (world_of (after_epochs learning_env learning_args 0 learning_world e)))
        (save_epochs 0 (trace (world_of ?st)))"
    by (simp_all only: ln)
  have "filter (improving ?ms) [1..<Suc 3] = [1, 2]" by (simp add: improving_def upt_rec)
  with saves have saves': "save_epochs 0 (trace (world_of ?st)) = [1, 2]" by simp
  from payload cps have payload': "map (\<lambda>e. checkpoint_of
        (world_of (after_epochs learning_env learning_args 0 learning_world e))) [1, 2] =
     [\<lparr>encoder_state_dict = [110], decoder_state_dict = [- 2],
       optimizerA_state_dict = [10], optimizerB_state_dict = [15]\<rparr>,
      \<lparr>encoder_state_dict = [120], decoder_state_dict = [8],
       optimizerA_state_dict = [20], optimizerB_state_dict = [25]\<rparr>]"
    by (simp only: saves')
  from means have means': "map (\<lambda>e. validation_mean learning_env learning_args
               (trained learning_env learning_args e
                  (world_of (after_epochs learning_env learning_args 0 learning_world e))))
     [0..<3] = [Some (Finite 7), Some (Finite 3), Some (Finite 13)]"
    by (simp only: list.map)
  from fin ms means' saves' cps payload' show ?thesis by simp
qed

end
